theory Spec2Isabelle
  imports Main "HOL-Library.Sublist"
begin

section \<open>Go library functions used by the program\<close>

text \<open>
  Go strings are byte sequences; they are modelled as \<open>string\<close> (a list of characters).
  Only the library functions the program calls are modelled, each on the arguments the
  program gives it.
\<close>

subsection \<open>Package strings\<close>

fun HasPrefix :: "string \<Rightarrow> string \<Rightarrow> bool" where
  "HasPrefix s [] = True"
| "HasPrefix [] (p # ps) = False"
| "HasPrefix (c # s) (p # ps) = (c = p \<and> HasPrefix s ps)"

text \<open>\<open>strings.Index(s, substr)\<close>: the index of the first instance of \<open>substr\<close>
  in \<open>s\<close>, or \<open>-1\<close> when there is none.\<close>

fun Index :: "string \<Rightarrow> string \<Rightarrow> int" where
  "Index [] substr = (if substr = [] then 0 else - 1)"
| "Index (c # s) substr =
     (if HasPrefix (c # s) substr then 0
      else (let i = Index s substr in if i < 0 then - 1 else i + 1))"

text \<open>\<open>strings.Contains(s, substr)\<close> is \<open>Index(s, substr) >= 0\<close>.\<close>

definition Contains :: "string \<Rightarrow> string \<Rightarrow> bool" where
  "Contains s substr = (Index s substr \<ge> 0)"

text \<open>\<open>strings.Replace(s, old, new, -1)\<close> for a non-empty \<open>old\<close>: every
  non-overlapping instance of \<open>old\<close>, from the left, is replaced by \<open>new\<close>. The program
  only ever passes non-empty literals as \<open>old\<close>.\<close>

fun Replace :: "string \<Rightarrow> string \<Rightarrow> string \<Rightarrow> string" where
  "Replace [] old new = []"
| "Replace (c # s) old new =
     (if old \<noteq> [] \<and> HasPrefix (c # s) old
      then new @ Replace (drop (length old) (c # s)) old new
      else c # Replace s old new)"

subsection \<open>Package fmt: the verbs \<open>%04d\<close> and \<open>%08d\<close> on a non-negative integer\<close>

definition digit_char :: "nat \<Rightarrow> char" where
  "digit_char d = char_of (48 + d)"

fun itoa :: "nat \<Rightarrow> string" where
  "itoa n = (if n < 10 then [digit_char n] else itoa (n div 10) @ [digit_char (n mod 10)])"

declare itoa.simps [simp del]

text \<open>\<open>%0wd\<close>: decimal, padded on the left with zeros up to width \<open>w\<close>; a longer number
  is printed in full.\<close>

definition Sprintf_0d :: "nat \<Rightarrow> nat \<Rightarrow> string" where
  "Sprintf_0d w n = replicate (w - length (itoa n)) (CHR ''0'') @ itoa n"

text \<open>Reading a decimal numeral back (used to show that the generated names are distinct).\<close>

definition digit_val :: "char \<Rightarrow> nat" where
  "digit_val c = of_char c - 48"

definition atoi :: "string \<Rightarrow> nat" where
  "atoi s = foldl (\<lambda>a c. 10 * a + digit_val c) 0 s"

subsection \<open>Package path/filepath\<close>

text \<open>\<open>filepath.Join(dir, name)\<close> for a clean \<open>dir\<close> and a \<open>name\<close> without separators,
  which is all the program passes.\<close>

definition Join :: "string \<Rightarrow> string \<Rightarrow> string" where
  "Join dir name = dir @ ''/'' @ name"

section \<open>Data model\<close>

subsection \<open>The syntax tree of go/ast, as far as the program reads and writes it\<close>

text \<open>
  \<open>file.Imports\<close> is a slice of pointers to \<open>ImportSpec\<close> objects, and the \<open>Specs\<close> of an
  import declaration hold pointers to the same objects. The objects live in a store that
  maps an address to the object; a file carries the store of its own objects.
  Pointers are never nil in a tree built by go/parser, and the model has no nil pointer.
\<close>

type_synonym ref = nat

record ImportSpec =
  Name :: "string option"  \<comment> \<open>\<open>imp.Name\<close>: nil, or the identifier's \<open>Name\<close>\<close>
  Path :: string  \<comment> \<open>\<open>imp.Path.Value\<close>: the import path literal, quotes included\<close>

datatype Spec = ImportSpecPtr ref | ValueSpec | TypeSpec

datatype Token = IMPORT | CONST | TYPE | VAR

datatype Decl = GenDecl Token "Spec list" | FuncDecl string | BadDecl

record File =
  FileName :: string  \<comment> \<open>\<open>iprog.Fset.File(file.Pos()).Name()\<close>\<close>
  Imports :: "ref list"
  Decls :: "Decl list"
  store :: "ref \<Rightarrow> ImportSpec"

subsection \<open>The loaded program of golang.org/x/tools/go/loader\<close>

record PackageInfo =
  addr :: nat  \<comment> \<open>the address of the \<open>PackageInfo\<close>: \<open>pkg == t\<close> compares addresses\<close>
  PkgPath :: string  \<comment> \<open>\<open>info.Pkg.Path()\<close>, which is what \<open>info.String()\<close> returns\<close>
  PkgImports :: "string list"  \<comment> \<open>the paths of \<open>info.Pkg.Imports()\<close>\<close>
  Files :: "File list"

text \<open>\<open>Imported\<close> and \<open>AllPackages\<close> are Go maps; the lists hold their values in the
  order in which the run iterates over them.\<close>

record Program =
  Created :: "PackageInfo list"
  Imported :: "PackageInfo list"
  AllPackages :: "PackageInfo list"

definition InitialPackages :: "Program \<Rightarrow> PackageInfo list" where
  "InitialPackages prog = Created prog @ Imported prog"

subsection \<open>Errors, the outside world, the external collaborators\<close>

datatype error =
    WriteError string  \<comment> \<open>\<open>ioutil.WriteFile\<close> or \<open>eg.WriteAST\<close> failed on this path\<close>
  | FromArgsError
  | LoadError
  | TransformerError
  | IndexOutOfRange
  | TypeAssertionFailed

text \<open>
  Everything the run changes outside its local variables: the global counter
  \<open>templateSeq\<close>, the \<open>CreatePkgs\<close> of the loader configuration \<open>conf\<close>, the files written
  by \<open>ioutil.WriteFile\<close> and by \<open>eg.WriteAST\<close> (each a log, oldest first), and the two
  output streams (one entry per print call). \<open>unwritable\<close> says on which paths a write
  fails; the run never changes it.
  \<open>templateSeq\<close> is a Go \<open>int\<close>; it starts at 0 and is only incremented, once per file
  written, so it stays far below \<open>2^63\<close> and is modelled as a natural number.
\<close>

record world =
  templateSeq :: nat
  CreatePkgs :: "(string \<times> string list) list"
  written :: "(string \<times> string) list"
  ast_written :: "(string \<times> File) list"
  stderr :: "string list"
  stdout :: "string list"
  unwritable :: "string \<Rightarrow> bool"

type_synonym 'a result = "(error + 'a) \<times> world"

text \<open>A transformer of \<open>eg\<close>: \<open>xform.Transform(&pkg.Info, pkg.Pkg, file)\<close> mutates the file
  and returns the number of matches.\<close>

type_synonym Transformer = "PackageInfo \<Rightarrow> File \<Rightarrow> File \<times> int"

text \<open>What the program consumes from the packages \<open>eg\<close> and \<open>loader\<close>, taken as parameters.\<close>

record env =
  eg_Help :: string
  FromArgsUsage :: string
  FromArgs :: "string list \<Rightarrow> error option"
  Load :: "world \<Rightarrow> string list \<Rightarrow> error + Program"
  NewTransformer :: "PackageInfo \<Rightarrow> File \<Rightarrow> bool \<Rightarrow> error + Transformer"

definition WriteFile :: "string \<Rightarrow> string \<Rightarrow> world \<Rightarrow> unit result" where
  "WriteFile path data w =
     (if unwritable w path then (Inl (WriteError path), w)
      else (Inr (), w\<lparr>written := written w @ [(path, data)]\<rparr>))"

definition WriteAST :: "string \<Rightarrow> File \<Rightarrow> world \<Rightarrow> unit result" where
  "WriteAST filename file w =
     (if unwritable w filename then (Inl (WriteError filename), w)
      else (Inr (), w\<lparr>ast_written := ast_written w @ [(filename, file)]\<rparr>))"

text \<open>\<open>conf.CreateFromFilenames(path, filenames...)\<close> appends to \<open>conf.CreatePkgs\<close>.\<close>

definition CreateFromFilenames :: "string \<Rightarrow> string list \<Rightarrow> world \<Rightarrow> world" where
  "CreateFromFilenames path filenames w =
     w\<lparr>CreatePkgs := CreatePkgs w @ [(path, filenames)]\<rparr>"

section \<open>The rule catalog and the template expander\<close>

text \<open>
  The repository holds two revisions of the program: \<^verbatim>\<open>src/untestify.go\<close> (command-line
  flags \<open>-help\<close>, \<open>-transitive\<close>, \<open>-v\<close>; the import clean-up written inline in \<open>doMain\<close>)
  and \<^verbatim>\<open>src/unnamed/part_000\<close> (flags \<open>-help\<close>, \<open>-v\<close>; the import clean-up in
  \<open>rewriteImports\<close>). Both are modelled. The definitions of \<^verbatim>\<open>part_000\<close> keep the
  source's names; those of \<^verbatim>\<open>untestify.go\<close> that would clash carry the prefix
  \<open>untestify_\<close>.
\<close>

record substitution =
  signature :: string
  beforeBody :: string
  afterBody :: string

definition substitutions :: "substitution list" where
  "substitutions = [
    \<lparr>signature = ''t TT, err error DECLS'',
      beforeBody = ''XX.NoError(t, err ARGS)'',
      afterBody = ''YY.NoError(t, err ARGS)''\<rparr>,
    \<lparr>signature = ''t TT, err error, f string DECLS'',
      beforeBody = ''XX.NoErrorf(t, err, f ARGS)'',
      afterBody = ''YY.NoError(t, err, f ARGS)''\<rparr>,
    \<lparr>signature = ''t TT, err error DECLS'',
      beforeBody = ''XX.Error(t, err ARGS)'',
      afterBody = ''YY.NotNil(t, err ARGS)''\<rparr>,
    \<lparr>signature = ''t TT, err error, a string DECLS'',
      beforeBody = ''XX.EqualError(t, err, a ARGS)'',
      afterBody = ''YY.EQ(t, err, a ARGS)''\<rparr>,
    \<lparr>signature = ''t TT, err error, a, f string DECLS'',
      beforeBody = ''XX.EqualErrorf(t, err, a, f ARGS)'',
      afterBody = ''YY.EQ(t, err, a, f ARGS)''\<rparr>,
    \<lparr>signature = ''t TT, a interface{}, f string DECLS'',
      beforeBody = ''XX.NotNilf(t, a, f ARGS)'',
      afterBody = ''YY.NotNil(t, a, f ARGS)''\<rparr>,
    \<lparr>signature = ''t TT, a interface{} DECLS'',
      beforeBody = ''XX.Nil(t, a ARGS)'',
      afterBody = ''YY.Nil(t, a ARGS)''\<rparr>,
    \<lparr>signature = ''t TT, a, b interface{} DECLS'',
      beforeBody = ''XX.Equal(t, a, b ARGS)'',
      afterBody = ''YY.EQ(t, b, a ARGS)''\<rparr>,
    \<lparr>signature = ''t TT, a, b interface{}, f string DECLS'',
      beforeBody = ''XX.Equalf(t, a, b, f ARGS)'',
      afterBody = ''YY.EQ(t, b, a, f ARGS)''\<rparr>,
    \<lparr>signature = ''t TT, a, b interface{} DECLS'',
      beforeBody = ''XX.NotEqual(t, a, b ARGS)'',
      afterBody = ''YY.EQ(t, b, a ARGS)''\<rparr>,
    \<lparr>signature = ''t TT, a, b interface{}, f string DECLS'',
      beforeBody = ''XX.NotEqualf(t, a, b, f ARGS)'',
      afterBody = ''YY.NEQ(t, b, a, f ARGS)''\<rparr>,
    \<lparr>signature = ''t TT, a, b interface{} DECLS'',
      beforeBody = ''XX.Regexp(t, a, b ARGS)'',
      afterBody = ''YY.Regexp(t, b, a ARGS)''\<rparr>,
    \<lparr>signature = ''t TT, a bool DECLS'',
      beforeBody = ''XX.True(t, a ARGS)'',
      afterBody = ''YY.True(t, a ARGS)''\<rparr>,
    \<lparr>signature = ''t TT, a bool  DECLS'',
      beforeBody = ''XX.False(t, a ARGS)'',
      afterBody = ''YY.False(t, a ARGS)''\<rparr>,
    \<lparr>signature = ''t TT, a bool, f string  DECLS'',
      beforeBody = ''XX.Truef(t, a, f ARGS)'',
      afterBody = ''YY.True(t, a, f ARGS)''\<rparr>,
    \<lparr>signature = ''t TT, a bool, f string DECLS'',
      beforeBody = ''XX.Falsef(t, a, f ARGS)'',
      afterBody = ''YY.False(t, a, f ARGS)''\<rparr>,
    \<lparr>signature = ''t TT, a, b interface{} DECLS'',
      beforeBody = ''XX.Contains(t, a, b ARGS)'',
      afterBody = ''YY.That(t, a, h.Contains(b) ARGS)''\<rparr>,
    \<lparr>signature = ''t TT, a, b interface{}, f string DECLS'',
      beforeBody = ''XX.Containsf(t, a, b, f ARGS)'',
      afterBody = ''YY.That(t, a, h.Contains(b), f ARGS)''\<rparr>,
    \<lparr>signature = ''t TT, a interface{} DECLS'',
      beforeBody = ''XX.Zero(t, a ARGS)'',
      afterBody = ''YY.That(t, a, h.Zero() ARGS)''\<rparr>,
    \<lparr>signature = ''t TT, a interface{}, f string DECLS'',
      beforeBody = ''XX.Zerof(t, a, f ARGS)'',
      afterBody = ''YY.EQ(t, a, h.Zero(), f ARGS)''\<rparr>,
    \<lparr>signature = ''t TT, a interface{} DECLS'',
      beforeBody = ''XX.NotZero(t, a ARGS)'',
      afterBody = ''YY.That(t, a, h.Not(h.Zero()) ARGS)''\<rparr>,
    \<lparr>signature = ''t TT, a interface{}, f string DECLS'',
      beforeBody = ''XX.NotZerof(t, a, f ARGS)'',
      afterBody = ''YY.EQ(t, a, h.Not(h.Zero()), f ARGS)''\<rparr>]"

definition untestify_substitutions :: "substitution list" where
  "untestify_substitutions = [
    \<lparr>signature = ''t TT, err error ARGDECLS'',
      beforeBody = ''XX.NoError(t, err ARGS)'',
      afterBody = ''YY.NoError(t, err ARGS)''\<rparr>,
    \<lparr>signature = ''t TT, err error, f string ARGDECLS'',
      beforeBody = ''XX.NoErrorf(t, err, f ARGS)'',
      afterBody = ''YY.NoError(t, err, f ARGS)''\<rparr>,
    \<lparr>signature = ''t TT, err error ARGDECLS'',
      beforeBody = ''XX.Error(t, err ARGS)'',
      afterBody = ''YY.NotNil(t, err ARGS)''\<rparr>,
    \<lparr>signature = ''t TT, a interface{}, f string ARGDECLS'',
      beforeBody = ''XX.NotNilf(t, a, f ARGS)'',
      afterBody = ''YY.NotNil(t, a, f ARGS)''\<rparr>,
    \<lparr>signature = ''t TT, a interface{} ARGDECLS'',
      beforeBody = ''XX.Nil(t, a ARGS)'',
      afterBody = ''YY.Nil(t, a ARGS)''\<rparr>,
    \<lparr>signature = ''t TT, a, b interface{} ARGDECLS'',
      beforeBody = ''XX.Equal(t, a, b ARGS)'',
      afterBody = ''YY.EQ(t, b, a ARGS)''\<rparr>,
    \<lparr>signature = ''t TT, a, b interface{}, f string ARGDECLS'',
      beforeBody = ''XX.Equalf(t, a, b, f ARGS)'',
      afterBody = ''YY.EQ(t, b, a, f ARGS)''\<rparr>,
    \<lparr>signature = ''t TT, a, b interface{} ARGDECLS'',
      beforeBody = ''XX.Regexp(t, a, b ARGS)'',
      afterBody = ''YY.Regexp(t, b, a ARGS)''\<rparr>,
    \<lparr>signature = ''t TT, a bool ARGDECLS'',
      beforeBody = ''XX.True(t, a ARGS)'',
      afterBody = ''YY.True(t, a ARGS)''\<rparr>,
    \<lparr>signature = ''t TT, a bool  ARGDECLS'',
      beforeBody = ''XX.False(t, a ARGS)'',
      afterBody = ''YY.False(t, a ARGS)''\<rparr>,
    \<lparr>signature = ''t TT, a bool, f string  ARGDECLS'',
      beforeBody = ''XX.Truef(t, a, f ARGS)'',
      afterBody = ''YY.True(t, a, f ARGS)''\<rparr>,
    \<lparr>signature = ''t TT, a bool, f string ARGDECLS'',
      beforeBody = ''XX.Falsef(t, a, f ARGS)'',
      afterBody = ''YY.False(t, a, f ARGS)''\<rparr>]"

datatype rewriteType = rewriteRequire | rewriteAssert

record argList =
  decl :: string
  arg :: string

text \<open>The literal slice of \<open>argList\<close> values both revisions range over.\<close>

definition argLists :: "argList list" where
  "argLists = [
    \<lparr>decl = [], arg = []\<rparr>,
    \<lparr>decl = '', m0 interface{}'', arg = '', m0''\<rparr>,
    \<lparr>decl = '', m0, m1 interface{}'', arg = '', m0, m1''\<rparr>,
    \<lparr>decl = '', m0, m1, m2 interface{}'', arg = '', m0, m1, m2''\<rparr>,
    \<lparr>decl = '', m0, m1, m2, m3 interface{}'', arg = '', m0, m1, m2, m3''\<rparr>,
    \<lparr>decl = '', m0, m1, m2, m3, m4 interface{}'', arg = '', m0, m1, m2, m3, m4''\<rparr>]"

subsection \<open>addTemplates (part\_000)\<close>

definition dir :: string where
  "dir = ''/tmp/.templatestmp''"

text \<open>The \<open>switch rType\<close> of the outer loop and the conditional helper import after it:
  the values of \<open>before\<close>, \<open>after\<close> and \<open>imports\<close> for one rule.\<close>

definition family :: "rewriteType \<Rightarrow> substitution \<Rightarrow> string \<times> string \<times> string" where
  "family rType sub =
     (let (before, after, imports) =
            (case rType of
               rewriteAssert \<Rightarrow>
                 (Replace (beforeBody sub) ''XX'' ''assert'',
                  Replace (afterBody sub) ''YY'' ''gexpect'',
                  ''\<newline> '' @ [CHR 0x22] @ ''vendor/github.com/stretchr/testify/assert''
                    @ [CHR 0x22] @ ''\<newline>gexpect '' @ [CHR 0x22]
                    @ ''github.com/grailbio/testutil/expect'' @ [CHR 0x22] @ ''\<newline>'')
             | rewriteRequire \<Rightarrow>
                 (Replace (beforeBody sub) ''XX'' ''require'',
                  Replace (afterBody sub) ''YY'' ''gassert'',
                  ''\<newline> '' @ [CHR 0x22] @ ''vendor/github.com/stretchr/testify/require''
                    @ [CHR 0x22] @ ''\<newline>gassert '' @ [CHR 0x22]
                    @ ''github.com/grailbio/testutil/assert'' @ [CHR 0x22] @ ''\<newline>''));
          imports =
            (if Contains after ''h.''
             then imports @ ''\<newline>'' @ [CHR 0x22] @ ''github.com/grailbio/testutil/h''
               @ [CHR 0x22] @ ''\<newline>''
             else imports)
      in (before, after, imports))"

text \<open>The body of the inner loop up to the write: the package name, the path and the
  text of the unit for one argument list, when \<open>templateSeq\<close> is \<open>seq\<close>.\<close>

definition unit_text ::
  "substitution \<Rightarrow> string \<times> string \<times> string \<Rightarrow> argList \<Rightarrow> nat \<Rightarrow> string \<times> string \<times> string"
where
  "unit_text sub fam a seq =
     (case fam of (before, after, imports) \<Rightarrow>
      let sig = Replace (signature sub) ''DECLS'' (decl a);
          sig = Replace sig ''TT'' ''testing.TB'';
          before = Replace before ''ARGS'' (arg a);
          after = Replace after ''ARGS'' (arg a);
          pkgName = ''template'' @ Sprintf_0d 8 seq;
          path = Join dir (pkgName @ ''.go'');
          body = ''\<newline>package '' @ pkgName @ ''\<newline>import (\<newline>'' @ [CHR 0x09]
            @ [CHR 0x22] @ ''testing'' @ [CHR 0x22] @ ''\<newline>  '' @ imports
            @ ''\<newline>)\<newline>\<newline>func before('' @ sig @ '') { '' @ before
            @ '' }\<newline>func after('' @ sig @ '') { '' @ after @ '' }\<newline>''
      in (pkgName, path, body))"

text \<open>The inner loop, over the argument lists; \<open>n\<close> is the running count. A failed write
  panics before the unit is registered.\<close>

fun addTemplates_args ::
  "substitution \<Rightarrow> string \<times> string \<times> string \<Rightarrow> argList list \<Rightarrow> nat \<Rightarrow> world \<Rightarrow> nat result"
where
  "addTemplates_args sub fam [] n w = (Inr n, w)"
| "addTemplates_args sub fam (a # as) n w =
     (let (pkgName, path, body) = unit_text sub fam a (templateSeq w);
          w = w\<lparr>templateSeq := templateSeq w + 1\<rparr>
      in case WriteFile path body w of
           (Inl err, w) \<Rightarrow> (Inl err, w)
         | (Inr _, w) \<Rightarrow>
             addTemplates_args sub fam as (n + 1) (CreateFromFilenames pkgName [path] w))"

text \<open>The outer loop, over the rules.\<close>

fun addTemplates_subs :: "rewriteType \<Rightarrow> substitution list \<Rightarrow> nat \<Rightarrow> world \<Rightarrow> nat result" where
  "addTemplates_subs rType [] n w = (Inr n, w)"
| "addTemplates_subs rType (sub # subs) n w =
     (case addTemplates_args sub (family rType sub) argLists n w of
        (Inl err, w) \<Rightarrow> (Inl err, w)
      | (Inr n, w) \<Rightarrow> addTemplates_subs rType subs n w)"

text \<open>\<open>os.Mkdir(dir, 0700)\<close> has its error ignored and is not modelled.\<close>

definition addTemplates :: "rewriteType \<Rightarrow> substitution list \<Rightarrow> world \<Rightarrow> nat result" where
  "addTemplates rType subs w = addTemplates_subs rType subs 0 w"

text \<open>The two calls of \<open>addTemplates\<close> in \<open>main\<close>, which add up \<open>nTemplate\<close>.\<close>

definition addAllTemplates :: "substitution list \<Rightarrow> world \<Rightarrow> nat result" where
  "addAllTemplates subs w =
     (case addTemplates rewriteRequire subs w of
        (Inl err, w) \<Rightarrow> (Inl err, w)
      | (Inr nTemplate, w) \<Rightarrow>
          (case addTemplates rewriteAssert subs w of
             (Inl err, w) \<Rightarrow> (Inl err, w)
           | (Inr n, w) \<Rightarrow> (Inr (nTemplate + n), w)))"

subsection \<open>addTemplates (untestify.go)\<close>

text \<open>The same function in untestify.go: no helper import, the placeholder \<open>ARGDECLS\<close>,
  and the name format \<open>template%04d\<close>.\<close>

definition untestify_family :: "rewriteType \<Rightarrow> substitution \<Rightarrow> string \<times> string \<times> string" where
  "untestify_family rType sub =
     (case rType of
        rewriteAssert \<Rightarrow>
          (Replace (beforeBody sub) ''XX'' ''assert'',
           Replace (afterBody sub) ''YY'' ''gexpect'',
           ''\<newline> '' @ [CHR 0x22] @ ''vendor/github.com/stretchr/testify/assert''
             @ [CHR 0x22] @ ''\<newline>gexpect '' @ [CHR 0x22]
             @ ''github.com/grailbio/testutil/expect'' @ [CHR 0x22] @ ''\<newline>'')
      | rewriteRequire \<Rightarrow>
          (Replace (beforeBody sub) ''XX'' ''require'',
           Replace (afterBody sub) ''YY'' ''gassert'',
           ''\<newline> '' @ [CHR 0x22] @ ''vendor/github.com/stretchr/testify/require''
             @ [CHR 0x22] @ ''\<newline>gassert '' @ [CHR 0x22]
             @ ''github.com/grailbio/testutil/assert'' @ [CHR 0x22] @ ''\<newline>''))"

definition untestify_unit_text ::
  "substitution \<Rightarrow> string \<times> string \<times> string \<Rightarrow> argList \<Rightarrow> nat \<Rightarrow> string \<times> string \<times> string"
where
  "untestify_unit_text sub fam a seq =
     (case fam of (before, after, imports) \<Rightarrow>
      let sig = Replace (signature sub) ''ARGDECLS'' (decl a);
          sig = Replace sig ''TT'' ''testing.TB'';
          before = Replace before ''ARGS'' (arg a);
          after = Replace after ''ARGS'' (arg a);
          pkgName = ''template'' @ Sprintf_0d 4 seq;
          path = Join dir (pkgName @ ''.go'');
          body = ''\<newline>package '' @ pkgName @ ''\<newline>import (\<newline>'' @ [CHR 0x09]
            @ [CHR 0x22] @ ''testing'' @ [CHR 0x22] @ ''\<newline>  '' @ imports
            @ ''\<newline>)\<newline>\<newline>func before('' @ sig @ '') { '' @ before
            @ '' }\<newline>func after('' @ sig @ '') { '' @ after @ '' }\<newline>''
      in (pkgName, path, body))"

fun untestify_addTemplates_args ::
  "substitution \<Rightarrow> string \<times> string \<times> string \<Rightarrow> argList list \<Rightarrow> nat \<Rightarrow> world \<Rightarrow> nat result"
where
  "untestify_addTemplates_args sub fam [] n w = (Inr n, w)"
| "untestify_addTemplates_args sub fam (a # as) n w =
     (let (pkgName, path, body) = untestify_unit_text sub fam a (templateSeq w);
          w = w\<lparr>templateSeq := templateSeq w + 1\<rparr>
      in case WriteFile path body w of
           (Inl err, w) \<Rightarrow> (Inl err, w)
         | (Inr _, w) \<Rightarrow>
             untestify_addTemplates_args sub fam as (n + 1)
               (CreateFromFilenames pkgName [path] w))"

fun untestify_addTemplates_subs ::
  "rewriteType \<Rightarrow> substitution list \<Rightarrow> nat \<Rightarrow> world \<Rightarrow> nat result"
where
  "untestify_addTemplates_subs rType [] n w = (Inr n, w)"
| "untestify_addTemplates_subs rType (sub # subs) n w =
     (case untestify_addTemplates_args sub (untestify_family rType sub) argLists n w of
        (Inl err, w) \<Rightarrow> (Inl err, w)
      | (Inr n, w) \<Rightarrow> untestify_addTemplates_subs rType subs n w)"

definition untestify_addTemplates ::
  "rewriteType \<Rightarrow> substitution list \<Rightarrow> world \<Rightarrow> nat result"
where
  "untestify_addTemplates rType subs w = untestify_addTemplates_subs rType subs 0 w"

text \<open>The two calls of \<open>addTemplates\<close> in \<open>doMain\<close>.\<close>

definition untestify_addAllTemplates :: "substitution list \<Rightarrow> world \<Rightarrow> nat result" where
  "untestify_addAllTemplates subs w =
     (case untestify_addTemplates rewriteRequire subs w of
        (Inl err, w) \<Rightarrow> (Inl err, w)
      | (Inr nTemplate, w) \<Rightarrow>
          (case untestify_addTemplates rewriteAssert subs w of
             (Inl err, w) \<Rightarrow> (Inl err, w)
           | (Inr n, w) \<Rightarrow> (Inr (nTemplate + n), w)))"

subsection \<open>What the expander is expected to emit\<close>

text \<open>
  The (family, rule, arity variant) triples in the order in which a run visits them:
  the family \<open>rewriteRequire\<close> first, then \<open>rewriteAssert\<close>; within a family the rules in
  catalog order; within a rule the six argument lists.
\<close>

definition triples :: "substitution list \<Rightarrow> (rewriteType \<times> substitution \<times> argList) list" where
  "triples subs = List.product [rewriteRequire, rewriteAssert] (List.product subs argLists)"

text \<open>The unit of one triple under the sequence number \<open>seq\<close>: the package name, the
  path of its file and the text of the file.\<close>

definition TemplateUnit ::
  "nat \<Rightarrow> rewriteType \<times> substitution \<times> argList \<Rightarrow> string \<times> string \<times> string"
where
  "TemplateUnit seq t = (case t of (rType, sub, a) \<Rightarrow> unit_text sub (family rType sub) a seq)"

definition untestify_TemplateUnit ::
  "nat \<Rightarrow> rewriteType \<times> substitution \<times> argList \<Rightarrow> string \<times> string \<times> string"
where
  "untestify_TemplateUnit seq t =
     (case t of (rType, sub, a) \<Rightarrow> untestify_unit_text sub (untestify_family rType sub) a seq)"

text \<open>The units of a list of triples, numbered from \<open>seq\<close> on.\<close>

fun units_from ::
  "(nat \<Rightarrow> 't \<Rightarrow> string \<times> string \<times> string) \<Rightarrow> nat \<Rightarrow> 't list \<Rightarrow> (string \<times> string \<times> string) list"
where
  "units_from mk seq [] = []"
| "units_from mk seq (t # ts) = mk seq t # units_from mk (Suc seq) ts"

text \<open>The world after the units \<open>us\<close> have been written and registered, one by one.\<close>

definition registered :: "(string \<times> string \<times> string) list \<Rightarrow> world \<Rightarrow> world" where
  "registered us w =
     w\<lparr>templateSeq := templateSeq w + length us,
       CreatePkgs := CreatePkgs w @ map (\<lambda>(name, path, body). (name, [path])) us,
       written := written w @ map (\<lambda>(name, path, body). (path, body)) us\<rparr>"

text \<open>Writing and registering a list of units in order, up to the first failed write:
  the error of that write if there is one, and the world reached. The counter has
  already been incremented for the unit whose write fails.\<close>

fun emit :: "(string \<times> string \<times> string) list \<Rightarrow> world \<Rightarrow> error option \<times> world" where
  "emit [] w = (None, w)"
| "emit (u # us) w =
     (if unwritable w (fst (snd u))
      then (Some (WriteError (fst (snd u))), w\<lparr>templateSeq := Suc (templateSeq w)\<rparr>)
      else emit us (registered [u] w))"

text \<open>The world at the start of a process, where every write succeeds.\<close>

definition world0 :: world where
  "world0 = \<lparr>templateSeq = 0, CreatePkgs = [], written = [], ast_written = [],
     stderr = [], stdout = [], unwritable = (\<lambda>p. False)\<rparr>"

section \<open>The import reconciler\<close>

subsection \<open>rewriteImports (part\_000)\<close>

text \<open>
  The first loop filters \<open>file.Imports\<close> in place: \<open>range\<close> reads the slice header once
  and then the element at index \<open>i\<close> of the backing array, while the body writes the
  kept element to index \<open>j\<close> of the same array. \<open>arr\<close> is the backing array.
\<close>

function Imports_loop :: "(ref \<Rightarrow> ImportSpec) \<Rightarrow> ref list \<Rightarrow> nat \<Rightarrow> nat \<Rightarrow> ref list \<times> nat" where
  "Imports_loop st arr i j =
     (if i < length arr then
        (let imp = arr ! i in
         if Contains (Path (st imp)) ''/testify/require'' then Imports_loop st arr (i + 1) j
         else if Contains (Path (st imp)) ''/testify/assert'' then Imports_loop st arr (i + 1) j
         else Imports_loop st (arr[j := imp]) (i + 1) (j + 1))
      else (arr, j))"
  by pat_completeness auto
termination
  by (relation "measure (\<lambda>(st, arr, i, j). length arr - i)") auto

declare Imports_loop.simps [simp del]

text \<open>
  The loop over \<open>d.Specs\<close> of one import declaration. The type assertion
  \<open>x.(*ast.ImportSpec)\<close> panics on any other kind of spec. Setting \<open>imp.Name\<close> changes the
  object in the store, and with it what every other pointer to the object sees.
\<close>

function Specs_loop ::
  "(ref \<Rightarrow> ImportSpec) \<Rightarrow> Spec list \<Rightarrow> nat \<Rightarrow> nat \<Rightarrow> error + (ref \<Rightarrow> ImportSpec) \<times> Spec list \<times> nat"
where
  "Specs_loop st arr i j =
     (if i < length arr then
        (case arr ! i of
           ImportSpecPtr imp \<Rightarrow>
             if Index (Path (st imp)) ''/testify/require'' \<ge> 0 then Specs_loop st arr (i + 1) j
             else if Index (Path (st imp)) ''/testify/assert'' \<ge> 0
               then Specs_loop st arr (i + 1) j
             else
               (let st = (if Index (Path (st imp)) ''github.com/grailbio/testutil/expect'' \<ge> 0
                          then st(imp := (st imp)\<lparr>Name := Some ''gexpect''\<rparr>) else st);
                    st = (if Index (Path (st imp)) ''github.com/grailbio/testutil/assert'' \<ge> 0
                          then st(imp := (st imp)\<lparr>Name := Some ''gassert''\<rparr>) else st)
                in Specs_loop st (arr[j := arr ! i]) (i + 1) (j + 1))
         | _ \<Rightarrow> Inl TypeAssertionFailed)
      else Inr (st, arr, j))"
  by pat_completeness auto
termination
  by (relation "measure (\<lambda>(st, arr, i, j). length arr - i)") auto

declare Specs_loop.simps [simp del]

text \<open>The loop over \<open>file.Decls\<close>. A \<open>GenDecl\<close> is reached through a pointer and changed
  in place; the model returns the list of the declarations after the loop. \<open>n\<close> is a Go
  \<open>int\<close> that only counts upwards from a small value, modelled as an integer.\<close>

fun Decls_loop ::
  "Decl list \<Rightarrow> (ref \<Rightarrow> ImportSpec) \<Rightarrow> int \<Rightarrow> error + Decl list \<times> (ref \<Rightarrow> ImportSpec) \<times> int"
where
  "Decls_loop [] st n = Inr ([], st, n)"
| "Decls_loop (GenDecl tok specs # ds) st n =
     (if tok = IMPORT then
        (case Specs_loop st specs 0 0 of
           Inl err \<Rightarrow> Inl err
         | Inr (st, specs, j) \<Rightarrow>
             (let (specs, n) =
                    (if j \<noteq> length specs then (take j specs, n + 1) else (specs, n))
              in case Decls_loop ds st n of
                   Inl err \<Rightarrow> Inl err
                 | Inr (ds, st, n) \<Rightarrow> Inr (GenDecl tok specs # ds, st, n)))
      else
        (case Decls_loop ds st n of
           Inl err \<Rightarrow> Inl err
         | Inr (ds, st, n) \<Rightarrow> Inr (GenDecl tok specs # ds, st, n)))"
| "Decls_loop (d # ds) st n =
     (case Decls_loop ds st n of
        Inl err \<Rightarrow> Inl err
      | Inr (ds, st, n) \<Rightarrow> Inr (d # ds, st, n))"

definition rewriteImports :: "File \<Rightarrow> error + File \<times> int" where
  "rewriteImports file =
     (let n = 0;
          (arr, j) = Imports_loop (store file) (Imports file) 0 0;
          file = file\<lparr>Imports := arr\<rparr>;
          (file, n) =
            (if j \<noteq> length (Imports file)
             then (file\<lparr>Imports := take j (Imports file)\<rparr>, n + 1) else (file, n))
      in case Decls_loop (Decls file) (store file) n of
           Inl err \<Rightarrow> Inl err
         | Inr (ds, st, n) \<Rightarrow> Inr (file\<lparr>Decls := ds, store := st\<rparr>, n))"

subsection \<open>The same code inline in doMain (untestify.go)\<close>

text \<open>
  The block \<open>if true { ... }\<close> of \<open>doMain\<close> runs the same two loops on the count \<open>n\<close> of the
  transformers. Its first loop tests \<open>strings.Index(...) >= 0\<close> where \<open>rewriteImports\<close>
  tests \<open>strings.Contains(...)\<close>, which Go defines as that comparison.
\<close>

definition doMain_imports :: "File \<Rightarrow> int \<Rightarrow> error + File \<times> int" where
  "doMain_imports file n =
     (let (arr, j) = Imports_loop (store file) (Imports file) 0 0;
          file = file\<lparr>Imports := arr\<rparr>;
          (file, n) =
            (if j \<noteq> length (Imports file)
             then (file\<lparr>Imports := take j (Imports file)\<rparr>, n + 1) else (file, n))
      in case Decls_loop (Decls file) (store file) n of
           Inl err \<Rightarrow> Inl err
         | Inr (ds, st, n) \<Rightarrow> Inr (file\<lparr>Decls := ds, store := st\<rparr>, n))"

subsection \<open>What the reconciler is expected to do\<close>

definition is_testify :: "string \<Rightarrow> bool" where
  "is_testify path = (Contains path ''/testify/require'' \<or> Contains path ''/testify/assert'')"

text \<open>The alias an import declaration is given: the test on the \<open>assert\<close> path runs
  last and wins.\<close>

definition aliased :: "ImportSpec \<Rightarrow> ImportSpec" where
  "aliased s =
     (if Contains (Path s) ''github.com/grailbio/testutil/assert''
      then s\<lparr>Name := Some ''gassert''\<rparr>
      else if Contains (Path s) ''github.com/grailbio/testutil/expect''
      then s\<lparr>Name := Some ''gexpect''\<rparr>
      else s)"

text \<open>The store after the objects at the addresses \<open>rs\<close> have been given their alias.\<close>

definition alias_refs :: "(ref \<Rightarrow> ImportSpec) \<Rightarrow> ref list \<Rightarrow> ref \<Rightarrow> ImportSpec" where
  "alias_refs st rs = (\<lambda>r. if r \<in> set rs then aliased (st r) else st r)"

text \<open>Whether a spec of an import declaration survives.\<close>

fun kept :: "(ref \<Rightarrow> ImportSpec) \<Rightarrow> Spec \<Rightarrow> bool" where
  "kept st (ImportSpecPtr r) = (\<not> is_testify (Path (st r)))"
| "kept st _ = True"

fun is_ImportSpec :: "Spec \<Rightarrow> bool" where
  "is_ImportSpec (ImportSpecPtr r) = True"
| "is_ImportSpec _ = False"

text \<open>The pointers held by the import declarations of a declaration list, in order.\<close>

fun spec_refs :: "Spec list \<Rightarrow> ref list" where
  "spec_refs [] = []"
| "spec_refs (ImportSpecPtr r # xs) = r # spec_refs xs"
| "spec_refs (_ # xs) = spec_refs xs"

fun decl_imports :: "Decl list \<Rightarrow> ref list" where
  "decl_imports [] = []"
| "decl_imports (GenDecl tok specs # ds) =
     (if tok = IMPORT then spec_refs specs @ decl_imports ds else decl_imports ds)"
| "decl_imports (_ # ds) = decl_imports ds"

text \<open>A file is well typed when its import declarations hold import specs only, as in
  every tree built by go/parser.\<close>

fun well_typed_decl :: "Decl \<Rightarrow> bool" where
  "well_typed_decl (GenDecl tok specs) = (tok = IMPORT \<longrightarrow> list_all is_ImportSpec specs)"
| "well_typed_decl _ = True"

definition well_typed :: "File \<Rightarrow> bool" where
  "well_typed file = list_all well_typed_decl (Decls file)"

fun reconciled_decl :: "(ref \<Rightarrow> ImportSpec) \<Rightarrow> Decl \<Rightarrow> Decl" where
  "reconciled_decl st (GenDecl tok specs) =
     (if tok = IMPORT then GenDecl tok (filter (kept st) specs) else GenDecl tok specs)"
| "reconciled_decl st d = d"

text \<open>The file after reconciliation: both representations filtered by the path test, and
  every surviving spec of an import declaration given its alias.\<close>

definition reconciled :: "File \<Rightarrow> File" where
  "reconciled file =
     file\<lparr>Imports := filter (\<lambda>r. \<not> is_testify (Path (store file r))) (Imports file),
          Decls := map (reconciled_decl (store file)) (Decls file),
          store := alias_refs (store file)
                     (decl_imports (map (reconciled_decl (store file)) (Decls file)))\<rparr>"

text \<open>The number of representations that lose an entry: \<open>file.Imports\<close>, and each import
  declaration.\<close>

fun shrinks :: "(ref \<Rightarrow> ImportSpec) \<Rightarrow> Decl \<Rightarrow> bool" where
  "shrinks st (GenDecl tok specs) = (tok = IMPORT \<and> \<not> list_all (kept st) specs)"
| "shrinks st d = False"

definition removals :: "File \<Rightarrow> int" where
  "removals file =
     (if list_all (\<lambda>r. \<not> is_testify (Path (store file r))) (Imports file) then 0 else 1)
     + int (length (filter (shrinks (store file)) (Decls file)))"

text \<open>The imports a representation describes: path and alias of each entry.\<close>

definition described :: "File \<Rightarrow> ref list \<Rightarrow> (string \<times> string option) list" where
  "described file rs = map (\<lambda>r. (Path (store file r), Name (store file r))) rs"

subsection \<open>Example files\<close>

definition spec0 :: ImportSpec where
  "spec0 = \<lparr>Name = None, Path = [CHR 0x22] @ ''testing'' @ [CHR 0x22]\<rparr>"

definition spec1 :: ImportSpec where
  "spec1 = \<lparr>Name = None,
     Path = [CHR 0x22] @ ''github.com/stretchr/testify/assert'' @ [CHR 0x22]\<rparr>"

definition spec2 :: ImportSpec where
  "spec2 = \<lparr>Name = None,
     Path = [CHR 0x22] @ ''github.com/grailbio/testutil/expect'' @ [CHR 0x22]\<rparr>"

definition spec3 :: ImportSpec where
  "spec3 = \<lparr>Name = Some ''req'',
     Path = [CHR 0x22] @ ''github.com/stretchr/testify/require'' @ [CHR 0x22]\<rparr>"

definition spec4 :: ImportSpec where
  "spec4 = \<lparr>Name = Some ''ta'',
     Path = [CHR 0x22] @ ''github.com/grailbio/testutil/assert'' @ [CHR 0x22]\<rparr>"

definition spec5 :: ImportSpec where
  "spec5 = \<lparr>Name = None,
     Path = [CHR 0x22] @ ''example.com/x/testify/assertions'' @ [CHR 0x22]\<rparr>"

definition store_ex :: "ref \<Rightarrow> ImportSpec" where
  "store_ex = (\<lambda>r. spec0)(1 := spec1, 2 := spec2, 3 := spec3, 4 := spec4, 5 := spec5)"

text \<open>A test file that imports testing, testify/assert, testutil/expect (added by the
  transformer, without alias) and testify/require.\<close>

definition file_ex :: File where
  "file_ex = \<lparr>FileName = ''a_test.go'', Imports = [0, 1, 2, 3],
     Decls = [GenDecl IMPORT [ImportSpecPtr 0, ImportSpecPtr 1, ImportSpecPtr 2, ImportSpecPtr 3],
              FuncDecl ''TestA''],
     store = store_ex\<rparr>"

text \<open>A file with a single import, of testify/assert.\<close>

definition file_one :: File where
  "file_one = \<lparr>FileName = ''b_test.go'', Imports = [1],
     Decls = [GenDecl IMPORT [ImportSpecPtr 1], FuncDecl ''TestB''], store = store_ex\<rparr>"

text \<open>A file that imports testutil/expect without alias, and nothing of testify.\<close>

definition file_alias :: File where
  "file_alias = \<lparr>FileName = ''c_test.go'', Imports = [0, 2],
     Decls = [GenDecl IMPORT [ImportSpecPtr 0, ImportSpecPtr 2], FuncDecl ''TestC''],
     store = store_ex\<rparr>"

text \<open>A file that imports testing, testutil/assert under the alias \<open>ta\<close>, and a package
  that has nothing to do with testify but whose path contains \<open>/testify/assert\<close>.\<close>

definition file_loose :: File where
  "file_loose = \<lparr>FileName = ''d_test.go'', Imports = [0, 4, 5],
     Decls = [GenDecl IMPORT [ImportSpecPtr 0, ImportSpecPtr 4, ImportSpecPtr 5],
              FuncDecl ''TestD''],
     store = store_ex\<rparr>"

text \<open>Order within one declaration: the declaration after the pass holds a subsequence of
  the specs it held before; any other declaration is unchanged.\<close>

fun decl_subseq :: "Decl \<Rightarrow> Decl \<Rightarrow> bool" where
  "decl_subseq (GenDecl tok' specs') (GenDecl tok specs) = (tok' = tok \<and> subseq specs' specs)"
| "decl_subseq d' d = (d' = d)"

section \<open>The orchestrator\<close>

record flags =
  helpFlag :: bool
  transitiveFlag :: bool
  verboseFlag :: bool

text \<open>How a run ends: \<open>main\<close> returns, \<open>os.Exit(code)\<close> is called, or \<open>log.Panic(err)\<close>
  (or a run-time error) panics. A panic that nothing recovers ends a Go process with
  exit status 2. What \<open>log.Panic\<close> and the run time print about the panic is not
  modelled; \<open>stderr\<close> and \<open>stdout\<close> hold what the program's own print calls write.\<close>

datatype outcome = Returned | Exited int | Panicked error

fun exit_status :: "outcome \<Rightarrow> int" where
  "exit_status Returned = 0"
| "exit_status (Exited code) = code"
| "exit_status (Panicked err) = 2"

text \<open>The verb \<open>%d\<close> on an \<open>int\<close>.\<close>

definition Sprintf_d :: "int \<Rightarrow> string" where
  "Sprintf_d n = (if n < 0 then ''-'' @ itoa (nat (- n)) else itoa (nat n))"

definition Fprint_stderr :: "string \<Rightarrow> world \<Rightarrow> world" where
  "Fprint_stderr s w = w\<lparr>stderr := stderr w @ [s]\<rparr>"

definition Print_stdout :: "string \<Rightarrow> world \<Rightarrow> world" where
  "Print_stdout s w = w\<lparr>stdout := stdout w @ [s]\<rparr>"

subsection \<open>main (part\_000)\<close>

definition usage :: "env \<Rightarrow> string" where
  "usage env =
     ''untestify: convert stretcher/testify to grailbio.com/testutil.\<newline>\<newline>''
     @ ''Usage: untestify [flags] packages...\<newline>\<newline>''
     @ ''-help            show detailed help message\<newline>''
     @ ''-v               show verbose matcher diagnostics\<newline>''
     @ FromArgsUsage env"

text \<open>The loop that builds one transformer per template. \<open>iprog.Created[i]\<close> and
  \<open>template.Files[0]\<close> panic when the index is out of range.\<close>

function xforms_loop ::
  "env \<Rightarrow> flags \<Rightarrow> Program \<Rightarrow> nat \<Rightarrow> nat \<Rightarrow> Transformer list \<Rightarrow> error + Transformer list"
where
  "xforms_loop env fl iprog nTemplate i xforms =
     (if i < nTemplate then
        (if i < length (Created iprog) then
           (let template = Created iprog ! i in
            case Files template of
              [] \<Rightarrow> Inl IndexOutOfRange
            | file0 # _ \<Rightarrow>
                (case NewTransformer env template file0 (verboseFlag fl) of
                   Inl err \<Rightarrow> Inl err
                 | Inr xform \<Rightarrow> xforms_loop env fl iprog nTemplate (i + 1) (xforms @ [xform])))
         else Inl IndexOutOfRange)
      else Inr xforms)"
  by pat_completeness auto
termination
  by (relation "measure (\<lambda>(env, fl, iprog, nTemplate, i, xforms). nTemplate - i)") auto

declare xforms_loop.simps [simp del]

text \<open>The loop \<open>for _, xform := range xforms { n += xform.Transform(...) }\<close>.\<close>

fun apply_xforms :: "Transformer list \<Rightarrow> PackageInfo \<Rightarrow> File \<Rightarrow> int \<Rightarrow> File \<times> int" where
  "apply_xforms [] pkg file n = (file, n)"
| "apply_xforms (xform # xforms) pkg file n =
     (let (file, m) = xform pkg file in apply_xforms xforms pkg file (n + m))"

text \<open>The loop over the files of one package. A file object is visited once in a run,
  so the mutated file is not stored back into the package.\<close>

fun files_loop :: "Transformer list \<Rightarrow> PackageInfo \<Rightarrow> File list \<Rightarrow> world \<Rightarrow> unit result" where
  "files_loop xforms pkg [] w = (Inr (), w)"
| "files_loop xforms pkg (file # files) w =
     (let (file, n) = apply_xforms xforms pkg file 0
      in case rewriteImports file of
           Inl err \<Rightarrow> (Inl err, w)
         | Inr (file, m) \<Rightarrow>
             (let n = n + m
              in if n = 0 then files_loop xforms pkg files w
                 else
                   (let filename = FileName file;
                        w = Fprint_stderr
                              (''=== '' @ filename @ '' ('' @ Sprintf_d n @ '' matches)\<newline>'') w
                    in case WriteAST filename file w of
                         (Inl err, w) \<Rightarrow> (Inl err, w)
                       | (Inr _, w) \<Rightarrow> files_loop xforms pkg files w)))"

text \<open>The loop over \<open>iprog.InitialPackages()\<close>.\<close>

fun packages_loop :: "Transformer list \<Rightarrow> PackageInfo list \<Rightarrow> world \<Rightarrow> unit result" where
  "packages_loop xforms [] w = (Inr (), w)"
| "packages_loop xforms (pkg # pkgs) w =
     (if Contains (PkgPath pkg) ''template000'' then packages_loop xforms pkgs w
      else
        (let w = Fprint_stderr
                   (''=== Package '' @ PkgPath pkg @ '' (''
                    @ Sprintf_d (int (length (Files pkg))) @ '' files)\<newline>'') w
         in case files_loop xforms pkg (Files pkg) w of
              (Inl err, w) \<Rightarrow> (Inl err, w)
            | (Inr _, w) \<Rightarrow> packages_loop xforms pkgs w))"

definition main :: "env \<Rightarrow> flags \<Rightarrow> string list \<Rightarrow> world \<Rightarrow> outcome \<times> world" where
  "main env fl args w =
     (if helpFlag fl then (Exited 2, Fprint_stderr (eg_Help env) w)
      else if length args = 0 then (Exited 1, Fprint_stderr (usage env) w)
      else
        (case addAllTemplates substitutions w of
           (Inl err, w) \<Rightarrow> (Panicked err, w)
         | (Inr nTemplate, w) \<Rightarrow>
             (case FromArgs env args of
                Some err \<Rightarrow> (Panicked err, w)
              | None \<Rightarrow>
                  (case Load env w args of
                     Inl err \<Rightarrow> (Panicked err, w)
                   | Inr iprog \<Rightarrow>
                       (case xforms_loop env fl iprog nTemplate 0 [] of
                          Inl err \<Rightarrow> (Panicked err, w)
                        | Inr xforms \<Rightarrow>
                            (case packages_loop xforms (InitialPackages iprog) w of
                               (Inl err, w) \<Rightarrow> (Panicked err, w)
                             | (Inr _, w) \<Rightarrow> (Returned, w)))))))"

subsection \<open>main and doMain (untestify.go)\<close>

definition untestify_usage :: "env \<Rightarrow> string" where
  "untestify_usage env =
     ''eg: an example-based refactoring tool.\<newline>\<newline>''
     @ ''Usage: eg -t template.go [-w] [-transitive] <args>...\<newline>\<newline>''
     @ ''-help            show detailed help message\<newline>''
     @ ''-t template.go'' @ [CHR 0x09] @ '' specifies the template file (use -help to see explanation)\<newline>''
     @ ''-w          '' @ [CHR 0x09] @ '' causes files to be re-written in place.\<newline>''
     @ ''-transitive '' @ [CHR 0x09] @ '' causes all dependencies to be refactored too.\<newline>''
     @ ''-v               show verbose matcher diagnostics\<newline>''
     @ FromArgsUsage env"

text \<open>The loop that builds the transformers also collects the template packages.\<close>

function untestify_xforms_loop ::
  "env \<Rightarrow> flags \<Rightarrow> Program \<Rightarrow> nat \<Rightarrow> nat \<Rightarrow> Transformer list \<times> PackageInfo list
     \<Rightarrow> error + Transformer list \<times> PackageInfo list"
where
  "untestify_xforms_loop env fl iprog nTemplate i acc =
     (case acc of (xforms, templates) \<Rightarrow>
      if i < nTemplate then
        (if i < length (Created iprog) then
           (let template = Created iprog ! i;
                templates = templates @ [template]
            in case Files template of
                 [] \<Rightarrow> Inl IndexOutOfRange
               | file0 # _ \<Rightarrow>
                   (case NewTransformer env template file0 (verboseFlag fl) of
                      Inl err \<Rightarrow> Inl err
                    | Inr xform \<Rightarrow>
                        untestify_xforms_loop env fl iprog nTemplate (i + 1)
                          (xforms @ [xform], templates)))
         else Inl IndexOutOfRange)
      else Inr (xforms, templates))"
  by pat_completeness auto
termination
  by (relation "measure (\<lambda>(env, fl, iprog, nTemplate, i, acc). nTemplate - i)") auto

declare untestify_xforms_loop.simps [simp del]

text \<open>The loop \<open>for _, t := range templates { if pkg == t { isTemplate = true; break } }\<close>:
  a comparison of pointers.\<close>

fun isTemplate :: "PackageInfo \<Rightarrow> PackageInfo list \<Rightarrow> bool" where
  "isTemplate pkg [] = False"
| "isTemplate pkg (t # templates) = (if addr pkg = addr t then True else isTemplate pkg templates)"

fun doMain_files :: "Transformer list \<Rightarrow> PackageInfo \<Rightarrow> File list \<Rightarrow> world \<Rightarrow> unit result" where
  "doMain_files xforms pkg [] w = (Inr (), w)"
| "doMain_files xforms pkg (file # files) w =
     (let (file, n) = apply_xforms xforms pkg file 0;
          filename = FileName file
      in case doMain_imports file n of
           Inl err \<Rightarrow> (Inl err, w)
         | Inr (file, n) \<Rightarrow>
             if n = 0 then doMain_files xforms pkg files w
             else
               (let w = Fprint_stderr
                          (''=== '' @ filename @ '' ('' @ Sprintf_d n @ '' matches)\<newline>'') w
                in case WriteAST filename file w of
                     (Inl err, w) \<Rightarrow> (Inl err, w)
                   | (Inr _, w) \<Rightarrow> doMain_files xforms pkg files w))"

fun doMain_packages ::
  "Transformer list \<Rightarrow> PackageInfo list \<Rightarrow> PackageInfo list \<Rightarrow> world \<Rightarrow> unit result"
where
  "doMain_packages xforms templates [] w = (Inr (), w)"
| "doMain_packages xforms templates (pkg # pkgs) w =
     (if Index (PkgPath pkg) ''template0'' \<ge> 0 then doMain_packages xforms templates pkgs w
      else if isTemplate pkg templates then doMain_packages xforms templates pkgs w
      else
        (let w = Print_stdout (''Handel package '' @ PkgPath pkg @ ''\<newline>'') w
         in case doMain_files xforms pkg (Files pkg) w of
              (Inl err, w) \<Rightarrow> (Inl err, w)
            | (Inr _, w) \<Rightarrow> doMain_packages xforms templates pkgs w))"

definition doMain :: "env \<Rightarrow> flags \<Rightarrow> string list \<Rightarrow> world \<Rightarrow> outcome \<times> world" where
  "doMain env fl args w =
     (case untestify_addAllTemplates untestify_substitutions w of
        (Inl err, w) \<Rightarrow> (Panicked err, w)
      | (Inr nTemplate, w) \<Rightarrow>
          (case FromArgs env args of
             Some err \<Rightarrow> (Panicked err, w)
           | None \<Rightarrow>
               (case Load env w args of
                  Inl err \<Rightarrow> (Panicked err, w)
                | Inr iprog \<Rightarrow>
                    (case untestify_xforms_loop env fl iprog nTemplate 0 ([], []) of
                       Inl err \<Rightarrow> (Panicked err, w)
                     | Inr (xforms, templates) \<Rightarrow>
                         (let pkgs = (if transitiveFlag fl then AllPackages iprog
                                      else InitialPackages iprog)
                          in case doMain_packages xforms templates pkgs w of
                               (Inl err, w) \<Rightarrow> (Panicked err, w)
                             | (Inr _, w) \<Rightarrow> (Returned, w))))))"

definition untestify_main :: "env \<Rightarrow> flags \<Rightarrow> string list \<Rightarrow> world \<Rightarrow> outcome \<times> world" where
  "untestify_main env fl args w =
     (if helpFlag fl then (Exited 2, Fprint_stderr (eg_Help env) w)
      else if length args = 0 then (Exited 1, Fprint_stderr (untestify_usage env) w)
      else doMain env fl args w)"

subsection \<open>What the orchestrator is expected to do\<close>

text \<open>The file as the transformers leave it, each applied to the file the one before it
  has left, and the count each of them returns there.\<close>

fun transformed :: "Transformer list \<Rightarrow> PackageInfo \<Rightarrow> File \<Rightarrow> File" where
  "transformed [] pkg file = file"
| "transformed (xform # xforms) pkg file = transformed xforms pkg (fst (xform pkg file))"

fun match_counts :: "Transformer list \<Rightarrow> PackageInfo \<Rightarrow> File \<Rightarrow> int list" where
  "match_counts [] pkg file = []"
| "match_counts (xform # xforms) pkg file =
     snd (xform pkg file) # match_counts xforms pkg (fst (xform pkg file))"

text \<open>One file after all transformers and the reconciler, with the sum of the
  transformers' counts and the reconciler's count; \<open>Inl\<close> when the reconciler panics.\<close>

definition mutated :: "Transformer list \<Rightarrow> PackageInfo \<Rightarrow> File \<Rightarrow> error + File \<times> int" where
  "mutated xforms pkg file =
     (if well_typed (transformed xforms pkg file)
      then Inr (reconciled (transformed xforms pkg file),
                sum_list (match_counts xforms pkg file) + removals (transformed xforms pkg file))
      else Inl TypeAssertionFailed)"

text \<open>The files of a package that are to be written back, in order: those whose sum is
  not zero, each under its file name and in its mutated form.\<close>

fun persisted :: "Transformer list \<Rightarrow> PackageInfo \<Rightarrow> File list \<Rightarrow> (string \<times> File) list" where
  "persisted xforms pkg [] = []"
| "persisted xforms pkg (file # files) =
     (case mutated xforms pkg file of
        Inr (file', n) \<Rightarrow> (if n = 0 then [] else [(FileName file', file')])
      | Inl err \<Rightarrow> [])
     @ persisted xforms pkg files"

text \<open>The test by which each revision skips a package.\<close>

definition skipped :: "PackageInfo \<Rightarrow> bool" where
  "skipped pkg = Contains (PkgPath pkg) ''template000''"

definition untestify_skipped :: "PackageInfo list \<Rightarrow> PackageInfo \<Rightarrow> bool" where
  "untestify_skipped templates pkg =
     (Contains (PkgPath pkg) ''template0'' \<or> addr pkg \<in> set (map addr templates))"

subsection \<open>Example runs\<close>

text \<open>An environment in which loading fails.\<close>

definition env_ex :: env where
  "env_ex = \<lparr>eg_Help = ''This tool implements example-based refactoring of expressions.'',
     FromArgsUsage = ''<args> is a list of arguments denoting a set of initial packages.'',
     FromArgs = (\<lambda>args. None),
     Load = (\<lambda>w args. Inl LoadError),
     NewTransformer = (\<lambda>template file0 verbose. Inl TransformerError)\<rparr>"

definition flags_help :: flags where
  "flags_help = \<lparr>helpFlag = True, transitiveFlag = False, verboseFlag = False\<rparr>"

definition flags_none :: flags where
  "flags_none = \<lparr>helpFlag = False, transitiveFlag = False, verboseFlag = False\<rparr>"

definition flags_transitive :: flags where
  "flags_transitive = \<lparr>helpFlag = False, transitiveFlag = True, verboseFlag = False\<rparr>"

text \<open>Package \<open>p\<close> is requested; it imports \<open>d\<close>; package \<open>q\<close> imports \<open>p\<close> and calls
  testify. The loader loads the requested packages and the packages they depend on, so
  the program it returns for the argument \<open>p\<close> holds \<open>p\<close> and \<open>d\<close>, and not \<open>q\<close>.\<close>

definition pkg_p :: PackageInfo where
  "pkg_p = \<lparr>addr = 1, PkgPath = ''example.com/p'', PkgImports = [''example.com/d''],
     Files = [file_alias, file_ex]\<rparr>"

definition pkg_d :: PackageInfo where
  "pkg_d = \<lparr>addr = 2, PkgPath = ''example.com/d'', PkgImports = [], Files = [file_one]\<rparr>"

text \<open>The file of \<open>q\<close>: it imports testing and testify/assert and holds three functions
  that call testify.\<close>

definition file_q :: File where
  "file_q = \<lparr>FileName = ''q_test.go'', Imports = [0, 1],
     Decls = [GenDecl IMPORT [ImportSpecPtr 0, ImportSpecPtr 1],
              FuncDecl ''assert.NoError(t, err)'', FuncDecl ''assert.Equal(t, a, b)'',
              FuncDecl ''assert.NoError(t, err)''],
     store = store_ex\<rparr>"

definition pkg_q :: PackageInfo where
  "pkg_q = \<lparr>addr = 3, PkgPath = ''example.com/q'', PkgImports = [''example.com/p''],
     Files = [file_q]\<rparr>"

text \<open>A file whose imports are already those of testutil, with one call of testify left.\<close>

definition file_call :: File where
  "file_call = \<lparr>FileName = ''e_test.go'', Imports = [0, 2],
     Decls = [GenDecl IMPORT [ImportSpecPtr 0, ImportSpecPtr 2],
              FuncDecl ''assert.Equal(t, a, b)''],
     store = store_ex\<rparr>"

text \<open>The parsed file of a template package; the example transformer does not look at it.\<close>

definition template_file :: File where
  "template_file = \<lparr>FileName = ''template.go'', Imports = [], Decls = [], store = store_ex\<rparr>"

text \<open>The packages the loader creates: one for each entry of \<open>conf.CreatePkgs\<close>, in
  order, under the path given to \<open>CreateFromFilenames\<close>.\<close>

definition created_from :: "(string \<times> string list) list \<Rightarrow> PackageInfo list" where
  "created_from specs =
     map (\<lambda>(i, name, filenames).
            \<lparr>addr = 100 + i, PkgPath = name, PkgImports = [], Files = [template_file]\<rparr>)
       (enumerate 0 specs)"

text \<open>A transformer that matches nothing.\<close>

definition xform_none :: Transformer where
  "xform_none pkg file = (file, 0)"

text \<open>A transformer for one rule: it rewrites every function that is the call \<open>before\<close>
  into the call \<open>after\<close>, and returns the number of functions it has rewritten.\<close>

fun rewritten :: "string \<Rightarrow> string \<Rightarrow> Decl \<Rightarrow> Decl" where
  "rewritten before after (FuncDecl body) =
     (if body = before then FuncDecl after else FuncDecl body)"
| "rewritten before after d = d"

definition xform_call :: "string \<Rightarrow> string \<Rightarrow> Transformer" where
  "xform_call before after pkg file =
     (file\<lparr>Decls := map (rewritten before after) (Decls file)\<rparr>,
      int (length (filter (\<lambda>d. d = FuncDecl before) (Decls file))))"

text \<open>The transformers of the rules \<open>XX.NoError(t, err)\<close> and \<open>XX.Equal(t, a, b)\<close> of the
  catalog, for the family \<open>assert\<close>.\<close>

definition xform_noerror :: Transformer where
  "xform_noerror = xform_call ''assert.NoError(t, err)'' ''gexpect.NoError(t, err)''"

definition xform_equal :: Transformer where
  "xform_equal = xform_call ''assert.Equal(t, a, b)'' ''gexpect.EQ(t, b, a)''"

text \<open>The file of \<open>q\<close> after the transformers of the two rules.\<close>

definition file_q_rewritten :: File where
  "file_q_rewritten = file_q\<lparr>Decls :=
     [GenDecl IMPORT [ImportSpecPtr 0, ImportSpecPtr 1],
      FuncDecl ''gexpect.NoError(t, err)'', FuncDecl ''gexpect.EQ(t, b, a)'',
      FuncDecl ''gexpect.NoError(t, err)'']\<rparr>"

text \<open>An environment in which loading succeeds, for the argument \<open>p\<close>.\<close>

definition env_ok :: env where
  "env_ok = env_ex\<lparr>
     Load := (\<lambda>w args. Inr \<lparr>Created = created_from (CreatePkgs w), Imported = [pkg_p],
                AllPackages = created_from (CreatePkgs w) @ [pkg_d, pkg_p]\<rparr>),
     NewTransformer := (\<lambda>template file0 verbose. Inr xform_none)\<rparr>"

text \<open>The same environment with a transformer that matches, built for every template.\<close>

definition env_match :: env where
  "env_match = env_ok\<lparr>NewTransformer := (\<lambda>template file0 verbose. Inr xform_noerror)\<rparr>"

text \<open>A target package that is not a template unit but whose path contains the marker.\<close>

definition pkg_marker :: PackageInfo where
  "pkg_marker = \<lparr>addr = 4, PkgPath = ''example.com/template000kit'', PkgImports = [],
     Files = [file_one]\<rparr>"

text \<open>A world in which no file of the template directory can be written, and one in
  which the test file \<open>a_test.go\<close> cannot.\<close>

definition world_ro :: world where
  "world_ro = world0\<lparr>unwritable := (\<lambda>p. HasPrefix p dir)\<rparr>"

definition world_a :: world where
  "world_a = world0\<lparr>unwritable := (\<lambda>p. p = ''a_test.go'')\<rparr>"

text \<open>The world after the expansion of the built-in catalog, started in \<open>world0\<close>, for
  each revision.\<close>

definition world1 :: world where
  "world1 = registered (units_from TemplateUnit 0 (triples substitutions)) world0"

definition untestify_world1 :: world where
  "untestify_world1 =
     registered (units_from untestify_TemplateUnit 0 (triples untestify_substitutions)) world0"

definition line_p :: string where
  "line_p = ''=== Package example.com/p (2 files)\<newline>''"

definition line_a :: string where
  "line_a = ''=== a_test.go (2 matches)\<newline>''"

definition line_b :: string where
  "line_b = ''=== b_test.go (2 matches)\<newline>''"

definition line_hp :: string where
  "line_hp = ''Handel package example.com/p\<newline>''"

definition line_hd :: string where
  "line_hd = ''Handel package example.com/d\<newline>''"

definition line_q :: string where
  "line_q = ''=== q_test.go (5 matches)\<newline>''"

definition line_e :: string where
  "line_e = ''=== e_test.go (1 matches)\<newline>''"

section \<open>Proofs: the template expander\<close>

subsection \<open>Decimal formatting is injective\<close>

lemma digit_val_digit_char: "d < 10 \<Longrightarrow> digit_val (digit_char d) = d"
  by (simp add: digit_val_def digit_char_def)

lemma atoi_snoc: "atoi (s @ [c]) = 10 * atoi s + digit_val c"
  by (simp add: atoi_def)

lemma atoi_itoa: "atoi (itoa n) = n"
proof (induction n rule: itoa.induct)
  case (1 n)
  show ?case
  proof (cases "n < 10")
    case True
    then show ?thesis by (simp add: itoa.simps [of n] atoi_def digit_val_digit_char)
  next
    case False
    with 1 have "atoi (itoa (n div 10)) = n div 10" by simp
    with False show ?thesis
      by (simp add: itoa.simps [of n] atoi_snoc digit_val_digit_char)
  qed
qed

lemma atoi_zeros: "atoi (replicate k (CHR ''0'') @ s) = atoi s"
proof -
  have "foldl (\<lambda>a c. 10 * a + digit_val c) 0 (replicate k (CHR ''0'')) = 0"
    by (induction k) (simp_all add: digit_val_def)
  then show ?thesis by (simp add: atoi_def)
qed

lemma atoi_Sprintf_0d: "atoi (Sprintf_0d w n) = n"
  by (simp add: Sprintf_0d_def atoi_zeros atoi_itoa)

lemma Sprintf_0d_inj: "Sprintf_0d w n = Sprintf_0d w m \<Longrightarrow> n = m"
  by (metis atoi_Sprintf_0d)

lemma registered_Nil: "registered [] w = w"
  by (simp add: registered_def)

lemma registered_Cons:
  "registered (u # us) w = registered us (registered [u] w)"
  by (simp add: registered_def)

lemma registered_append:
  "registered (us @ vs) w = registered vs (registered us w)"
  by (simp add: registered_def)

lemma unwritable_registered: "unwritable (registered us w) = unwritable w"
  by (simp add: registered_def)

lemma templateSeq_registered: "templateSeq (registered us w) = templateSeq w + length us"
  by (simp add: registered_def)

lemma length_units_from: "length (units_from mk seq ts) = length ts"
  by (induction ts arbitrary: seq) simp_all

lemma units_from_append:
  "units_from mk seq (ts @ us) = units_from mk seq ts @ units_from mk (seq + length ts) us"
  by (induction ts arbitrary: seq) simp_all

lemma emit_append:
  "emit (us @ vs) w = (case emit us w of (None, w') \<Rightarrow> emit vs w' | (Some e, w') \<Rightarrow> (Some e, w'))"
  by (induction us arbitrary: w) simp_all

lemma emit_templateSeq:
  "emit us w = (None, w') \<Longrightarrow> templateSeq w' = templateSeq w + length us"
  by (induction us arbitrary: w) (auto simp: templateSeq_registered split: if_splits)

lemma emit_all_writable:
  "\<forall>u \<in> set us. \<not> unwritable w (fst (snd u)) \<Longrightarrow> emit us w = (None, registered us w)"
proof (induction us arbitrary: w)
  case Nil
  then show ?case by (simp add: registered_Nil)
next
  case (Cons u us)
  then have "emit us (registered [u] w) = (None, registered us (registered [u] w))"
    by (simp add: unwritable_registered)
  with Cons.prems show ?case
    by (simp add: registered_Cons [of u us w])
qed

lemma emit_first_failure:
  assumes "k < length us" and "unwritable w (fst (snd (us ! k)))"
    and "\<forall>i < k. \<not> unwritable w (fst (snd (us ! i)))"
  shows "emit us w = (Some (WriteError (fst (snd (us ! k)))),
           (registered (take k us) w)\<lparr>templateSeq := Suc (templateSeq w + k)\<rparr>)"
proof -
  have split: "us = take k us @ (us ! k) # drop (Suc k) us"
    using assms(1) by (simp add: id_take_nth_drop)
  have "\<forall>u \<in> set (take k us). \<not> unwritable w (fst (snd u))"
  proof
    fix u assume "u \<in> set (take k us)"
    then obtain i where "i < length (take k us)" and "take k us ! i = u"
      by (auto simp: in_set_conv_nth)
    then have "i < k" and "us ! i = u" by simp_all
    with assms(3) show "\<not> unwritable w (fst (snd u))" by auto
  qed
  then have pre: "emit (take k us) w = (None, registered (take k us) w)"
    by (rule emit_all_writable)
  have "emit us w = emit (take k us @ (us ! k) # drop (Suc k) us) w"
    using split by simp
  also have "\<dots> = emit ((us ! k) # drop (Suc k) us) (registered (take k us) w)"
    by (simp add: emit_append pre)
  also have "\<dots> = (Some (WriteError (fst (snd (us ! k)))),
           (registered (take k us) w)\<lparr>templateSeq := Suc (templateSeq w + k)\<rparr>)"
    using assms(1,2) by (simp add: unwritable_registered templateSeq_registered min_def)
  finally show ?thesis .
qed

lemma emit_unwritable: "emit us w = (r, w') \<Longrightarrow> unwritable w' = unwritable w"
  by (induction us arbitrary: w) (auto simp: unwritable_registered split: if_splits)

lemma product_rule_Cons:
  "List.product [rType] (List.product (sub # subs) argLists) =
     map (\<lambda>a. (rType, sub, a)) argLists @ List.product [rType] (List.product subs argLists)"
  by (simp add: comp_def)


lemma names_units_from:
  "(\<And>seq t. fst (mk seq t) = f seq) \<Longrightarrow>
   map fst (units_from mk seq ts) = map f [seq ..< seq + length ts]"
proof (induction ts arbitrary: seq)
  case Nil
  then show ?case by simp
next
  case (Cons t ts)
  have "[seq ..< seq + length (t # ts)] = seq # [Suc seq ..< seq + length (t # ts)]"
    by (rule upt_conv_Cons) simp
  with Cons show ?case by simp
qed

lemma distinct_names:
  "distinct (map (\<lambda>i. ''template'' @ Sprintf_0d w i) [a ..< b])"
  by (auto simp: distinct_map inj_on_def dest: Sprintf_0d_inj)

lemma length_triples: "length (triples subs) = length subs * 6 * 2"
  by (simp add: triples_def argLists_def)

lemma addTemplates_args_emit:
  "addTemplates_args sub (family rType sub) as n w =
     (case emit (units_from TemplateUnit (templateSeq w) (map (\<lambda>a. (rType, sub, a)) as)) w of
        (None, w') \<Rightarrow> (Inr (n + length as), w')
      | (Some e, w') \<Rightarrow> (Inl e, w'))"
proof (induction as arbitrary: n w)
  case Nil
  then show ?case by simp
next
  case (Cons a as)
  let ?u = "TemplateUnit (templateSeq w) (rType, sub, a)"
  obtain name path body
    where u: "unit_text sub (family rType sub) a (templateSeq w) = (name, path, body)"
    by (cases "unit_text sub (family rType sub) a (templateSeq w)") auto
  then have u': "?u = (name, path, body)"
    by (simp add: TemplateUnit_def)
  show ?case
  proof (cases "unwritable w path")
    case True
    then show ?thesis by (simp add: u u' WriteFile_def)
  next
    case False
    have step: "CreateFromFilenames name [path]
         (w\<lparr>templateSeq := Suc (templateSeq w), written := written w @ [(path, body)]\<rparr>)
         = registered [?u] w"
      by (simp add: CreateFromFilenames_def registered_def u')
    have "addTemplates_args sub (family rType sub) (a # as) n w
        = addTemplates_args sub (family rType sub) as (n + 1) (registered [?u] w)"
      using False by (simp add: u WriteFile_def step)
    also have "\<dots> =
       (case emit (units_from TemplateUnit (templateSeq (registered [?u] w))
                 (map (\<lambda>a. (rType, sub, a)) as)) (registered [?u] w) of
          (None, w') \<Rightarrow> (Inr (n + 1 + length as), w')
        | (Some e, w') \<Rightarrow> (Inl e, w'))"
      by (rule Cons.IH)
    also have "\<dots> =
       (case emit (units_from TemplateUnit (templateSeq w)
                 (map (\<lambda>a. (rType, sub, a)) (a # as))) w of
          (None, w') \<Rightarrow> (Inr (n + length (a # as)), w')
        | (Some e, w') \<Rightarrow> (Inl e, w'))"
      using False by (simp add: templateSeq_registered u' split: prod.splits option.splits)
    finally show ?thesis .
  qed
qed

lemma addTemplates_subs_emit:
  "addTemplates_subs rType subs n w =
     (case emit (units_from TemplateUnit (templateSeq w)
               (List.product [rType] (List.product subs argLists))) w of
        (None, w') \<Rightarrow> (Inr (n + length subs * 6), w')
      | (Some e, w') \<Rightarrow> (Inl e, w'))"
proof (induction subs arbitrary: n w)
  case Nil
  then show ?case by simp
next
  case (Cons sub subs)
  let ?us = "units_from TemplateUnit (templateSeq w) (map (\<lambda>a. (rType, sub, a)) argLists)"
  have len: "length argLists = 6" by (simp add: argLists_def)
  obtain r w1 where e: "emit ?us w = (r, w1)" by (cases "emit ?us w") auto
  show ?case
  proof (cases r)
    case (Some err)
    then show ?thesis
      using e unfolding product_rule_Cons units_from_append emit_append
      by (simp add: addTemplates_args_emit)
  next
    case None
    with e have seq: "templateSeq w1 = templateSeq w + 6"
      using emit_templateSeq [of ?us w w1] by (simp add: length_units_from len)
    have "addTemplates_subs rType (sub # subs) n w = addTemplates_subs rType subs (n + 6) w1"
      using e None by (simp add: addTemplates_args_emit len)
    also have "\<dots> =
       (case emit (units_from TemplateUnit (templateSeq w1)
                 (List.product [rType] (List.product subs argLists))) w1 of
          (None, w') \<Rightarrow> (Inr (n + 6 + length subs * 6), w')
        | (Some e, w') \<Rightarrow> (Inl e, w'))"
      by (rule Cons.IH)
    also have "\<dots> =
       (case emit (units_from TemplateUnit (templateSeq w)
                 (List.product [rType] (List.product (sub # subs) argLists))) w of
          (None, w') \<Rightarrow> (Inr (n + length (sub # subs) * 6), w')
        | (Some e, w') \<Rightarrow> (Inl e, w'))"
      using e None unfolding product_rule_Cons units_from_append emit_append
      by (simp add: len seq split: prod.splits option.splits)
    finally show ?thesis .
  qed
qed

lemma addAllTemplates_emit:
  "addAllTemplates subs w =
     (case emit (units_from TemplateUnit (templateSeq w) (triples subs)) w of
        (None, w') \<Rightarrow> (Inr (length subs * 6 * 2), w')
      | (Some e, w') \<Rightarrow> (Inl e, w'))"
proof -
  let ?ts = "\<lambda>r. List.product [r] (List.product subs argLists)"
  let ?us = "units_from TemplateUnit (templateSeq w) (?ts rewriteRequire)"
  have len6: "length argLists = 6" by (simp add: argLists_def)
  have len: "length (?ts rewriteRequire) = length subs * 6"
    by (simp add: len6)
  have tr: "triples subs = ?ts rewriteRequire @ ?ts rewriteAssert"
    by (simp add: triples_def)
  obtain r w1 where e: "emit ?us w = (r, w1)" by (cases "emit ?us w") auto
  show ?thesis
  proof (cases r)
    case (Some err)
    then show ?thesis
      using e unfolding tr units_from_append emit_append
      by (simp add: addAllTemplates_def addTemplates_def addTemplates_subs_emit)
  next
    case None
    with e have seq: "templateSeq w1 = templateSeq w + length subs * 6"
      using emit_templateSeq [of ?us w w1] by (simp add: length_units_from len6)
    show ?thesis
      using e None unfolding tr units_from_append emit_append len
      by (simp add: addAllTemplates_def addTemplates_def addTemplates_subs_emit seq
          split: prod.splits option.splits)
  qed
qed

lemma fst_TemplateUnit: "fst (TemplateUnit seq t) = ''template'' @ Sprintf_0d 8 seq"
  by (cases t, cases "family (fst t) (fst (snd t))")
     (simp add: TemplateUnit_def unit_text_def Let_def)
lemma untestify_addTemplates_args_emit:
  "untestify_addTemplates_args sub (untestify_family rType sub) as n w =
     (case emit (units_from untestify_TemplateUnit (templateSeq w) (map (\<lambda>a. (rType, sub, a)) as)) w of
        (None, w') \<Rightarrow> (Inr (n + length as), w')
      | (Some e, w') \<Rightarrow> (Inl e, w'))"
proof (induction as arbitrary: n w)
  case Nil
  then show ?case by simp
next
  case (Cons a as)
  let ?u = "untestify_TemplateUnit (templateSeq w) (rType, sub, a)"
  obtain name path body
    where u: "untestify_unit_text sub (untestify_family rType sub) a (templateSeq w) = (name, path, body)"
    by (cases "untestify_unit_text sub (untestify_family rType sub) a (templateSeq w)") auto
  then have u': "?u = (name, path, body)"
    by (simp add: untestify_TemplateUnit_def)
  show ?case
  proof (cases "unwritable w path")
    case True
    then show ?thesis by (simp add: u u' WriteFile_def)
  next
    case False
    have step: "CreateFromFilenames name [path]
         (w\<lparr>templateSeq := Suc (templateSeq w), written := written w @ [(path, body)]\<rparr>)
         = registered [?u] w"
      by (simp add: CreateFromFilenames_def registered_def u')
    have "untestify_addTemplates_args sub (untestify_family rType sub) (a # as) n w
        = untestify_addTemplates_args sub (untestify_family rType sub) as (n + 1) (registered [?u] w)"
      using False by (simp add: u WriteFile_def step)
    also have "\<dots> =
       (case emit (units_from untestify_TemplateUnit (templateSeq (registered [?u] w))
                 (map (\<lambda>a. (rType, sub, a)) as)) (registered [?u] w) of
          (None, w') \<Rightarrow> (Inr (n + 1 + length as), w')
        | (Some e, w') \<Rightarrow> (Inl e, w'))"
      by (rule Cons.IH)
    also have "\<dots> =
       (case emit (units_from untestify_TemplateUnit (templateSeq w)
                 (map (\<lambda>a. (rType, sub, a)) (a # as))) w of
          (None, w') \<Rightarrow> (Inr (n + length (a # as)), w')
        | (Some e, w') \<Rightarrow> (Inl e, w'))"
      using False by (simp add: templateSeq_registered u' split: prod.splits option.splits)
    finally show ?thesis .
  qed
qed

lemma untestify_addTemplates_subs_emit:
  "untestify_addTemplates_subs rType subs n w =
     (case emit (units_from untestify_TemplateUnit (templateSeq w)
               (List.product [rType] (List.product subs argLists))) w of
        (None, w') \<Rightarrow> (Inr (n + length subs * 6), w')
      | (Some e, w') \<Rightarrow> (Inl e, w'))"
proof (induction subs arbitrary: n w)
  case Nil
  then show ?case by simp
next
  case (Cons sub subs)
  let ?us = "units_from untestify_TemplateUnit (templateSeq w) (map (\<lambda>a. (rType, sub, a)) argLists)"
  have len: "length argLists = 6" by (simp add: argLists_def)
  obtain r w1 where e: "emit ?us w = (r, w1)" by (cases "emit ?us w") auto
  show ?case
  proof (cases r)
    case (Some err)
    then show ?thesis
      using e unfolding product_rule_Cons units_from_append emit_append
      by (simp add: untestify_addTemplates_args_emit)
  next
    case None
    with e have seq: "templateSeq w1 = templateSeq w + 6"
      using emit_templateSeq [of ?us w w1] by (simp add: length_units_from len)
    have "untestify_addTemplates_subs rType (sub # subs) n w = untestify_addTemplates_subs rType subs (n + 6) w1"
      using e None by (simp add: untestify_addTemplates_args_emit len)
    also have "\<dots> =
       (case emit (units_from untestify_TemplateUnit (templateSeq w1)
                 (List.product [rType] (List.product subs argLists))) w1 of
          (None, w') \<Rightarrow> (Inr (n + 6 + length subs * 6), w')
        | (Some e, w') \<Rightarrow> (Inl e, w'))"
      by (rule Cons.IH)
    also have "\<dots> =
       (case emit (units_from untestify_TemplateUnit (templateSeq w)
                 (List.product [rType] (List.product (sub # subs) argLists))) w of
          (None, w') \<Rightarrow> (Inr (n + length (sub # subs) * 6), w')
        | (Some e, w') \<Rightarrow> (Inl e, w'))"
      using e None unfolding product_rule_Cons units_from_append emit_append
      by (simp add: len seq split: prod.splits option.splits)
    finally show ?thesis .
  qed
qed

lemma untestify_addAllTemplates_emit:
  "untestify_addAllTemplates subs w =
     (case emit (units_from untestify_TemplateUnit (templateSeq w) (triples subs)) w of
        (None, w') \<Rightarrow> (Inr (length subs * 6 * 2), w')
      | (Some e, w') \<Rightarrow> (Inl e, w'))"
proof -
  let ?ts = "\<lambda>r. List.product [r] (List.product subs argLists)"
  let ?us = "units_from untestify_TemplateUnit (templateSeq w) (?ts rewriteRequire)"
  have len6: "length argLists = 6" by (simp add: argLists_def)
  have len: "length (?ts rewriteRequire) = length subs * 6"
    by (simp add: len6)
  have tr: "triples subs = ?ts rewriteRequire @ ?ts rewriteAssert"
    by (simp add: triples_def)
  obtain r w1 where e: "emit ?us w = (r, w1)" by (cases "emit ?us w") auto
  show ?thesis
  proof (cases r)
    case (Some err)
    then show ?thesis
      using e unfolding tr units_from_append emit_append
      by (simp add: untestify_addAllTemplates_def untestify_addTemplates_def untestify_addTemplates_subs_emit)
  next
    case None
    with e have seq: "templateSeq w1 = templateSeq w + length subs * 6"
      using emit_templateSeq [of ?us w w1] by (simp add: length_units_from len6)
    show ?thesis
      using e None unfolding tr units_from_append emit_append len
      by (simp add: untestify_addAllTemplates_def untestify_addTemplates_def untestify_addTemplates_subs_emit seq
          split: prod.splits option.splits)
  qed
qed

lemma fst_untestify_TemplateUnit: "fst (untestify_TemplateUnit seq t) = ''template'' @ Sprintf_0d 4 seq"
  by (cases t, cases "untestify_family (fst t) (fst (snd t))")
     (simp add: untestify_TemplateUnit_def untestify_unit_text_def Let_def)

lemma names_registered:
  "map fst (map (\<lambda>(name, path, body). (name, [path])) us) = map fst us"
  by (induction us) auto

text \<open>
  C1. When no write fails, the two calls of \<open>addTemplates\<close> of a run over a catalog of
  \<open>N\<close> rules return \<open>N * 6 * 2\<close> in total and write and register exactly the units of
  the (family, rule, arity variant) triples, one unit per triple, in order and numbered
  consecutively from the value of \<open>templateSeq\<close> at the start; the package names are the
  formatted sequence numbers and are pairwise distinct. This holds for both revisions of
  \<open>addTemplates\<close>.
\<close>

theorem addTemplates_one_unit_per_triple:
  assumes "\<forall>p. \<not> unwritable w p"
  shows "addAllTemplates subs w =
           (Inr (length subs * 6 * 2),
            registered (units_from TemplateUnit (templateSeq w) (triples subs)) w)
       \<and> length (units_from TemplateUnit (templateSeq w) (triples subs)) = length subs * 6 * 2
       \<and> map fst (units_from TemplateUnit (templateSeq w) (triples subs)) =
           map (\<lambda>i. ''template'' @ Sprintf_0d 8 i)
             [templateSeq w ..< templateSeq w + length subs * 6 * 2]
       \<and> distinct (map fst (units_from TemplateUnit (templateSeq w) (triples subs)))
       \<and> untestify_addAllTemplates subs w =
           (Inr (length subs * 6 * 2),
            registered (units_from untestify_TemplateUnit (templateSeq w) (triples subs)) w)
       \<and> length (units_from untestify_TemplateUnit (templateSeq w) (triples subs)) =
           length subs * 6 * 2
       \<and> map fst (units_from untestify_TemplateUnit (templateSeq w) (triples subs)) =
           map (\<lambda>i. ''template'' @ Sprintf_0d 4 i)
             [templateSeq w ..< templateSeq w + length subs * 6 * 2]
       \<and> distinct (map fst (units_from untestify_TemplateUnit (templateSeq w) (triples subs)))"
proof -
  let ?us = "units_from TemplateUnit (templateSeq w) (triples subs)"
  let ?vs = "units_from untestify_TemplateUnit (templateSeq w) (triples subs)"
  have e: "emit ?us w = (None, registered ?us w)"
    using assms by (intro emit_all_writable) simp
  have e': "emit ?vs w = (None, registered ?vs w)"
    using assms by (intro emit_all_writable) simp
  have names: "map fst ?us = map (\<lambda>i. ''template'' @ Sprintf_0d 8 i)
             [templateSeq w ..< templateSeq w + length subs * 6 * 2]"
    using names_units_from [of TemplateUnit "\<lambda>i. ''template'' @ Sprintf_0d 8 i",
        OF fst_TemplateUnit]
    by (simp add: length_triples)
  have names': "map fst ?vs = map (\<lambda>i. ''template'' @ Sprintf_0d 4 i)
             [templateSeq w ..< templateSeq w + length subs * 6 * 2]"
    using names_units_from [of untestify_TemplateUnit "\<lambda>i. ''template'' @ Sprintf_0d 4 i",
        OF fst_untestify_TemplateUnit]
    by (simp add: length_triples)
  have run: "addAllTemplates subs w = (Inr (length subs * 6 * 2), registered ?us w)"
    by (simp add: addAllTemplates_emit e)
  have run': "untestify_addAllTemplates subs w = (Inr (length subs * 6 * 2), registered ?vs w)"
    by (simp add: untestify_addAllTemplates_emit e')
  have len: "length ?us = length subs * 6 * 2"
    by (simp only: length_units_from length_triples)
  have len': "length ?vs = length subs * 6 * 2"
    by (simp only: length_units_from length_triples)
  have d: "distinct (map fst ?us)"
    unfolding names by (rule distinct_names)
  have d': "distinct (map fst ?vs)"
    unfolding names' by (rule distinct_names)
  from run len names d run' len' names' d' show ?thesis by blast
qed

theorem addTemplates_one_unit_per_triple_witness:
  "(\<forall>p. \<not> unwritable world0 p)
   \<and> fst (addAllTemplates substitutions world0) = Inr 264
   \<and> length (CreatePkgs (snd (addAllTemplates substitutions world0))) = 264
   \<and> distinct (map fst (CreatePkgs (snd (addAllTemplates substitutions world0))))
   \<and> fst (untestify_addAllTemplates substitutions world0) = Inr 264
   \<and> length (CreatePkgs (snd (untestify_addAllTemplates substitutions world0))) = 264
   \<and> distinct (map fst (CreatePkgs (snd (untestify_addAllTemplates substitutions world0))))"
proof -
  have h: "\<forall>p. \<not> unwritable world0 p"
    by (simp add: world0_def)
  have n: "length substitutions = 22"
    by (simp add: substitutions_def)
  have names: "map fst (CreatePkgs (registered us world0)) = map fst us" for us
    by (simp add: registered_def world0_def case_prod_beta comp_def)
  have len: "length (CreatePkgs (registered us world0)) = length us" for us
    by (simp add: registered_def world0_def)
  let ?us = "units_from TemplateUnit (templateSeq world0) (triples substitutions)"
  let ?vs = "units_from untestify_TemplateUnit (templateSeq world0) (triples substitutions)"
  from addTemplates_one_unit_per_triple [OF h, of substitutions]
  have "addAllTemplates substitutions world0 =
        (Inr (length substitutions * 6 * 2), registered ?us world0)"
    and "length ?us = length substitutions * 6 * 2" and "distinct (map fst ?us)"
    and "untestify_addAllTemplates substitutions world0 =
        (Inr (length substitutions * 6 * 2), registered ?vs world0)"
    and "length ?vs = length substitutions * 6 * 2" and "distinct (map fst ?vs)"
    by blast+
  with h show ?thesis
    by (simp add: names len n)
qed

section \<open>Proofs: the import reconciler\<close>

subsection \<open>The in-place loops compute filters\<close>

lemma length_filter_eq_iff: "length (filter P xs) = length xs \<longleftrightarrow> list_all P xs"
proof
  assume "length (filter P xs) = length xs"
  then show "list_all P xs"
    by (metis filter_id_conv length_filter_less list_all_iff nat_neq_iff)
next
  assume "list_all P xs"
  then show "length (filter P xs) = length xs"
    by (simp add: list_all_iff)
qed

lemma filter_tail_id:
  "list_all P xs \<Longrightarrow> filter P xs @ drop (length (filter P xs)) xs = xs"
  by (simp add: list_all_iff)

lemma take_filter_tail: "take (length (filter P xs)) (filter P xs @ ys) = filter P xs"
  by simp

lemma Imports_loop_eq:
  "j \<le> i \<Longrightarrow>
   Imports_loop st arr i j =
     (let ks = filter (\<lambda>r. \<not> is_testify (Path (st r))) (drop i arr)
      in (take j arr @ ks @ drop (j + length ks) arr, j + length ks))"
proof (induction st arr i j rule: Imports_loop.induct)
  case (1 st arr i j)
  show ?case
  proof (cases "i < length arr")
    case False
    then show ?thesis
      by (simp add: Imports_loop.simps [of st arr i j])
  next
    case True
    then have d: "drop i arr = arr ! i # drop (Suc i) arr"
      by (simp add: Cons_nth_drop_Suc)
    show ?thesis
    proof (cases "is_testify (Path (st (arr ! i)))")
      case t: True
      then have "Imports_loop st arr i j = Imports_loop st arr (i + 1) j"
        using True by (auto simp: Imports_loop.simps [of st arr i j] is_testify_def Let_def)
      also have "\<dots> = (let ks = filter (\<lambda>r. \<not> is_testify (Path (st r))) (drop (i + 1) arr)
          in (take j arr @ ks @ drop (j + length ks) arr, j + length ks))"
      proof (cases "Contains (Path (st (arr ! i))) ''/testify/require''")
        case True
        with 1(1) [OF \<open>i < length arr\<close> refl True] 1(4) show ?thesis by simp
      next
        case False
        with t have "Contains (Path (st (arr ! i))) ''/testify/assert''"
          by (simp add: is_testify_def)
        with 1(2) [OF \<open>i < length arr\<close> refl False] 1(4) show ?thesis by simp
      qed
      finally show ?thesis
        using t by (simp add: d)
    next
      case f: False
      then have c: "\<not> Contains (Path (st (arr ! i))) ''/testify/require''"
        "\<not> Contains (Path (st (arr ! i))) ''/testify/assert''"
        by (simp_all add: is_testify_def)
      let ?arr = "arr[j := arr ! i]"
      have "Imports_loop st arr i j = Imports_loop st ?arr (i + 1) (j + 1)"
        using True c by (simp add: Imports_loop.simps [of st arr i j] Let_def)
      also have "\<dots> = (let ks = filter (\<lambda>r. \<not> is_testify (Path (st r))) (drop (i + 1) ?arr)
          in (take (j + 1) ?arr @ ks @ drop (j + 1 + length ks) ?arr, j + 1 + length ks))"
        using 1(3) [OF True refl c] 1(4) by simp
      finally have "Imports_loop st arr i j =
          (let ks = filter (\<lambda>r. \<not> is_testify (Path (st r))) (drop (i + 1) ?arr)
           in (take (j + 1) ?arr @ ks @ drop (j + 1 + length ks) ?arr, j + 1 + length ks))" .
      moreover have "take (j + 1) ?arr = take j arr @ [arr ! i]"
        using True 1(4) by (simp add: take_Suc_conv_app_nth)
      moreover have "drop (i + 1) ?arr = drop (i + 1) arr"
        using 1(4) by simp
      moreover have "drop (j + 1 + k) ?arr = drop (j + 1 + k) arr" for k
        by simp
      ultimately show ?thesis
        using f by (simp add: d Let_def)
    qed
  qed
qed


lemma Path_aliased: "Path (aliased s) = Path s"
  by (simp add: aliased_def)

lemma aliased_idem: "aliased (aliased s) = aliased s"
  by (simp add: aliased_def)

lemma kept_upd: "kept (st(r := aliased (st r))) = kept st"
proof
  fix x show "kept (st(r := aliased (st r))) x = kept st x"
    by (cases x) (simp_all add: Path_aliased)
qed

lemma kept_alias_refs: "kept (alias_refs st rs) = kept st"
proof
  fix x show "kept (alias_refs st rs) x = kept st x"
    by (cases x) (simp_all add: alias_refs_def Path_aliased)
qed

lemma alias_refs_upd: "alias_refs (st(r := aliased (st r))) rs = alias_refs st (r # rs)"
  by (auto simp: alias_refs_def aliased_idem fun_eq_iff)

lemma alias_refs_Nil: "alias_refs st [] = st"
  by (simp add: alias_refs_def)

lemma alias_refs_alias_refs: "alias_refs (alias_refs st rs) qs = alias_refs st (rs @ qs)"
  by (auto simp: alias_refs_def aliased_idem fun_eq_iff)

lemma Specs_loop_eq:
  "j \<le> i \<Longrightarrow>
   Specs_loop st arr i j =
     (if list_all is_ImportSpec (drop i arr) then
        (let ks = filter (kept st) (drop i arr)
         in Inr (alias_refs st (spec_refs ks),
                 take j arr @ ks @ drop (j + length ks) arr, j + length ks))
      else Inl TypeAssertionFailed)"
proof (induction "length arr - i" arbitrary: st arr i j)
  case 0
  then have "\<not> i < length arr" by simp
  then show ?case
    by (simp add: Specs_loop.simps [of st arr i j] alias_refs_Nil)
next
  case (Suc m)
  then have lt: "i < length arr" by simp
  then have d: "drop i arr = arr ! i # drop (Suc i) arr"
    by (simp add: Cons_nth_drop_Suc)
  show ?case
  proof (cases "arr ! i")
    case (ImportSpecPtr r)
    show ?thesis
    proof (cases "is_testify (Path (st r))")
      case True
      have m: "m = length arr - (i + 1)" using Suc.hyps(2) by simp
      have "Specs_loop st arr i j = Specs_loop st arr (i + 1) j"
        using lt True ImportSpecPtr
        by (auto simp: Specs_loop.simps [of st arr i j] is_testify_def Contains_def)
      also note Suc.hyps(1) [OF m, of j st]
      finally show ?thesis
        using True ImportSpecPtr Suc.prems by (simp add: d)
    next
      case False
      let ?arr = "arr[j := arr ! i]"
      let ?st = "st(r := aliased (st r))"
      have m: "m = length ?arr - (i + 1)" using Suc.hyps(2) by simp
      have "Specs_loop st arr i j = Specs_loop ?st ?arr (i + 1) (j + 1)"
        using lt False ImportSpecPtr
        by (simp add: Specs_loop.simps [of st arr i j] is_testify_def Contains_def aliased_def)
      also have "\<dots> =
         (if list_all is_ImportSpec (drop (i + 1) ?arr) then
            (let ks = filter (kept ?st) (drop (i + 1) ?arr)
             in Inr (alias_refs ?st (spec_refs ks),
                     take (j + 1) ?arr @ ks @ drop (j + 1 + length ks) ?arr, j + 1 + length ks))
          else Inl TypeAssertionFailed)"
        using Suc.hyps(1) [OF m, of "j + 1" ?st] Suc.prems by simp
      finally have "Specs_loop st arr i j =
         (if list_all is_ImportSpec (drop (i + 1) ?arr) then
            (let ks = filter (kept ?st) (drop (i + 1) ?arr)
             in Inr (alias_refs ?st (spec_refs ks),
                     take (j + 1) ?arr @ ks @ drop (j + 1 + length ks) ?arr, j + 1 + length ks))
          else Inl TypeAssertionFailed)" .
      moreover have "take (j + 1) ?arr = take j arr @ [arr ! i]"
        using lt Suc.prems by (simp add: take_Suc_conv_app_nth)
      moreover have "drop (i + 1) ?arr = drop (i + 1) arr"
        using Suc.prems by simp
      moreover have "drop (j + 1 + k) ?arr = drop (j + 1 + k) arr" for k
        by simp
      ultimately show ?thesis
        using False ImportSpecPtr
        by (simp add: d Let_def kept_upd alias_refs_upd)
    qed
  next
    case ValueSpec
    then show ?thesis
      using lt by (simp add: Specs_loop.simps [of st arr i j] d)
  next
    case TypeSpec
    then show ?thesis
      using lt by (simp add: Specs_loop.simps [of st arr i j] d)
  qed
qed

lemma reconciled_decl_alias_refs: "reconciled_decl (alias_refs st rs) = reconciled_decl st"
proof
  fix d show "reconciled_decl (alias_refs st rs) d = reconciled_decl st d"
    by (cases d) (simp_all add: kept_alias_refs)
qed

lemma shrinks_alias_refs: "shrinks (alias_refs st rs) = shrinks st"
proof
  fix d show "shrinks (alias_refs st rs) d = shrinks st d"
    by (cases d) (simp_all add: kept_alias_refs)
qed

lemma length_filter_tail:
  "length (filter P xs @ drop (length (filter P xs)) xs) = length xs"
  by (simp add: le_add_diff_inverse length_filter_le)

lemma take_or_all:
  "(if length (filter P xs) \<noteq> length xs
    then (take (length (filter P xs)) (filter P xs @ drop (length (filter P xs)) xs), n + 1)
    else (filter P xs @ drop (length (filter P xs)) xs, n))
   = (filter P xs, n + (if list_all P xs then 0 else (1::int)))"
proof (cases "list_all P xs")
  case True
  then have "filter P xs = xs" by (simp add: list_all_iff)
  with True show ?thesis by simp
next
  case False
  then show ?thesis by (simp add: length_filter_eq_iff)
qed

lemma Decls_loop_eq:
  "Decls_loop ds st n =
     (if list_all well_typed_decl ds then
        Inr (map (reconciled_decl st) ds,
             alias_refs st (decl_imports (map (reconciled_decl st) ds)),
             n + int (length (filter (shrinks st) ds)))
      else Inl TypeAssertionFailed)"
proof (induction ds arbitrary: st n)
  case Nil
  then show ?case by (simp add: alias_refs_Nil)
next
  case (Cons d ds)
  show ?case
  proof (cases d)
    case (GenDecl tok specs)
    show ?thesis
    proof (cases "tok = IMPORT")
      case False
      then show ?thesis
        using GenDecl by (simp add: Cons.IH)
    next
      case True
      show ?thesis
      proof (cases "list_all is_ImportSpec specs")
        case False
        then show ?thesis
          using GenDecl True by (simp add: Specs_loop_eq)
      next
        case wt: True
        let ?ks = "filter (kept st) specs"
        let ?st = "alias_refs st (spec_refs ?ks)"
        have "Decls_loop (d # ds) st n =
            (case Decls_loop ds ?st (n + (if list_all (kept st) specs then 0 else 1)) of
               Inl err \<Rightarrow> Inl err
             | Inr (ds, st, n) \<Rightarrow> Inr (GenDecl tok ?ks # ds, st, n))"
          using GenDecl True wt
          by (simp add: Specs_loop_eq Let_def length_filter_tail take_or_all
              del: take_append drop_append split: sum.splits prod.splits)
        then show ?thesis
          using GenDecl True wt
          by (simp add: Cons.IH reconciled_decl_alias_refs shrinks_alias_refs
              alias_refs_alias_refs)
      qed
    qed
  next
    case (FuncDecl x)
    then show ?thesis by (simp add: Cons.IH)
  next
    case BadDecl
    then show ?thesis by (simp add: Cons.IH)
  qed
qed

lemma rewriteImports_eq:
  "rewriteImports file =
     (if well_typed file then Inr (reconciled file, removals file) else Inl TypeAssertionFailed)"
proof -
  let ?K = "\<lambda>r. \<not> is_testify (Path (store file r))"
  have "rewriteImports file =
     (case Decls_loop (Decls file) (store file) (if list_all ?K (Imports file) then 0 else 1) of
        Inl err \<Rightarrow> Inl err
      | Inr (ds, st, n) \<Rightarrow>
          Inr (file\<lparr>Imports := filter ?K (Imports file), Decls := ds, store := st\<rparr>, n))"
  proof (cases "list_all ?K (Imports file)")
    case True
    then have "filter ?K (Imports file) = Imports file" by (simp add: list_all_iff)
    with True show ?thesis
      by (simp add: rewriteImports_def Imports_loop_eq Let_def split: sum.splits prod.splits)
  next
    case False
    then show ?thesis
      by (simp add: rewriteImports_def Imports_loop_eq Let_def length_filter_tail
          length_filter_eq_iff take_filter_tail del: take_append drop_append)
  qed
  then show ?thesis
    by (simp add: Decls_loop_eq well_typed_def reconciled_def removals_def)
qed

lemma doMain_imports_eq:
  "doMain_imports file n =
     (if well_typed file then Inr (reconciled file, n + removals file)
      else Inl TypeAssertionFailed)"
proof -
  let ?K = "\<lambda>r. \<not> is_testify (Path (store file r))"
  have "doMain_imports file n =
     (case Decls_loop (Decls file) (store file) (n + (if list_all ?K (Imports file) then 0 else 1)) of
        Inl err \<Rightarrow> Inl err
      | Inr (ds, st, n) \<Rightarrow>
          Inr (file\<lparr>Imports := filter ?K (Imports file), Decls := ds, store := st\<rparr>, n))"
  proof (cases "list_all ?K (Imports file)")
    case True
    then have "filter ?K (Imports file) = Imports file" by (simp add: list_all_iff)
    with True show ?thesis
      by (simp add: doMain_imports_def Imports_loop_eq Let_def split: sum.splits prod.splits)
  next
    case False
    then show ?thesis
      by (simp add: doMain_imports_def Imports_loop_eq Let_def length_filter_tail
          length_filter_eq_iff take_filter_tail del: take_append drop_append)
  qed
  then show ?thesis
    by (simp add: Decls_loop_eq well_typed_def reconciled_def removals_def)
qed

subsection \<open>Properties of the reconciled file\<close>

lemma spec_refs_filter_kept:
  "spec_refs (filter (kept st) specs) =
     filter (\<lambda>r. \<not> is_testify (Path (st r))) (spec_refs specs)"
  by (induction specs rule: spec_refs.induct) simp_all

lemma decl_imports_reconciled:
  "decl_imports (map (reconciled_decl st) ds) =
     filter (\<lambda>r. \<not> is_testify (Path (st r))) (decl_imports ds)"
  by (induction ds rule: decl_imports.induct) (simp_all add: spec_refs_filter_kept)

lemma Path_alias_refs: "Path (alias_refs st rs r) = Path (st r)"
  by (simp add: alias_refs_def Path_aliased)

lemma Path_reconciled: "Path (store (reconciled file) r) = Path (store file r)"
  by (simp add: reconciled_def Path_alias_refs)

lemma Imports_reconciled:
  "Imports (reconciled file) = filter (\<lambda>r. \<not> is_testify (Path (store file r))) (Imports file)"
  by (simp add: reconciled_def)

lemma Decls_reconciled:
  "Decls (reconciled file) = map (reconciled_decl (store file)) (Decls file)"
  by (simp add: reconciled_def)

lemma store_reconciled:
  "store (reconciled file) = alias_refs (store file) (decl_imports (Decls (reconciled file)))"
  by (simp add: reconciled_def)

lemma reconciled_decl_idem: "reconciled_decl st (reconciled_decl st d) = reconciled_decl st d"
  by (cases d) simp_all

lemma not_shrinks_reconciled: "\<not> shrinks st (reconciled_decl st d)"
  by (cases d) (simp_all add: list_all_iff)

lemma well_typed_reconciled_decl: "well_typed_decl d \<Longrightarrow> well_typed_decl (reconciled_decl st d)"
  by (cases d) (auto simp: list_all_iff)

lemma well_typed_reconciled: "well_typed file \<Longrightarrow> well_typed (reconciled file)"
  by (simp add: well_typed_def reconciled_def list_all_iff well_typed_reconciled_decl)

lemma alias_refs_twice: "alias_refs (alias_refs st rs) rs = alias_refs st rs"
  by (auto simp: alias_refs_def aliased_idem fun_eq_iff)

lemma reconciled_idem: "reconciled (reconciled file) = reconciled file"
proof -
  let ?st = "store file"
  let ?rs = "decl_imports (map (reconciled_decl ?st) (Decls file))"
  let ?K = "\<lambda>st r. \<not> is_testify (Path (st r))"
  have K: "?K (alias_refs ?st ?rs) = ?K ?st"
    by (simp add: Path_alias_refs)
  have D: "map (reconciled_decl (alias_refs ?st ?rs)) (map (reconciled_decl ?st) (Decls file))
      = map (reconciled_decl ?st) (Decls file)"
    by (simp add: reconciled_decl_alias_refs reconciled_decl_idem)
  show ?thesis
    unfolding reconciled_def
    by (simp add: K D alias_refs_twice del: map_map)
qed

lemma removals_reconciled: "removals (reconciled file) = 0"
proof -
  have "list_all (\<lambda>r. \<not> is_testify (Path (store (reconciled file) r))) (Imports (reconciled file))"
    by (simp add: Path_reconciled Imports_reconciled list_all_iff)
  moreover have "filter (shrinks (store (reconciled file))) (Decls (reconciled file)) = []"
    by (simp add: store_reconciled shrinks_alias_refs Decls_reconciled
        not_shrinks_reconciled filter_empty_conv)
  ultimately show ?thesis
    by (simp add: removals_def)
qed

lemma reconciled_decl_fix: "reconciled_decl st d = d \<longleftrightarrow> \<not> shrinks st d"
proof (cases d)
  case (GenDecl tok specs)
  then show ?thesis
    by (auto simp: list_all_iff filter_id_conv)
qed simp_all

lemma removals_zero_iff:
  "removals file = 0 \<longleftrightarrow>
     Imports (reconciled file) = Imports file \<and> Decls (reconciled file) = Decls file"
proof -
  have a: "filter (shrinks (store file)) (Decls file) = [] \<longleftrightarrow>
      map (reconciled_decl (store file)) (Decls file) = Decls file"
    by (simp add: filter_empty_conv map_idI reconciled_decl_fix map_eq_conv [where g = id, simplified]
        flip: reconciled_decl_fix)
  have b: "list_all (\<lambda>r. \<not> is_testify (Path (store file r))) (Imports file) \<longleftrightarrow>
      filter (\<lambda>r. \<not> is_testify (Path (store file r))) (Imports file) = Imports file"
    by (simp add: list_all_iff filter_id_conv)
  show ?thesis
    using a by (auto simp: removals_def Imports_reconciled Decls_reconciled b)
qed

lemma removals_bounds: "0 \<le> removals file \<and> removals file \<le> 1 + int (length (Decls file))"
  using length_filter_le [of "shrinks (store file)" "Decls file"]
  by (simp add: removals_def del: length_filter_le)

lemma decl_subseq_reconciled: "decl_subseq (reconciled_decl st d) d"
  by (cases d) simp_all

lemma rewriteImports_Inr:
  "rewriteImports file = Inr (file', n) \<Longrightarrow>
     well_typed file \<and> file' = reconciled file \<and> n = removals file"
  by (simp add: rewriteImports_eq split: if_splits)

subsection \<open>The example files\<close>

lemma store_ex_simps:
  "store_ex 0 = spec0" "store_ex 1 = spec1" "store_ex 2 = spec2" "store_ex 3 = spec3"
  "store_ex 4 = spec4" "store_ex 5 = spec5" "store_ex (Suc 0) = spec1"
  by (simp_all add: store_ex_def)

lemma is_testify_ex:
  "\<not> is_testify (Path spec0)" "is_testify (Path spec1)" "\<not> is_testify (Path spec2)"
  "is_testify (Path spec3)" "\<not> is_testify (Path spec4)" "is_testify (Path spec5)"
  by (simp_all add: is_testify_def Contains_def spec0_def spec1_def spec2_def spec3_def
      spec4_def spec5_def)

lemma aliased_ex:
  "aliased spec0 = spec0" "aliased spec2 = spec2\<lparr>Name := Some ''gexpect''\<rparr>"
  "aliased spec4 = spec4\<lparr>Name := Some ''gassert''\<rparr>"
  by (simp_all add: aliased_def Contains_def spec0_def spec2_def spec4_def)

lemma well_typed_ex:
  "well_typed file_ex" "well_typed file_one" "well_typed file_alias" "well_typed file_loose"
  by (simp_all add: well_typed_def file_ex_def file_one_def file_alias_def file_loose_def)

lemma removals_ex:
  "removals file_ex = 2" "removals file_one = 2" "removals file_alias = 0"
  "removals file_loose = 2"
  by (simp_all add: removals_def file_ex_def file_one_def file_alias_def file_loose_def
      store_ex_simps is_testify_ex)

lemma rewriteImports_ex:
  "rewriteImports file_ex = Inr (reconciled file_ex, 2)"
  "rewriteImports file_one = Inr (reconciled file_one, 2)"
  "rewriteImports file_alias = Inr (reconciled file_alias, 0)"
  "rewriteImports file_loose = Inr (reconciled file_loose, 2)"
  by (simp_all add: rewriteImports_eq well_typed_ex removals_ex)

lemma reconciled_ex:
  "Imports (reconciled file_ex) = [0, 2]"
  "Decls (reconciled file_ex) = [GenDecl IMPORT [ImportSpecPtr 0, ImportSpecPtr 2], FuncDecl ''TestA'']"
  "store (reconciled file_ex) 0 = spec0"
  "store (reconciled file_ex) 2 = spec2\<lparr>Name := Some ''gexpect''\<rparr>"
  by (simp_all add: reconciled_def file_ex_def store_ex_simps is_testify_ex alias_refs_def
      aliased_ex)

lemma reconciled_alias:
  "Imports (reconciled file_alias) = [0, 2]"
  "Decls (reconciled file_alias) = Decls file_alias"
  "store (reconciled file_alias) 2 = spec2\<lparr>Name := Some ''gexpect''\<rparr>"
  "store file_alias 2 = spec2"
  by (simp_all add: reconciled_def file_alias_def store_ex_simps is_testify_ex alias_refs_def
      aliased_ex)

lemma reconciled_loose:
  "Imports (reconciled file_loose) = [0, 4]"
  "Decls (reconciled file_loose) = [GenDecl IMPORT [ImportSpecPtr 0, ImportSpecPtr 4], FuncDecl ''TestD'']"
  "store (reconciled file_loose) 0 = spec0"
  "store (reconciled file_loose) 4 = spec4\<lparr>Name := Some ''gassert''\<rparr>"
  "store (reconciled file_loose) 5 = spec5"
  by (simp_all add: reconciled_def file_loose_def store_ex_simps is_testify_ex alias_refs_def
      aliased_ex)

subsection \<open>The claims about the reconciler\<close>

text \<open>
  C2. Let a file be well typed and let \<open>file.Imports\<close> hold the same pointers as the
  import declarations of \<open>file.Decls\<close>, as go/parser builds it and the transformers keep
  it. Then \<open>rewriteImports\<close> returns, and in the file it leaves the import list and the
  import declarations hold the same pointers, so they describe the same set of paths
  with the same aliases; no path in either is a testify path; and if the two
  representations were in the same order before the pass they are entry by entry equal
  after it.
\<close>

theorem rewriteImports_representations_agree:
  assumes "well_typed file" and "set (Imports file) = set (decl_imports (Decls file))"
  shows "case rewriteImports file of
           Inl err \<Rightarrow> False
         | Inr (file', n) \<Rightarrow>
             set (Imports file') = set (decl_imports (Decls file'))
           \<and> set (described file' (Imports file')) =
               set (described file' (decl_imports (Decls file')))
           \<and> (\<forall>r \<in> set (Imports file'). \<not> is_testify (Path (store file' r)))
           \<and> (\<forall>r \<in> set (decl_imports (Decls file')). \<not> is_testify (Path (store file' r)))
           \<and> (Imports file = decl_imports (Decls file) \<longrightarrow>
                described file' (Imports file') = described file' (decl_imports (Decls file')))"
proof -
  let ?f = "reconciled file"
  have refs: "set (Imports ?f) = set (decl_imports (Decls ?f))"
    using assms(2) by (simp add: Imports_reconciled Decls_reconciled decl_imports_reconciled)
  then have desc: "set (described ?f (Imports ?f)) = set (described ?f (decl_imports (Decls ?f)))"
    by (simp add: described_def)
  have clean: "\<forall>r \<in> set (Imports ?f). \<not> is_testify (Path (store ?f r))"
    by (simp add: Imports_reconciled Path_reconciled)
  have clean': "\<forall>r \<in> set (decl_imports (Decls ?f)). \<not> is_testify (Path (store ?f r))"
    by (simp add: Decls_reconciled decl_imports_reconciled Path_reconciled)
  have ord: "Imports file = decl_imports (Decls file) \<longrightarrow>
      described ?f (Imports ?f) = described ?f (decl_imports (Decls ?f))"
    by (simp add: Imports_reconciled Decls_reconciled decl_imports_reconciled)
  from refs desc clean clean' ord show ?thesis
    by (simp add: rewriteImports_eq assms(1))
qed

theorem rewriteImports_representations_agree_witness:
  "well_typed file_ex \<and> set (Imports file_ex) = set (decl_imports (Decls file_ex))
   \<and> rewriteImports file_ex = Inr (reconciled file_ex, 2)
   \<and> described (reconciled file_ex) (Imports (reconciled file_ex)) =
       [(Path spec0, None), (Path spec2, Some ''gexpect'')]
   \<and> described (reconciled file_ex) (decl_imports (Decls (reconciled file_ex))) =
       [(Path spec0, None), (Path spec2, Some ''gexpect'')]"
proof -
  have h: "set (Imports file_ex) = set (decl_imports (Decls file_ex))"
    by (simp add: file_ex_def)
  have "described (reconciled file_ex) (Imports (reconciled file_ex)) =
      described (reconciled file_ex) (decl_imports (Decls (reconciled file_ex)))"
    using rewriteImports_representations_agree [OF well_typed_ex(1) h]
    by (simp add: rewriteImports_ex) (simp add: file_ex_def)
  then show ?thesis
    using h by (simp add: well_typed_ex rewriteImports_ex reconciled_ex described_def spec0_def)
qed

text \<open>
  C3, as stated, fails: on a file whose only import is testify/assert the pass returns 2
  (one for \<open>file.Imports\<close>, one for the import declaration), and on a file where it only
  sets the alias of testutil/expect it returns 0 although it changed the alias.
\<close>

theorem rewriteImports_returns_two_counterexample:
  "rewriteImports file_one = Inr (reconciled file_one, 2)
   \<and> rewriteImports file_alias = Inr (reconciled file_alias, 0)
   \<and> Name (store file_alias 2) = None
   \<and> Name (store (reconciled file_alias) 2) = Some ''gexpect''"
  by (simp add: rewriteImports_ex reconciled_alias spec2_def)

text \<open>
  C3, amended. When \<open>rewriteImports\<close> returns, its result is the number of import
  representations that lost an entry: 1 if \<open>file.Imports\<close> held a testify path, plus 1
  for every import declaration that held one. It lies between 0 and the number of
  declarations plus 1, and it is 0 exactly when neither \<open>file.Imports\<close> nor
  \<open>file.Decls\<close> changed; a change of alias is not counted. The inline code of \<open>doMain\<close>
  adds the same number to the count it starts from.
\<close>

theorem rewriteImports_counts_shrunk_representations:
  assumes "rewriteImports file = Inr (file', n)"
  shows "n = (if list_all (\<lambda>r. \<not> is_testify (Path (store file r))) (Imports file)
              then 0 else 1)
             + int (length (filter (shrinks (store file)) (Decls file)))
       \<and> 0 \<le> n \<and> n \<le> 1 + int (length (Decls file))
       \<and> (n = 0 \<longleftrightarrow> Imports file' = Imports file \<and> Decls file' = Decls file)
       \<and> doMain_imports file m = Inr (file', m + n)"
proof -
  from assms have wt: "well_typed file" and f: "file' = reconciled file"
    and n: "n = removals file"
    by (simp_all add: rewriteImports_Inr)
  show ?thesis
    using removals_bounds [of "file"] removals_zero_iff [of "file"]
    by (simp add: f n wt doMain_imports_eq) (simp add: removals_def)
qed

theorem rewriteImports_counts_shrunk_representations_witness:
  "rewriteImports file_ex = Inr (reconciled file_ex, 2)
   \<and> (2::int) = 1 + int (length (filter (shrinks (store file_ex)) (Decls file_ex)))
   \<and> Imports (reconciled file_ex) \<noteq> Imports file_ex
   \<and> doMain_imports file_ex 3 = Inr (reconciled file_ex, 5)"
  using rewriteImports_counts_shrunk_representations [OF rewriteImports_ex(1), of 3]
  by (simp add: rewriteImports_ex reconciled_ex)
     (simp add: file_ex_def store_ex_simps is_testify_ex)

text \<open>
  C4. When \<open>rewriteImports\<close> has returned on a file, a second application to the file it
  left returns 0 and leaves that file as it is (import list, declarations and the
  objects of the import specs). The import list after one application is a subsequence
  of the import list before; each declaration holds a subsequence of the specs it held
  before, and the declarations keep their number and order.
\<close>

theorem rewriteImports_idempotent_order_preserving:
  assumes "rewriteImports file = Inr (file1, n1)"
  shows "rewriteImports file1 = Inr (file1, 0)
       \<and> subseq (Imports file1) (Imports file)
       \<and> list_all2 decl_subseq (Decls file1) (Decls file)
       \<and> subseq (decl_imports (Decls file1)) (decl_imports (Decls file))"
proof -
  from assms have wt: "well_typed file" and f: "file1 = reconciled file"
    by (simp_all add: rewriteImports_Inr)
  have again: "rewriteImports file1 = Inr (file1, 0)"
    by (simp add: f rewriteImports_eq well_typed_reconciled wt reconciled_idem
        removals_reconciled)
  have decls: "list_all2 decl_subseq (Decls file1) (Decls file)"
    by (simp add: f Decls_reconciled list_all2_map1 list_all2_same decl_subseq_reconciled)
  from again decls show ?thesis
    by (simp add: f Imports_reconciled Decls_reconciled decl_imports_reconciled)
qed

theorem rewriteImports_idempotent_order_preserving_witness:
  "rewriteImports file_ex = Inr (reconciled file_ex, 2)
   \<and> rewriteImports (reconciled file_ex) = Inr (reconciled file_ex, 0)
   \<and> Imports file_ex = [0, 1, 2, 3] \<and> Imports (reconciled file_ex) = [0, 2]
   \<and> subseq (Imports (reconciled file_ex)) (Imports file_ex)"
  using rewriteImports_idempotent_order_preserving [OF rewriteImports_ex(1)]
  by (simp add: rewriteImports_ex reconciled_ex) (simp add: file_ex_def)

text \<open>
  C10. When \<open>rewriteImports\<close> returns, \<open>file.Imports\<close> has lost exactly the entries
  whose quoted path contains \<open>/testify/require\<close> or \<open>/testify/assert\<close>, and so has every
  import declaration; no other declaration changed. No path changed. The alias of a
  spec that survives in an import declaration is \<open>gassert\<close> if its path contains
  \<open>github.com/grailbio/testutil/assert\<close>, else \<open>gexpect\<close> if its path contains
  \<open>github.com/grailbio/testutil/expect\<close> (whatever the alias was), else what it was; the
  alias of every other object is what it was. The inline code of \<open>doMain\<close> does the same.
\<close>

theorem rewriteImports_decided_by_substring:
  assumes "rewriteImports file = Inr (file', n)"
  shows "Imports file' =
           filter (\<lambda>r. \<not> (Contains (Path (store file r)) ''/testify/require''
                        \<or> Contains (Path (store file r)) ''/testify/assert'')) (Imports file)
       \<and> Decls file' = map (reconciled_decl (store file)) (Decls file)
       \<and> decl_imports (Decls file') =
           filter (\<lambda>r. \<not> (Contains (Path (store file r)) ''/testify/require''
                        \<or> Contains (Path (store file r)) ''/testify/assert''))
             (decl_imports (Decls file))
       \<and> (\<forall>r. Path (store file' r) = Path (store file r))
       \<and> (\<forall>r. Name (store file' r) =
             (if r \<in> set (decl_imports (Decls file')) then
                (if Contains (Path (store file r)) ''github.com/grailbio/testutil/assert''
                 then Some ''gassert''
                 else if Contains (Path (store file r)) ''github.com/grailbio/testutil/expect''
                 then Some ''gexpect''
                 else Name (store file r))
              else Name (store file r)))
       \<and> FileName file' = FileName file
       \<and> doMain_imports file m = Inr (file', m + n)"
proof -
  from assms have wt: "well_typed file" and f: "file' = reconciled file"
    and n: "n = removals file"
    by (simp_all add: rewriteImports_Inr)
  have names: "Name (store (reconciled file) r) =
             (if r \<in> set (decl_imports (Decls (reconciled file))) then
                (if Contains (Path (store file r)) ''github.com/grailbio/testutil/assert''
                 then Some ''gassert''
                 else if Contains (Path (store file r)) ''github.com/grailbio/testutil/expect''
                 then Some ''gexpect''
                 else Name (store file r))
              else Name (store file r))" for r
    by (simp add: store_reconciled alias_refs_def aliased_def)
  have fname: "FileName (reconciled file) = FileName file"
    by (simp add: reconciled_def)
  show ?thesis
    unfolding f n
    using names fname
    by (simp add: Imports_reconciled Decls_reconciled decl_imports_reconciled Path_reconciled
        doMain_imports_eq wt is_testify_def)
qed

theorem rewriteImports_decided_by_substring_witness:
  "rewriteImports file_loose = Inr (reconciled file_loose, 2)
   \<and> Imports file_loose = [0, 4, 5] \<and> Imports (reconciled file_loose) = [0, 4]
   \<and> Path (store file_loose 5) = [CHR 0x22] @ ''example.com/x/testify/assertions'' @ [CHR 0x22]
   \<and> Name (store file_loose 4) = Some ''ta''
   \<and> Name (store (reconciled file_loose) 4) = Some ''gassert''
   \<and> doMain_imports file_loose 0 = Inr (reconciled file_loose, 2)"
  using rewriteImports_decided_by_substring [OF rewriteImports_ex(4), of 0]
  by (simp add: rewriteImports_ex reconciled_loose)
     (simp add: file_loose_def store_ex_simps spec4_def spec5_def)

section \<open>Proofs: the orchestrator\<close>

subsection \<open>The loops over files and packages\<close>

lemma FileName_reconciled: "FileName (reconciled file) = FileName file"
  by (simp add: reconciled_def)

lemma doMain_imports_shift:
  "doMain_imports file n =
     (case rewriteImports file of Inl err \<Rightarrow> Inl err | Inr (file', m) \<Rightarrow> Inr (file', n + m))"
  by (simp add: doMain_imports_eq rewriteImports_eq)

lemma rewriteImports_FileName:
  "rewriteImports file = Inr (file', m) \<Longrightarrow> FileName file' = FileName file"
  by (auto simp: rewriteImports_eq FileName_reconciled split: if_splits)

text \<open>The loop over the transformers threads the file through them and adds up what they
  return.\<close>

lemma apply_xforms_sum:
  "apply_xforms xforms pkg file n =
     (transformed xforms pkg file, n + sum_list (match_counts xforms pkg file))"
  by (induction xforms arbitrary: "file" n) (simp_all add: case_prod_beta)

text \<open>One step of the loop over files, by the outcome of the file.\<close>

lemma files_loop_Cons:
  "files_loop xforms pkg (file # files) w =
     (case mutated xforms pkg file of
        Inl err \<Rightarrow> (Inl err, w)
      | Inr (file', n) \<Rightarrow>
          if n = 0 then files_loop xforms pkg files w
          else
            (case WriteAST (FileName file') file'
                    (Fprint_stderr (''=== '' @ FileName file' @ '' ('' @ Sprintf_d n
                       @ '' matches)\<newline>'') w) of
               (Inl err, w) \<Rightarrow> (Inl err, w)
             | (Inr _, w) \<Rightarrow> files_loop xforms pkg files w))"
  by (simp add: mutated_def apply_xforms_sum rewriteImports_eq Let_def)

lemma doMain_files_Cons:
  "doMain_files xforms pkg (file # files) w =
     (case mutated xforms pkg file of
        Inl err \<Rightarrow> (Inl err, w)
      | Inr (file', n) \<Rightarrow>
          if n = 0 then doMain_files xforms pkg files w
          else
            (case WriteAST (FileName file') file'
                    (Fprint_stderr (''=== '' @ FileName file' @ '' ('' @ Sprintf_d n
                       @ '' matches)\<newline>'') w) of
               (Inl err, w) \<Rightarrow> (Inl err, w)
             | (Inr _, w) \<Rightarrow> doMain_files xforms pkg files w))"
  by (simp add: mutated_def apply_xforms_sum doMain_imports_eq FileName_reconciled Let_def)

declare files_loop.simps(2) [simp del] doMain_files.simps(2) [simp del]

lemma files_loop_doMain_files: "doMain_files xforms pkg files w = files_loop xforms pkg files w"
proof (induction files arbitrary: w)
  case Nil
  then show ?case by simp
next
  case (Cons f files)
  show ?case
    unfolding files_loop_Cons doMain_files_Cons
    by (simp add: Cons.IH split: sum.splits prod.splits)
qed

lemma WriteAST_cases:
  "WriteAST filename file w =
     (if unwritable w filename then (Inl (WriteError filename), w)
      else (Inr (), w\<lparr>ast_written := ast_written w @ [(filename, file)]\<rparr>))"
  by (simp add: WriteAST_def)

lemma files_loop_persisted:
  "files_loop xforms pkg files w = (Inr (), w') \<Longrightarrow>
     ast_written w' = ast_written w @ persisted xforms pkg files
     \<and> written w' = written w \<and> stdout w' = stdout w \<and> unwritable w' = unwritable w"
proof (induction files arbitrary: w)
  case Nil
  then show ?case by simp
next
  case (Cons f files)
  show ?case
  proof (cases "mutated xforms pkg f")
    case (Inl err)
    with Cons.prems show ?thesis
      by (simp add: files_loop_Cons)
  next
    case (Inr res)
    obtain file' n where res: "res = (file', n)" by (cases res)
    show ?thesis
    proof (cases "n = 0")
      case True
      with Cons.prems Inr res have "files_loop xforms pkg files w = (Inr (), w')"
        by (simp add: files_loop_Cons)
      from Cons.IH [OF this] show ?thesis
        using Inr res True by simp
    next
      case False
      let ?w = "Fprint_stderr (''=== '' @ FileName file' @ '' ('' @ Sprintf_d n
                  @ '' matches)\<newline>'') w"
      let ?w1 = "?w\<lparr>ast_written := ast_written ?w @ [(FileName file', file')]\<rparr>"
      from Cons.prems Inr res False
      have ok: "\<not> unwritable ?w (FileName file')"
        and rest: "files_loop xforms pkg files ?w1 = (Inr (), w')"
        by (auto simp: files_loop_Cons WriteAST_cases split: if_splits)
      from Cons.IH [OF rest] show ?thesis
        using Inr res False by (simp add: Fprint_stderr_def)
    qed
  qed
qed

lemma packages_loop_filter:
  "packages_loop xforms pkgs w = packages_loop xforms (filter (\<lambda>p. \<not> skipped p) pkgs) w"
proof (induction pkgs arbitrary: w)
  case Nil
  then show ?case by simp
next
  case (Cons pkg pkgs)
  show ?case
    by (simp add: skipped_def Cons.IH Let_def split: prod.splits sum.splits)
qed

lemma packages_loop_persisted:
  "packages_loop xforms pkgs w = (Inr (), w') \<Longrightarrow>
     ast_written w' = ast_written w
       @ concat (map (\<lambda>p. persisted xforms p (Files p)) (filter (\<lambda>p. \<not> skipped p) pkgs))
     \<and> written w' = written w \<and> stdout w' = stdout w \<and> unwritable w' = unwritable w"
proof (induction pkgs arbitrary: w)
  case Nil
  then show ?case by simp
next
  case (Cons pkg pkgs)
  show ?case
  proof (cases "skipped pkg")
    case True
    with Cons.prems have "packages_loop xforms pkgs w = (Inr (), w')"
      by (simp add: skipped_def)
    from Cons.IH [OF this] show ?thesis
      using True by simp
  next
    case False
    let ?w = "Fprint_stderr (''=== Package '' @ PkgPath pkg @ '' (''
                    @ Sprintf_d (int (length (Files pkg))) @ '' files)\<newline>'') w"
    obtain r w1 where f: "files_loop xforms pkg (Files pkg) ?w = (r, w1)"
      by (cases "files_loop xforms pkg (Files pkg) ?w")
    with Cons.prems False have r: "r = Inr ()"
      and rest: "packages_loop xforms pkgs w1 = (Inr (), w')"
      by (auto simp: skipped_def Let_def split: sum.splits)
    from files_loop_persisted [OF f [unfolded r]] Cons.IH [OF rest] show ?thesis
      using False by (simp add: Fprint_stderr_def)
  qed
qed

lemma isTemplate_iff: "isTemplate pkg templates \<longleftrightarrow> addr pkg \<in> set (map addr templates)"
  by (induction templates) auto

lemma doMain_packages_filter:
  "doMain_packages xforms templates pkgs w =
     doMain_packages xforms templates (filter (\<lambda>p. \<not> untestify_skipped templates p) pkgs) w"
proof (induction pkgs arbitrary: w)
  case Nil
  then show ?case by simp
next
  case (Cons pkg pkgs)
  show ?case
    by (simp add: untestify_skipped_def Contains_def isTemplate_iff Cons.IH Let_def
        split: prod.splits sum.splits)
qed

lemma doMain_packages_persisted:
  "doMain_packages xforms templates pkgs w = (Inr (), w') \<Longrightarrow>
     ast_written w' = ast_written w
       @ concat (map (\<lambda>p. persisted xforms p (Files p))
           (filter (\<lambda>p. \<not> untestify_skipped templates p) pkgs))
     \<and> stdout w' = stdout w
       @ map (\<lambda>p. ''Handel package '' @ PkgPath p @ ''\<newline>'')
           (filter (\<lambda>p. \<not> untestify_skipped templates p) pkgs)
     \<and> written w' = written w \<and> unwritable w' = unwritable w"
proof (induction pkgs arbitrary: w)
  case Nil
  then show ?case by simp
next
  case (Cons pkg pkgs)
  show ?case
  proof (cases "untestify_skipped templates pkg")
    case True
    with Cons.prems have "doMain_packages xforms templates pkgs w = (Inr (), w')"
      by (auto simp: untestify_skipped_def Contains_def isTemplate_iff split: if_splits)
    from Cons.IH [OF this] show ?thesis
      using True by simp
  next
    case False
    let ?w = "Print_stdout (''Handel package '' @ PkgPath pkg @ ''\<newline>'') w"
    obtain r w1 where f: "files_loop xforms pkg (Files pkg) ?w = (r, w1)"
      by (cases "files_loop xforms pkg (Files pkg) ?w")
    with Cons.prems False have r: "r = Inr ()"
      and rest: "doMain_packages xforms templates pkgs w1 = (Inr (), w')"
      by (auto simp: untestify_skipped_def Contains_def isTemplate_iff Let_def
          files_loop_doMain_files split: sum.splits if_splits)
    from files_loop_persisted [OF f [unfolded r]] Cons.IH [OF rest] show ?thesis
      using False by (simp add: Print_stdout_def)
  qed
qed

subsection \<open>Every generated package name carries the marker\<close>

lemma HasPrefix_append: "HasPrefix (p @ s) p"
  by (induction p) simp_all

lemma Index_prefix: "Index (p @ s) p = 0"
proof (cases "p @ s")
  case Nil
  then show ?thesis by simp
next
  case (Cons c cs)
  have "HasPrefix (p @ s) p" by (rule HasPrefix_append)
  with Cons show ?thesis by simp
qed

lemma Contains_prefix: "Contains (p @ s) p"
  by (simp add: Contains_def Index_prefix)

lemma length_itoa: "0 < k \<Longrightarrow> n < 10 ^ k \<Longrightarrow> length (itoa n) \<le> k"
proof (induction k arbitrary: n)
  case 0
  then show ?case by simp
next
  case (Suc k)
  show ?case
  proof (cases "n < 10")
    case True
    then show ?thesis by (simp add: itoa.simps [of n])
  next
    case False
    with Suc.prems have k: "0 < k" by (cases k) simp_all
    from Suc.prems have "n div 10 < 10 ^ k" by (simp add: less_mult_imp_div_less mult.commute)
    from Suc.IH [OF k this] False show ?thesis by (simp add: itoa.simps [of n])
  qed
qed

lemma replicate_3: "3 \<le> k \<Longrightarrow> replicate k c = [c, c, c] @ replicate (k - 3) c"
  by (simp add: numeral_3_eq_3 flip: replicate_Suc replicate_append_same)

lemma template000: "i < 100000 \<Longrightarrow> Contains (''template'' @ Sprintf_0d 8 i) ''template000''"
proof -
  assume "i < 100000"
  then have "length (itoa i) \<le> 5"
    using length_itoa [of 5 i] by simp
  then have "replicate (8 - length (itoa i)) (CHR ''0'')
      = ''000'' @ replicate (8 - length (itoa i) - 3) (CHR ''0'')"
    by (intro replicate_3) simp
  then have "''template'' @ Sprintf_0d 8 i
      = ''template000'' @ replicate (8 - length (itoa i) - 3) (CHR ''0'') @ itoa i"
    by (simp add: Sprintf_0d_def)
  then show ?thesis
    by (simp only: Contains_prefix)
qed

lemma template0: "i < 1000 \<Longrightarrow> Contains (''template'' @ Sprintf_0d 4 i) ''template0''"
proof -
  assume "i < 1000"
  then have "length (itoa i) \<le> 3"
    using length_itoa [of 3 i] by simp
  then obtain k where "4 - length (itoa i) = Suc k"
    by (cases "4 - length (itoa i)") simp_all
  then have "''template'' @ Sprintf_0d 4 i = ''template0'' @ replicate k (CHR ''0'') @ itoa i"
    by (simp add: Sprintf_0d_def)
  then show ?thesis
    by (simp only: Contains_prefix)
qed

subsection \<open>The loop that builds the transformers\<close>

lemma untestify_xforms_loop_templates:
  "untestify_xforms_loop env fl iprog nTemplate i (xs, ts) = Inr (xforms, templates) \<Longrightarrow>
     templates = ts @ drop i (take nTemplate (Created iprog))"
proof (induction "nTemplate - i" arbitrary: i xs ts)
  case 0
  then show ?case
    by (simp add: untestify_xforms_loop.simps [of env fl iprog nTemplate i])
next
  case (Suc m)
  then have lt: "i < nTemplate" by simp
  show ?case
  proof (cases "i < length (Created iprog)")
    case False
    with Suc.prems lt show ?thesis
      by (simp add: untestify_xforms_loop.simps [of env fl iprog nTemplate i])
  next
    case True
    let ?t = "Created iprog ! i"
    from Suc.prems lt True obtain file0 rest xform
      where "Files ?t = file0 # rest"
        and "NewTransformer env ?t file0 (verboseFlag fl) = Inr xform"
        and rec: "untestify_xforms_loop env fl iprog nTemplate (i + 1) (xs @ [xform], ts @ [?t])
          = Inr (xforms, templates)"
      by (auto simp: untestify_xforms_loop.simps [of env fl iprog nTemplate i] Let_def
          split: list.splits sum.splits)
    have m: "m = nTemplate - (i + 1)" using Suc.hyps(2) by simp
    have "drop i (take nTemplate (Created iprog))
        = ?t # drop (i + 1) (take nTemplate (Created iprog))"
      using lt True by (simp add: Cons_nth_drop_Suc [symmetric])
    with Suc.hyps(1) [OF m rec] show ?thesis by simp
  qed
qed

lemma xforms_loop_ok:
  assumes "nTemplate \<le> length (Created iprog)"
    and "\<forall>j < nTemplate. \<exists>file0 rest. Files (Created iprog ! j) = file0 # rest
           \<and> NewTransformer env (Created iprog ! j) file0 (verboseFlag fl) = Inr xf"
  shows "xforms_loop env fl iprog nTemplate i acc = Inr (acc @ replicate (nTemplate - i) xf)"
proof (induction "nTemplate - i" arbitrary: i acc)
  case 0
  then show ?case
    by (simp add: xforms_loop.simps [of env fl iprog nTemplate i])
next
  case (Suc m)
  then have lt: "i < nTemplate" by simp
  with assms obtain file0 rest where "i < length (Created iprog)"
    and "Files (Created iprog ! i) = file0 # rest"
    and "NewTransformer env (Created iprog ! i) file0 (verboseFlag fl) = Inr xf"
    by (metis less_le_trans)
  moreover have m: "m = nTemplate - (i + 1)" using Suc.hyps(2) by simp
  moreover have "nTemplate - i = Suc (nTemplate - (i + 1))" using lt by simp
  ultimately show ?case
    using lt Suc.hyps(1) [OF m, of "acc @ [xf]"]
    by (simp add: xforms_loop.simps [of env fl iprog nTemplate i] replicate_app_Cons_same)
qed

lemma untestify_xforms_loop_ok:
  assumes "nTemplate \<le> length (Created iprog)"
    and "\<forall>j < nTemplate. \<exists>file0 rest. Files (Created iprog ! j) = file0 # rest
           \<and> NewTransformer env (Created iprog ! j) file0 (verboseFlag fl) = Inr xf"
  shows "untestify_xforms_loop env fl iprog nTemplate i (xs, ts) =
           Inr (xs @ replicate (nTemplate - i) xf, ts @ drop i (take nTemplate (Created iprog)))"
proof (induction "nTemplate - i" arbitrary: i xs ts)
  case 0
  then show ?case
    by (simp add: untestify_xforms_loop.simps [of env fl iprog nTemplate i])
next
  case (Suc m)
  then have lt: "i < nTemplate" by simp
  with assms obtain file0 rest where len: "i < length (Created iprog)"
    and "Files (Created iprog ! i) = file0 # rest"
    and "NewTransformer env (Created iprog ! i) file0 (verboseFlag fl) = Inr xf"
    by (metis less_le_trans)
  moreover have m: "m = nTemplate - (i + 1)" using Suc.hyps(2) by simp
  moreover have "nTemplate - i = Suc (nTemplate - (i + 1))" using lt by simp
  moreover have "drop i (take nTemplate (Created iprog))
        = Created iprog ! i # drop (i + 1) (take nTemplate (Created iprog))"
    using lt len by (simp add: Cons_nth_drop_Suc [symmetric])
  ultimately show ?case
    using lt Suc.hyps(1) [OF m, of "xs @ [xf]" "ts @ [Created iprog ! i]"]
    by (simp add: untestify_xforms_loop.simps [of env fl iprog nTemplate i]
        replicate_app_Cons_same)
qed

lemma apply_xforms_none: "apply_xforms (replicate k xform_none) pkg file n = (file, n)"
  by (induction k) (simp_all add: xform_none_def)

subsection \<open>The example runs\<close>

lemma length_substitutions: "length substitutions = 22" "length untestify_substitutions = 12"
  by (simp_all add: substitutions_def untestify_substitutions_def)

lemma world0_simps:
  "templateSeq world0 = 0" "CreatePkgs world0 = []" "written world0 = []"
  "ast_written world0 = []" "stderr world0 = []" "stdout world0 = []"
  "unwritable world0 p = False"
  by (simp_all add: world0_def)

lemma addAllTemplates_world0: "addAllTemplates substitutions world0 = (Inr 264, world1)"
proof -
  have "emit (units_from TemplateUnit 0 (triples substitutions)) world0 = (None, world1)"
    unfolding world1_def by (rule emit_all_writable) (simp add: world0_simps)
  then show ?thesis
    by (simp add: addAllTemplates_emit world0_simps length_substitutions)
qed

lemma untestify_addAllTemplates_world0:
  "untestify_addAllTemplates untestify_substitutions world0 = (Inr 144, untestify_world1)"
proof -
  have "emit (units_from untestify_TemplateUnit 0 (triples untestify_substitutions)) world0
      = (None, untestify_world1)"
    unfolding untestify_world1_def by (rule emit_all_writable) (simp add: world0_simps)
  then show ?thesis
    by (simp add: untestify_addAllTemplates_emit world0_simps length_substitutions)
qed

lemma names_world1:
  "map fst (CreatePkgs world1) = map (\<lambda>i. ''template'' @ Sprintf_0d 8 i) [0 ..< 264]"
proof -
  have "map fst (CreatePkgs world1) = map fst (units_from TemplateUnit 0 (triples substitutions))"
    by (simp add: world1_def registered_def world0_simps case_prod_beta comp_def)
  also have "\<dots> = map (\<lambda>i. ''template'' @ Sprintf_0d 8 i) [0 ..< 264]"
    using names_units_from [of TemplateUnit "\<lambda>i. ''template'' @ Sprintf_0d 8 i" 0
        "triples substitutions", OF fst_TemplateUnit]
    by (simp add: length_triples length_substitutions)
  finally show ?thesis .
qed

lemma names_untestify_world1:
  "map fst (CreatePkgs untestify_world1) = map (\<lambda>i. ''template'' @ Sprintf_0d 4 i) [0 ..< 144]"
proof -
  have "map fst (CreatePkgs untestify_world1)
      = map fst (units_from untestify_TemplateUnit 0 (triples untestify_substitutions))"
    by (simp add: untestify_world1_def registered_def world0_simps case_prod_beta comp_def)
  also have "\<dots> = map (\<lambda>i. ''template'' @ Sprintf_0d 4 i) [0 ..< 144]"
    using names_units_from [of untestify_TemplateUnit "\<lambda>i. ''template'' @ Sprintf_0d 4 i" 0
        "triples untestify_substitutions", OF fst_untestify_TemplateUnit]
    by (simp add: length_triples length_substitutions)
  finally show ?thesis .
qed

lemma world1_simps:
  "length (CreatePkgs world1) = 264" "ast_written world1 = []" "stderr world1 = []"
  "stdout world1 = []" "unwritable world1 p = False"
  by (simp_all add: world1_def registered_def world0_simps length_units_from length_triples
      length_substitutions)

lemma untestify_world1_simps:
  "length (CreatePkgs untestify_world1) = 144" "ast_written untestify_world1 = []"
  "stderr untestify_world1 = []" "stdout untestify_world1 = []"
  "unwritable untestify_world1 p = False"
  by (simp_all add: untestify_world1_def registered_def world0_simps length_units_from
      length_triples length_substitutions)

lemma length_created_from: "length (created_from specs) = length specs"
  by (simp add: created_from_def)

lemma created_from_nth:
  "j < length specs \<Longrightarrow>
     created_from specs ! j =
       \<lparr>addr = 100 + j, PkgPath = fst (specs ! j), PkgImports = [], Files = [template_file]\<rparr>"
  by (simp add: created_from_def nth_enumerate_eq case_prod_beta)

lemma created_from_path:
  assumes "p \<in> set (created_from specs)"
  shows "PkgPath p \<in> fst ` set specs \<and> 100 \<le> addr p"
proof -
  from assms obtain j where j: "j < length (created_from specs)" and p: "p = created_from specs ! j"
    by (auto simp: in_set_conv_nth)
  then have "j < length specs" by (simp add: length_created_from)
  with p show ?thesis
    by (simp add: created_from_nth)
qed

lemma created_world1_skipped: "p \<in> set (created_from (CreatePkgs world1)) \<Longrightarrow> skipped p"
proof -
  assume "p \<in> set (created_from (CreatePkgs world1))"
  then have "PkgPath p \<in> set (map fst (CreatePkgs world1))"
    using created_from_path [of p] by simp
  then obtain i where "i < 264" and "PkgPath p = ''template'' @ Sprintf_0d 8 i"
    unfolding names_world1 by auto
  then show ?thesis
    using template000 [of i] by (simp add: skipped_def)
qed

lemma example_paths:
  "\<not> Contains (PkgPath pkg_p) ''template000''" "\<not> Contains (PkgPath pkg_d) ''template000''"
  "Contains (PkgPath pkg_marker) ''template000''"
  "\<not> Index (PkgPath pkg_p) ''template0'' \<ge> 0" "\<not> Index (PkgPath pkg_d) ''template0'' \<ge> 0"
  "Index (PkgPath pkg_marker) ''template0'' \<ge> 0"
  by (simp_all add: Contains_def pkg_p_def pkg_d_def pkg_marker_def)

lemma mutated_none:
  "mutated (replicate k xform_none) pkg file =
     (if well_typed file then Inr (reconciled file, removals file) else Inl TypeAssertionFailed)"
  using apply_xforms_sum [of "replicate k xform_none" pkg "file" 0]
  by (simp add: mutated_def apply_xforms_none)

lemma mutated_ex:
  "mutated (replicate k xform_none) pkg file_ex = Inr (reconciled file_ex, 2)"
  "mutated (replicate k xform_none) pkg file_one = Inr (reconciled file_one, 2)"
  "mutated (replicate k xform_none) pkg file_alias = Inr (reconciled file_alias, 0)"
  "mutated (replicate k xform_none) pkg file_loose = Inr (reconciled file_loose, 2)"
  by (simp_all add: mutated_none well_typed_ex removals_ex)

lemma FileName_ex:
  "FileName (reconciled file_ex) = ''a_test.go''" "FileName (reconciled file_one) = ''b_test.go''"
  by (simp_all add: FileName_reconciled file_ex_def file_one_def)

lemma Sprintf_d_2: "Sprintf_d 2 = ''2''" "Sprintf_d 1 = ''1''"
  by code_simp+

lemma files_loop_p:
  assumes "\<not> unwritable w ''a_test.go''"
  shows "files_loop (replicate k xform_none) pkg_p (Files pkg_p) w =
     (Inr (), w\<lparr>ast_written := ast_written w @ [(''a_test.go'', reconciled file_ex)],
                stderr := stderr w @ [line_a]\<rparr>)"
  using assms
  by (simp add: pkg_p_def files_loop_Cons mutated_ex FileName_ex Sprintf_d_2 WriteAST_cases
      Fprint_stderr_def line_a_def)

lemma files_loop_p_fails:
  assumes "unwritable w ''a_test.go''"
  shows "files_loop (replicate k xform_none) pkg_p (Files pkg_p) w =
     (Inl (WriteError ''a_test.go''), w\<lparr>stderr := stderr w @ [line_a]\<rparr>)"
  using assms
  by (simp add: pkg_p_def files_loop_Cons mutated_ex FileName_ex Sprintf_d_2 WriteAST_cases
      Fprint_stderr_def line_a_def)

lemma files_loop_d:
  assumes "\<not> unwritable w ''b_test.go''"
  shows "files_loop (replicate k xform_none) pkg_d (Files pkg_d) w =
     (Inr (), w\<lparr>ast_written := ast_written w @ [(''b_test.go'', reconciled file_one)],
                stderr := stderr w @ [line_b]\<rparr>)"
  using assms
  by (simp add: pkg_d_def files_loop_Cons mutated_ex FileName_ex Sprintf_d_2 WriteAST_cases
      Fprint_stderr_def line_b_def)

lemma env_ok_simps:
  "FromArgs env_ok args = None"
  "Load env_ok w args = Inr \<lparr>Created = created_from (CreatePkgs w), Imported = [pkg_p],
                AllPackages = created_from (CreatePkgs w) @ [pkg_d, pkg_p]\<rparr>"
  "NewTransformer env_ok t f0 v = Inr xform_none"
  by (simp_all add: env_ok_def env_ex_def)

lemma xforms_loop_env_ok:
  "nT = length (CreatePkgs w) \<Longrightarrow>
   xforms_loop env_ok fl \<lparr>Created = created_from (CreatePkgs w), Imported = imp,
       AllPackages = allp\<rparr> nT 0 [] = Inr (replicate nT xform_none)"
  using xforms_loop_ok [of nT "\<lparr>Created = created_from (CreatePkgs w), Imported = imp,
       AllPackages = allp\<rparr>" env_ok fl xform_none 0 "[]"]
  by (simp add: length_created_from created_from_nth env_ok_simps)

lemma untestify_xforms_loop_env_ok:
  "nT = length (CreatePkgs w) \<Longrightarrow>
   untestify_xforms_loop env_ok fl \<lparr>Created = created_from (CreatePkgs w), Imported = imp,
       AllPackages = allp\<rparr> nT 0 ([], []) =
     Inr (replicate nT xform_none, created_from (CreatePkgs w))"
  using untestify_xforms_loop_ok [of nT "\<lparr>Created = created_from (CreatePkgs w), Imported = imp,
       AllPackages = allp\<rparr>" env_ok fl xform_none 0 "[]" "[]"]
  by (simp add: length_created_from created_from_nth env_ok_simps)

lemma packages_loop_created:
  "packages_loop xforms (created_from (CreatePkgs world1) @ pkgs) w = packages_loop xforms pkgs w"
proof -
  have "filter (\<lambda>p. \<not> skipped p) (created_from (CreatePkgs world1)) = []"
    by (simp add: filter_empty_conv created_world1_skipped)
  then show ?thesis
    using packages_loop_filter [of xforms "created_from (CreatePkgs world1) @ pkgs" w]
      packages_loop_filter [of xforms pkgs w]
    by simp
qed

lemma main_ok_run:
  "\<not> unwritable w ''a_test.go'' \<Longrightarrow> addAllTemplates substitutions w0 = (Inr 264, w) \<Longrightarrow>
   CreatePkgs w = CreatePkgs world1 \<Longrightarrow>
   main env_ok flags_none [''example.com/p''] w0 =
     (Returned, w\<lparr>ast_written := ast_written w @ [(''a_test.go'', reconciled file_ex)],
                   stderr := stderr w @ [line_p, line_a]\<rparr>)"
  by (simp add: main_def flags_none_def env_ok_simps xforms_loop_env_ok world1_simps
      InitialPackages_def packages_loop_created example_paths Let_def Fprint_stderr_def
      files_loop_p)
     (simp add: pkg_p_def line_p_def Sprintf_d_2)

lemma emit_frame:
  "emit us w = (r, w') \<Longrightarrow>
     ast_written w' = ast_written w \<and> stderr w' = stderr w \<and> stdout w' = stdout w"
  by (induction us arbitrary: w) (auto simp: registered_def split: if_splits)

lemma addAllTemplates_frame:
  "addAllTemplates subs w = (r, w') \<Longrightarrow>
     ast_written w' = ast_written w \<and> stderr w' = stderr w \<and> stdout w' = stdout w"
  using emit_frame [of "units_from TemplateUnit (templateSeq w) (triples subs)" w]
  by (auto simp: addAllTemplates_emit split: prod.splits option.splits)

lemma untestify_addAllTemplates_frame:
  "untestify_addAllTemplates subs w = (r, w') \<Longrightarrow>
     ast_written w' = ast_written w \<and> stderr w' = stderr w \<and> stdout w' = stdout w"
  using emit_frame [of "units_from untestify_TemplateUnit (templateSeq w) (triples subs)" w]
  by (auto simp: untestify_addAllTemplates_emit split: prod.splits option.splits)

lemma units_from_nth:
  "k < length ts \<Longrightarrow> units_from mk seq ts ! k = mk (seq + k) (ts ! k)"
proof (induction ts arbitrary: seq k)
  case Nil
  then show ?case by simp
next
  case (Cons t ts)
  then show ?case by (cases k) simp_all
qed

lemma path_TemplateUnit:
  "fst (snd (TemplateUnit seq t)) = dir @ ''/template'' @ Sprintf_0d 8 seq @ ''.go''"
  by (cases t, cases "family (fst t) (fst (snd t))")
     (simp add: TemplateUnit_def unit_text_def Let_def Join_def)

lemma path_units_from:
  "u \<in> set (units_from TemplateUnit seq ts) \<Longrightarrow> HasPrefix (fst (snd u)) dir"
proof -
  assume "u \<in> set (units_from TemplateUnit seq ts)"
  then obtain k where "k < length ts" and "u = units_from TemplateUnit seq ts ! k"
    by (auto simp: in_set_conv_nth length_units_from)
  then show ?thesis
    by (simp add: units_from_nth path_TemplateUnit HasPrefix_append)
qed

text \<open>Runs of \<open>main\<close> in the environment where loading succeeds.\<close>

lemma main_fail_run:
  "unwritable w ''a_test.go'' \<Longrightarrow> addAllTemplates substitutions w0 = (Inr 264, w) \<Longrightarrow>
   CreatePkgs w = CreatePkgs world1 \<Longrightarrow>
   main env_ok flags_none [''example.com/p''] w0 =
     (Panicked (WriteError ''a_test.go''), w\<lparr>stderr := stderr w @ [line_p, line_a]\<rparr>)"
  by (simp add: main_def flags_none_def env_ok_simps xforms_loop_env_ok world1_simps
      InitialPackages_def packages_loop_created example_paths Let_def Fprint_stderr_def
      files_loop_p_fails)
     (simp add: pkg_p_def line_p_def Sprintf_d_2)

lemma addAllTemplates_world_a:
  "addAllTemplates substitutions world_a =
     (Inr 264, registered (units_from TemplateUnit 0 (triples substitutions)) world_a)"
proof -
  let ?us = "units_from TemplateUnit 0 (triples substitutions)"
  have "\<forall>u \<in> set ?us. \<not> unwritable world_a (fst (snd u))"
  proof
    fix u assume "u \<in> set ?us"
    then have "HasPrefix (fst (snd u)) dir" by (rule path_units_from)
    then have "fst (snd u) \<noteq> ''a_test.go''" by (auto simp: dir_def)
    then show "\<not> unwritable world_a (fst (snd u))" by (simp add: world_a_def)
  qed
  then have "emit ?us world_a = (None, registered ?us world_a)"
    by (rule emit_all_writable)
  then show ?thesis
    by (simp add: addAllTemplates_emit world_a_def world0_simps length_substitutions)
qed

lemma main_world_a:
  "main env_ok flags_none [''example.com/p''] world_a =
     (Panicked (WriteError ''a_test.go''),
      (registered (units_from TemplateUnit 0 (triples substitutions)) world_a)
        \<lparr>stderr := [line_p, line_a]\<rparr>)"
proof -
  let ?w = "registered (units_from TemplateUnit 0 (triples substitutions)) world_a"
  have "unwritable ?w ''a_test.go''"
    by (simp add: unwritable_registered world_a_def)
  moreover have "CreatePkgs ?w = CreatePkgs world1"
    by (simp add: registered_def world1_def world_a_def world0_simps)
  moreover have "stderr ?w = []"
    by (simp add: registered_def world_a_def world0_simps)
  ultimately show ?thesis
    using main_fail_run [OF _ addAllTemplates_world_a] by simp
qed

lemma main_world0:
  "main env_ok flags_none [''example.com/p''] world0 =
     (Returned, world1\<lparr>ast_written := [(''a_test.go'', reconciled file_ex)],
                       stderr := [line_p, line_a]\<rparr>)"
  using main_ok_run [OF _ addAllTemplates_world0]
  by (simp add: world1_simps)

text \<open>The example transformers: a transformer that finds no call leaves the file as it
  is and returns 0.\<close>

lemma rewritten_idle: "FuncDecl b \<notin> set ds \<Longrightarrow> map (rewritten b a) ds = ds"
proof (induction ds)
  case Nil
  then show ?case by simp
next
  case (Cons d ds)
  then show ?case by (cases d) auto
qed

lemma xform_call_idle:
  "FuncDecl b \<notin> set (Decls file) \<Longrightarrow> xform_call b a pkg file = (file, 0)"
  by (auto simp: xform_call_def rewritten_idle filter_empty_conv)

lemma idle_replicate:
  "xf pkg file = (file, 0) \<Longrightarrow>
     transformed (replicate k xf) pkg file = file
     \<and> sum_list (match_counts (replicate k xf) pkg file) = 0"
  by (induction k) simp_all

lemma mutated_idle:
  assumes "xf pkg file = (file, 0)"
  shows "mutated (replicate k xf) pkg file =
     (if well_typed file then Inr (reconciled file, removals file) else Inl TypeAssertionFailed)"
  using idle_replicate [of xf pkg "file" k] assms by (simp add: mutated_def)

lemma xform_noerror_idle:
  "xform_noerror pkg file_ex = (file_ex, 0)" "xform_noerror pkg file_one = (file_one, 0)"
  "xform_noerror pkg file_alias = (file_alias, 0)" "xform_noerror pkg file_call = (file_call, 0)"
  by (simp_all add: xform_noerror_def xform_call_idle file_ex_def file_one_def file_alias_def
      file_call_def)

lemma xform_equal_idle:
  "xform_equal pkg file_ex = (file_ex, 0)" "xform_equal pkg file_one = (file_one, 0)"
  "xform_equal pkg file_alias = (file_alias, 0)"
  by (simp_all add: xform_equal_def xform_call_idle file_ex_def file_one_def file_alias_def)

lemma mutated_match:
  "mutated (replicate k xform_noerror) pkg file_ex = Inr (reconciled file_ex, 2)"
  "mutated (replicate k xform_noerror) pkg file_one = Inr (reconciled file_one, 2)"
  "mutated (replicate k xform_noerror) pkg file_alias = Inr (reconciled file_alias, 0)"
  by (simp_all add: mutated_idle xform_noerror_idle well_typed_ex removals_ex)

text \<open>The file of \<open>q\<close>: the first transformer rewrites two calls, the second one.\<close>

lemma xform_file_q:
  "snd (xform_noerror pkg file_q) = 2"
  "xform_noerror pkg (fst (xform_noerror pkg file_q)) = (fst (xform_noerror pkg file_q), 0)"
  "xform_equal pkg (fst (xform_noerror pkg file_q)) = (file_q_rewritten, 1)"
  by (simp_all add: xform_noerror_def xform_equal_def xform_call_def file_q_def
      file_q_rewritten_def)

lemma xform_file_call:
  "snd (xform_equal pkg file_call) = 1"
  "Decls (fst (xform_equal pkg file_call)) =
     [GenDecl IMPORT [ImportSpecPtr 0, ImportSpecPtr 2], FuncDecl ''gexpect.EQ(t, b, a)'']"
  "Imports (fst (xform_equal pkg file_call)) = [0, 2]"
  "store (fst (xform_equal pkg file_call)) = store_ex"
  "FileName (fst (xform_equal pkg file_call)) = ''e_test.go''"
  by (simp_all add: xform_equal_def xform_call_def file_call_def)

lemma file_q_rewritten_simps:
  "well_typed file_q_rewritten" "removals file_q_rewritten = 2"
  "FileName file_q_rewritten = ''q_test.go''"
  "well_typed (fst (xform_noerror pkg file_q))" "removals (fst (xform_noerror pkg file_q)) = 2"
  "FileName (fst (xform_noerror pkg file_q)) = ''q_test.go''"
  by (simp_all add: well_typed_def removals_def file_q_rewritten_def file_q_def xform_noerror_def
      xform_call_def store_ex_simps is_testify_ex)

lemma file_call_rewritten_simps:
  "well_typed (fst (xform_equal pkg file_call))" "removals (fst (xform_equal pkg file_call)) = 0"
  by (simp_all add: well_typed_def removals_def xform_file_call store_ex_simps is_testify_ex)

lemma transformed_file_q:
  "transformed (replicate (Suc k) xform_noerror) pkg file_q = fst (xform_noerror pkg file_q)"
  "sum_list (match_counts (replicate (Suc k) xform_noerror) pkg file_q) = 2"
  using idle_replicate [of xform_noerror pkg "fst (xform_noerror pkg file_q)" k]
  by (simp_all add: xform_file_q)

lemma mutated_file_q:
  "mutated (replicate (Suc k) xform_noerror) pkg file_q =
     Inr (reconciled (fst (xform_noerror pkg file_q)), 4)"
  by (simp add: mutated_def transformed_file_q file_q_rewritten_simps del: replicate_Suc)

lemma Sprintf_d_5: "Sprintf_d 5 = ''5''" "Sprintf_d 4 = ''4''"
  by code_simp+

lemma files_loop_p_match:
  assumes "\<not> unwritable w ''a_test.go''"
  shows "files_loop (replicate k xform_noerror) pkg_p (Files pkg_p) w =
     (Inr (), w\<lparr>ast_written := ast_written w @ [(''a_test.go'', reconciled file_ex)],
                stderr := stderr w @ [line_a]\<rparr>)"
  using assms
  by (simp add: pkg_p_def files_loop_Cons mutated_match FileName_ex Sprintf_d_2 WriteAST_cases
      Fprint_stderr_def line_a_def)

lemma files_loop_d_match:
  assumes "\<not> unwritable w ''b_test.go''"
  shows "files_loop (replicate k xform_noerror) pkg_d (Files pkg_d) w =
     (Inr (), w\<lparr>ast_written := ast_written w @ [(''b_test.go'', reconciled file_one)],
                stderr := stderr w @ [line_b]\<rparr>)"
  using assms
  by (simp add: pkg_d_def files_loop_Cons mutated_match FileName_ex Sprintf_d_2 WriteAST_cases
      Fprint_stderr_def line_b_def)

lemma env_match_simps:
  "FromArgs env_match args = None"
  "Load env_match w args = Inr \<lparr>Created = created_from (CreatePkgs w), Imported = [pkg_p],
                AllPackages = created_from (CreatePkgs w) @ [pkg_d, pkg_p]\<rparr>"
  "NewTransformer env_match t f0 v = Inr xform_noerror"
  by (simp_all add: env_match_def env_ok_def env_ex_def)

lemma untestify_xforms_loop_env_match:
  "nT = length (CreatePkgs w) \<Longrightarrow>
   untestify_xforms_loop env_match fl \<lparr>Created = created_from (CreatePkgs w), Imported = imp,
       AllPackages = allp\<rparr> nT 0 ([], []) =
     Inr (replicate nT xform_noerror, created_from (CreatePkgs w))"
  using untestify_xforms_loop_ok [of nT "\<lparr>Created = created_from (CreatePkgs w), Imported = imp,
       AllPackages = allp\<rparr>" env_match fl xform_noerror 0 "[]" "[]"]
  by (simp add: length_created_from created_from_nth env_match_simps)

text \<open>Runs of \<open>doMain\<close>.\<close>

lemma created_not_example:
  "p \<in> set (created_from specs) \<Longrightarrow> addr pkg_p \<noteq> addr p"
  "p \<in> set (created_from specs) \<Longrightarrow> addr pkg_d \<noteq> addr p"
  using created_from_path [of p specs] by (auto simp: pkg_p_def pkg_d_def)

lemma doMain_packages_created:
  "doMain_packages xforms (created_from specs) (created_from specs @ pkgs) w =
     doMain_packages xforms (created_from specs) pkgs w"
proof -
  have "filter (\<lambda>p. \<not> untestify_skipped (created_from specs) p) (created_from specs) = []"
    by (simp add: filter_empty_conv untestify_skipped_def)
  then show ?thesis
    using doMain_packages_filter [of xforms "created_from specs" "created_from specs @ pkgs" w]
      doMain_packages_filter [of xforms "created_from specs" pkgs w]
    by simp
qed

lemma isTemplate_example:
  "\<not> isTemplate pkg_p (created_from specs)" "\<not> isTemplate pkg_d (created_from specs)"
  by (auto simp: isTemplate_iff dest: created_not_example)

lemma doMain_transitive:
  "doMain env_match flags_transitive [''example.com/p''] world0 =
     (Returned, untestify_world1
        \<lparr>ast_written := [(''b_test.go'', reconciled file_one), (''a_test.go'', reconciled file_ex)],
         stderr := [line_b, line_a], stdout := [line_hd, line_hp]\<rparr>)"
  by (simp add: doMain_def flags_transitive_def untestify_addAllTemplates_world0 env_match_simps
      untestify_xforms_loop_env_match untestify_world1_simps doMain_packages_created
      example_paths isTemplate_example Let_def Print_stdout_def files_loop_doMain_files
      files_loop_p_match files_loop_d_match)
     (simp add: pkg_p_def pkg_d_def line_hp_def line_hd_def)

lemma doMain_plain:
  "doMain env_match flags_none [''example.com/p''] world0 =
     (Returned, untestify_world1
        \<lparr>ast_written := [(''a_test.go'', reconciled file_ex)],
         stderr := [line_a], stdout := [line_hp]\<rparr>)"
  by (simp add: doMain_def flags_none_def untestify_addAllTemplates_world0 env_match_simps
      untestify_xforms_loop_env_match untestify_world1_simps doMain_packages_created
      example_paths isTemplate_example Let_def Print_stdout_def files_loop_doMain_files
      files_loop_p_match InitialPackages_def)
     (simp add: pkg_p_def line_hp_def)

subsection \<open>What a loop has written when it stops\<close>

lemma files_loop_prefix:
  "files_loop xforms pkg files w = (r, w') \<Longrightarrow>
     \<exists>ps. prefix ps (persisted xforms pkg files) \<and> ast_written w' = ast_written w @ ps
       \<and> (r = Inr () \<longrightarrow> ps = persisted xforms pkg files)
       \<and> written w' = written w \<and> stdout w' = stdout w \<and> unwritable w' = unwritable w"
proof (induction files arbitrary: w)
  case Nil
  then show ?case by auto
next
  case (Cons f files)
  show ?case
  proof (cases "mutated xforms pkg f")
    case (Inl err)
    with Cons.prems have "r = Inl err" and "w' = w"
      by (simp_all add: files_loop_Cons)
    then show ?thesis by auto
  next
    case (Inr res)
    obtain file' n where res: "res = (file', n)" by (cases res)
    show ?thesis
    proof (cases "n = 0")
      case True
      with Cons.prems Inr res have "files_loop xforms pkg files w = (r, w')"
        by (simp add: files_loop_Cons)
      from Cons.IH [OF this] show ?thesis
        using Inr res True by simp
    next
      case False
      let ?w = "Fprint_stderr (''=== '' @ FileName file' @ '' ('' @ Sprintf_d n
                  @ '' matches)\<newline>'') w"
      let ?w1 = "?w\<lparr>ast_written := ast_written ?w @ [(FileName file', file')]\<rparr>"
      show ?thesis
      proof (cases "unwritable ?w (FileName file')")
        case True
        with Cons.prems Inr res False have "r = Inl (WriteError (FileName file'))" and "w' = ?w"
          by (simp_all add: files_loop_Cons WriteAST_cases)
        then show ?thesis
          by (auto simp: Fprint_stderr_def)
      next
        case ok: False
        with Cons.prems Inr res False have "files_loop xforms pkg files ?w1 = (r, w')"
          by (simp add: files_loop_Cons WriteAST_cases)
        from Cons.IH [OF this] obtain ps where
          "prefix ps (persisted xforms pkg files)"
          "ast_written w' = ast_written ?w1 @ ps"
          "r = Inr () \<longrightarrow> ps = persisted xforms pkg files"
          "written w' = written ?w1" "stdout w' = stdout ?w1" "unwritable w' = unwritable ?w1"
          by blast
        then show ?thesis
          using Inr res False
          by (intro exI [of _ "(FileName file', file') # ps"]) (simp add: Fprint_stderr_def)
      qed
    qed
  qed
qed

lemma packages_loop_prefix:
  "packages_loop xforms pkgs w = (r, w') \<Longrightarrow>
     \<exists>ps. prefix ps (concat (map (\<lambda>p. persisted xforms p (Files p))
                               (filter (\<lambda>p. \<not> skipped p) pkgs)))
       \<and> ast_written w' = ast_written w @ ps
       \<and> (r = Inr () \<longrightarrow> ps = concat (map (\<lambda>p. persisted xforms p (Files p))
                                          (filter (\<lambda>p. \<not> skipped p) pkgs)))
       \<and> written w' = written w \<and> stdout w' = stdout w \<and> unwritable w' = unwritable w"
proof (induction pkgs arbitrary: w)
  case Nil
  then show ?case by auto
next
  case (Cons pkg pkgs)
  show ?case
  proof (cases "skipped pkg")
    case True
    with Cons.prems have "packages_loop xforms pkgs w = (r, w')"
      by (simp add: skipped_def)
    from Cons.IH [OF this] show ?thesis
      using True by simp
  next
    case False
    let ?w = "Fprint_stderr (''=== Package '' @ PkgPath pkg @ '' (''
                    @ Sprintf_d (int (length (Files pkg))) @ '' files)\<newline>'') w"
    obtain r1 w1 where f: "files_loop xforms pkg (Files pkg) ?w = (r1, w1)"
      by (cases "files_loop xforms pkg (Files pkg) ?w")
    from files_loop_prefix [OF f] obtain ps where ps:
      "prefix ps (persisted xforms pkg (Files pkg))" "ast_written w1 = ast_written ?w @ ps"
      "r1 = Inr () \<longrightarrow> ps = persisted xforms pkg (Files pkg)"
      "written w1 = written ?w" "stdout w1 = stdout ?w" "unwritable w1 = unwritable ?w"
      by blast
    show ?thesis
    proof (cases r1)
      case (Inl err)
      with Cons.prems False f have "r = Inl err" and "w' = w1"
        by (simp_all add: skipped_def Let_def)
      with ps False show ?thesis
        by (intro exI [of _ ps]) (simp add: Fprint_stderr_def)
    next
      case (Inr u)
      with Cons.prems False f have "packages_loop xforms pkgs w1 = (r, w')"
        by (simp add: skipped_def Let_def)
      from Cons.IH [OF this] obtain qs where
        "prefix qs (concat (map (\<lambda>p. persisted xforms p (Files p))
                               (filter (\<lambda>p. \<not> skipped p) pkgs)))"
        "ast_written w' = ast_written w1 @ qs"
        "r = Inr () \<longrightarrow> qs = concat (map (\<lambda>p. persisted xforms p (Files p))
                                          (filter (\<lambda>p. \<not> skipped p) pkgs))"
        "written w' = written w1" "stdout w' = stdout w1" "unwritable w' = unwritable w1"
        by blast
      with ps Inr False show ?thesis
        by (intro exI [of _ "persisted xforms pkg (Files pkg) @ qs"])
           (simp add: Fprint_stderr_def)
    qed
  qed
qed

lemma doMain_packages_prefix:
  "doMain_packages xforms templates pkgs w = (r, w') \<Longrightarrow>
     \<exists>ps. prefix ps (concat (map (\<lambda>p. persisted xforms p (Files p))
                               (filter (\<lambda>p. \<not> untestify_skipped templates p) pkgs)))
       \<and> ast_written w' = ast_written w @ ps
       \<and> (r = Inr () \<longrightarrow> ps = concat (map (\<lambda>p. persisted xforms p (Files p))
                                   (filter (\<lambda>p. \<not> untestify_skipped templates p) pkgs)))
       \<and> written w' = written w \<and> unwritable w' = unwritable w"
proof (induction pkgs arbitrary: w)
  case Nil
  then show ?case by auto
next
  case (Cons pkg pkgs)
  show ?case
  proof (cases "untestify_skipped templates pkg")
    case True
    with Cons.prems have "doMain_packages xforms templates pkgs w = (r, w')"
      by (auto simp: untestify_skipped_def Contains_def isTemplate_iff split: if_splits)
    from Cons.IH [OF this] show ?thesis
      using True by simp
  next
    case False
    let ?w = "Print_stdout (''Handel package '' @ PkgPath pkg @ ''\<newline>'') w"
    obtain r1 w1 where f: "files_loop xforms pkg (Files pkg) ?w = (r1, w1)"
      by (cases "files_loop xforms pkg (Files pkg) ?w")
    from files_loop_prefix [OF f] obtain ps where ps:
      "prefix ps (persisted xforms pkg (Files pkg))" "ast_written w1 = ast_written ?w @ ps"
      "r1 = Inr () \<longrightarrow> ps = persisted xforms pkg (Files pkg)"
      "written w1 = written ?w" "unwritable w1 = unwritable ?w"
      by blast
    from False have ns: "\<not> Index (PkgPath pkg) ''template0'' \<ge> 0" "\<not> isTemplate pkg templates"
      by (simp_all add: untestify_skipped_def Contains_def isTemplate_iff)
    show ?thesis
    proof (cases r1)
      case (Inl err)
      with Cons.prems ns f have "r = Inl err" and "w' = w1"
        by (simp_all add: Let_def files_loop_doMain_files)
      with ps False show ?thesis
        by (intro exI [of _ ps]) (simp add: Print_stdout_def)
    next
      case (Inr u)
      with Cons.prems ns f have "doMain_packages xforms templates pkgs w1 = (r, w')"
        by (simp add: Let_def files_loop_doMain_files)
      from Cons.IH [OF this] obtain qs where
        "prefix qs (concat (map (\<lambda>p. persisted xforms p (Files p))
                               (filter (\<lambda>p. \<not> untestify_skipped templates p) pkgs)))"
        "ast_written w' = ast_written w1 @ qs"
        "r = Inr () \<longrightarrow> qs = concat (map (\<lambda>p. persisted xforms p (Files p))
                                   (filter (\<lambda>p. \<not> untestify_skipped templates p) pkgs))"
        "written w' = written w1" "unwritable w' = unwritable w1"
        by blast
      with ps Inr False show ?thesis
        by (intro exI [of _ "persisted xforms pkg (Files pkg) @ qs"])
           (simp add: Print_stdout_def)
    qed
  qed
qed

subsection \<open>The claims about the orchestrator\<close>

text \<open>
  C5, as stated, fails: \<open>doMain\<close> ranges over the packages of the loaded program, and the
  loader loads the requested packages and the packages they import. In the example
  package \<open>q\<close> imports the requested package \<open>p\<close>; its file imports testify/assert and
  calls \<open>assert.NoError\<close> twice, which the transformers of the run rewrite, so the file
  would be written back with 4 matches if \<open>q\<close> were visited. The run with \<open>-transitive\<close>
  visits \<open>d\<close> (which \<open>p\<close> imports) and \<open>p\<close>, and never \<open>q\<close>.
\<close>

theorem transitive_skips_dependent_counterexample:
  "''example.com/p'' \<in> set (PkgImports pkg_q)
   \<and> Files pkg_q = [file_q]
   \<and> 1 \<in> set (Imports file_q) \<and> is_testify (Path (store file_q 1))
   \<and> FuncDecl ''assert.NoError(t, err)'' \<in> set (Decls file_q)
   \<and> match_counts [xform_noerror] pkg_q file_q = [2]
   \<and> untestify_xforms_loop env_match flags_transitive
         (projr (Load env_match untestify_world1 [''example.com/p''])) 144 0 ([], []) =
       Inr (replicate 144 xform_noerror, created_from (CreatePkgs untestify_world1))
   \<and> mutated (replicate 144 xform_noerror) pkg_q file_q =
       Inr (reconciled (transformed [xform_noerror] pkg_q file_q), 4)
   \<and> persisted (replicate 144 xform_noerror) pkg_q (Files pkg_q) =
       [(''q_test.go'', reconciled (transformed [xform_noerror] pkg_q file_q))]
   \<and> doMain env_match flags_transitive [''example.com/p''] world0 =
       (Returned, untestify_world1
          \<lparr>ast_written := [(''b_test.go'', reconciled file_one),
                           (''a_test.go'', reconciled file_ex)],
           stderr := [line_b, line_a], stdout := [line_hd, line_hp]\<rparr>)"
proof -
  have a: "''example.com/p'' \<in> set (PkgImports pkg_q)" "Files pkg_q = [file_q]"
    by (simp_all add: pkg_q_def)
  have b: "1 \<in> set (Imports file_q)" "is_testify (Path (store file_q 1))"
    "FuncDecl ''assert.NoError(t, err)'' \<in> set (Decls file_q)"
    by (simp_all add: file_q_def store_ex_simps is_testify_ex)
  have c: "match_counts [xform_noerror] pkg_q file_q = [2]"
    by (simp add: xform_file_q)
  have d: "untestify_xforms_loop env_match flags_transitive
         (projr (Load env_match untestify_world1 [''example.com/p''])) 144 0 ([], []) =
       Inr (replicate 144 xform_noerror, created_from (CreatePkgs untestify_world1))"
    by (simp add: env_match_simps untestify_xforms_loop_env_match untestify_world1_simps)
  have e: "mutated (replicate 144 xform_noerror) pkg_q file_q =
       Inr (reconciled (transformed [xform_noerror] pkg_q file_q), 4)"
    using mutated_file_q [of 143 pkg_q] by simp
  have f: "persisted (replicate 144 xform_noerror) pkg_q (Files pkg_q) =
       [(''q_test.go'', reconciled (transformed [xform_noerror] pkg_q file_q))]"
    by (simp add: a e FileName_reconciled file_q_rewritten_simps)
  from a b c d e f doMain_transitive show ?thesis
    by blast
qed

text \<open>
  C5, amended. When \<open>doMain\<close> returns, the packages it has announced on standard output
  and whose files it has written back are exactly the packages of \<open>iprog.AllPackages\<close>
  when the transitive flag is set, and of \<open>iprog.InitialPackages()\<close> when it is not,
  in both cases without the packages that are skipped as templates. Whether a package
  imports a requested package plays no part.
\<close>

theorem doMain_visits_loaded_packages:
  assumes "doMain env fl args w = (Returned, w')"
  shows "\<exists>nTemplate w1 iprog xforms.
           untestify_addAllTemplates untestify_substitutions w = (Inr nTemplate, w1)
         \<and> Load env w1 args = Inr iprog
         \<and> untestify_xforms_loop env fl iprog nTemplate 0 ([], []) =
             Inr (xforms, take nTemplate (Created iprog))
         \<and> stdout w' = stdout w
             @ map (\<lambda>p. ''Handel package '' @ PkgPath p @ ''\<newline>'')
                 (filter (\<lambda>p. \<not> untestify_skipped (take nTemplate (Created iprog)) p)
                    (if transitiveFlag fl then AllPackages iprog else InitialPackages iprog))
         \<and> ast_written w' = ast_written w
             @ concat (map (\<lambda>p. persisted xforms p (Files p))
                 (filter (\<lambda>p. \<not> untestify_skipped (take nTemplate (Created iprog)) p)
                    (if transitiveFlag fl then AllPackages iprog else InitialPackages iprog)))"
proof -
  from assms obtain nTemplate w1 iprog xforms templates where
    t: "untestify_addAllTemplates untestify_substitutions w = (Inr nTemplate, w1)"
    and l: "Load env w1 args = Inr iprog"
    and x: "untestify_xforms_loop env fl iprog nTemplate 0 ([], []) = Inr (xforms, templates)"
    and p: "doMain_packages xforms templates
              (if transitiveFlag fl then AllPackages iprog else InitialPackages iprog) w1
            = (Inr (), w')"
    by (auto simp: doMain_def Let_def split: prod.splits sum.splits option.splits)
  from untestify_xforms_loop_templates [OF x]
  have ts: "templates = take nTemplate (Created iprog)" by simp
  from untestify_addAllTemplates_frame [OF t]
  have "ast_written w1 = ast_written w" and "stdout w1 = stdout w" by simp_all
  with doMain_packages_persisted [OF p] t l x show ?thesis
    unfolding ts by (intro exI [of _ nTemplate] exI [of _ w1] exI [of _ iprog] exI [of _ xforms])
      simp
qed

theorem doMain_visits_loaded_packages_witness:
  "doMain env_match flags_none [''example.com/p''] world0 =
       (Returned, untestify_world1
          \<lparr>ast_written := [(''a_test.go'', reconciled file_ex)],
           stderr := [line_a], stdout := [line_hp]\<rparr>)
   \<and> (\<exists>nTemplate w1 iprog xforms.
           untestify_addAllTemplates untestify_substitutions world0 = (Inr nTemplate, w1)
         \<and> Load env_match w1 [''example.com/p''] = Inr iprog
         \<and> untestify_xforms_loop env_match flags_none iprog nTemplate 0 ([], []) =
             Inr (xforms, take nTemplate (Created iprog))
         \<and> [line_hp] =
             map (\<lambda>p. ''Handel package '' @ PkgPath p @ ''\<newline>'')
                 (filter (\<lambda>p. \<not> untestify_skipped (take nTemplate (Created iprog)) p)
                    (InitialPackages iprog))
         \<and> [(''a_test.go'', reconciled file_ex)] =
             concat (map (\<lambda>p. persisted xforms p (Files p))
                 (filter (\<lambda>p. \<not> untestify_skipped (take nTemplate (Created iprog)) p)
                    (InitialPackages iprog))))
   \<and> doMain env_match flags_transitive [''example.com/p''] world0 =
       (Returned, untestify_world1
          \<lparr>ast_written := [(''b_test.go'', reconciled file_one),
                           (''a_test.go'', reconciled file_ex)],
           stderr := [line_b, line_a], stdout := [line_hd, line_hp]\<rparr>)
   \<and> (\<exists>nTemplate w1 iprog xforms.
           untestify_addAllTemplates untestify_substitutions world0 = (Inr nTemplate, w1)
         \<and> Load env_match w1 [''example.com/p''] = Inr iprog
         \<and> untestify_xforms_loop env_match flags_transitive iprog nTemplate 0 ([], []) =
             Inr (xforms, take nTemplate (Created iprog))
         \<and> [line_hd, line_hp] =
             map (\<lambda>p. ''Handel package '' @ PkgPath p @ ''\<newline>'')
                 (filter (\<lambda>p. \<not> untestify_skipped (take nTemplate (Created iprog)) p)
                    (AllPackages iprog))
         \<and> [(''b_test.go'', reconciled file_one), (''a_test.go'', reconciled file_ex)] =
             concat (map (\<lambda>p. persisted xforms p (Files p))
                 (filter (\<lambda>p. \<not> untestify_skipped (take nTemplate (Created iprog)) p)
                    (AllPackages iprog))))"
proof -
  have tf: "transitiveFlag flags_none = False" "transitiveFlag flags_transitive = True"
    by (simp_all add: flags_none_def flags_transitive_def)
  have plain: "\<exists>nTemplate w1 iprog xforms.
           untestify_addAllTemplates untestify_substitutions world0 = (Inr nTemplate, w1)
         \<and> Load env_match w1 [''example.com/p''] = Inr iprog
         \<and> untestify_xforms_loop env_match flags_none iprog nTemplate 0 ([], []) =
             Inr (xforms, take nTemplate (Created iprog))
         \<and> [line_hp] =
             map (\<lambda>p. ''Handel package '' @ PkgPath p @ ''\<newline>'')
                 (filter (\<lambda>p. \<not> untestify_skipped (take nTemplate (Created iprog)) p)
                    (InitialPackages iprog))
         \<and> [(''a_test.go'', reconciled file_ex)] =
             concat (map (\<lambda>p. persisted xforms p (Files p))
                 (filter (\<lambda>p. \<not> untestify_skipped (take nTemplate (Created iprog)) p)
                    (InitialPackages iprog)))"
    using doMain_visits_loaded_packages [OF doMain_plain]
    by (simp add: world0_simps tf)
  have trans: "\<exists>nTemplate w1 iprog xforms.
           untestify_addAllTemplates untestify_substitutions world0 = (Inr nTemplate, w1)
         \<and> Load env_match w1 [''example.com/p''] = Inr iprog
         \<and> untestify_xforms_loop env_match flags_transitive iprog nTemplate 0 ([], []) =
             Inr (xforms, take nTemplate (Created iprog))
         \<and> [line_hd, line_hp] =
             map (\<lambda>p. ''Handel package '' @ PkgPath p @ ''\<newline>'')
                 (filter (\<lambda>p. \<not> untestify_skipped (take nTemplate (Created iprog)) p)
                    (AllPackages iprog))
         \<and> [(''b_test.go'', reconciled file_one), (''a_test.go'', reconciled file_ex)] =
             concat (map (\<lambda>p. persisted xforms p (Files p))
                 (filter (\<lambda>p. \<not> untestify_skipped (take nTemplate (Created iprog)) p)
                    (AllPackages iprog)))"
    using doMain_visits_loaded_packages [OF doMain_transitive]
    by (simp add: world0_simps tf)
  from plain trans doMain_plain doMain_transitive show ?thesis
    by blast
qed

text \<open>
  C6, as stated, fails: a target package that is not a template unit, but whose path
  contains the marker, is skipped by both revisions although it has a file to rewrite.
\<close>

theorem marker_package_skipped_counterexample:
  "\<not> isTemplate pkg_marker []
   \<and> persisted [] pkg_marker (Files pkg_marker) = [(''b_test.go'', reconciled file_one)]
   \<and> packages_loop [] [pkg_marker] world0 = (Inr (), world0)
   \<and> doMain_packages [] [] [pkg_marker] world0 = (Inr (), world0)"
  using mutated_ex(2) [of 0 pkg_marker]
  by (simp add: example_paths)
     (simp add: pkg_marker_def FileName_reconciled file_one_def)

text \<open>
  C6, amended. In part\_000 the package loop skips a package if and only if its path
  contains \<open>template000\<close>; in untestify.go, if and only if its path contains \<open>template0\<close>
  or it is one of the template packages, which are the first \<open>nTemplate\<close> created
  packages. A skipped package has no effect on the run; any other package is announced
  and its files are processed. Every package name generated under a sequence number
  below 100000 contains \<open>template000\<close>, which covers the 264 units of the built-in
  catalog.
\<close>

theorem packages_skipped_by_marker:
  "packages_loop xforms pkgs w =
     packages_loop xforms (filter (\<lambda>p. \<not> Contains (PkgPath p) ''template000'') pkgs) w
   \<and> doMain_packages xforms templates pkgs w =
     doMain_packages xforms templates
       (filter (\<lambda>p. \<not> (Contains (PkgPath p) ''template0'' \<or> addr p \<in> set (map addr templates)))
          pkgs) w
   \<and> (\<not> Contains (PkgPath pkg) ''template000'' \<longrightarrow>
        packages_loop xforms (pkg # pkgs) w =
          (case files_loop xforms pkg (Files pkg)
                  (Fprint_stderr (''=== Package '' @ PkgPath pkg @ '' (''
                     @ Sprintf_d (int (length (Files pkg))) @ '' files)\<newline>'') w) of
             (Inl err, w) \<Rightarrow> (Inl err, w)
           | (Inr u, w) \<Rightarrow> packages_loop xforms pkgs w))
   \<and> (\<not> (Contains (PkgPath pkg) ''template0'' \<or> addr pkg \<in> set (map addr templates)) \<longrightarrow>
        doMain_packages xforms templates (pkg # pkgs) w =
          (case doMain_files xforms pkg (Files pkg)
                  (Print_stdout (''Handel package '' @ PkgPath pkg @ ''\<newline>'') w) of
             (Inl err, w) \<Rightarrow> (Inl err, w)
           | (Inr u, w) \<Rightarrow> doMain_packages xforms templates pkgs w))
   \<and> (\<forall>i < 100000. Contains (''template'' @ Sprintf_0d 8 i) ''template000'')
   \<and> (untestify_xforms_loop env fl iprog nTemplate 0 ([], []) = Inr (xforms', templates') \<longrightarrow>
        templates' = take nTemplate (Created iprog))"
proof -
  have a: "packages_loop xforms pkgs w =
     packages_loop xforms (filter (\<lambda>p. \<not> Contains (PkgPath p) ''template000'') pkgs) w"
    using packages_loop_filter [of xforms pkgs w] by (simp add: skipped_def)
  have b: "doMain_packages xforms templates pkgs w =
     doMain_packages xforms templates
       (filter (\<lambda>p. \<not> (Contains (PkgPath p) ''template0'' \<or> addr p \<in> set (map addr templates)))
          pkgs) w"
    using doMain_packages_filter [of xforms templates pkgs w]
    by (simp add: untestify_skipped_def)
  have c: "\<not> Contains (PkgPath pkg) ''template000'' \<longrightarrow>
        packages_loop xforms (pkg # pkgs) w =
          (case files_loop xforms pkg (Files pkg)
                  (Fprint_stderr (''=== Package '' @ PkgPath pkg @ '' (''
                     @ Sprintf_d (int (length (Files pkg))) @ '' files)\<newline>'') w) of
             (Inl err, w) \<Rightarrow> (Inl err, w)
           | (Inr u, w) \<Rightarrow> packages_loop xforms pkgs w)"
    by (simp add: Let_def)
  have d: "\<not> (Contains (PkgPath pkg) ''template0'' \<or> addr pkg \<in> set (map addr templates)) \<longrightarrow>
        doMain_packages xforms templates (pkg # pkgs) w =
          (case doMain_files xforms pkg (Files pkg)
                  (Print_stdout (''Handel package '' @ PkgPath pkg @ ''\<newline>'') w) of
             (Inl err, w) \<Rightarrow> (Inl err, w)
           | (Inr u, w) \<Rightarrow> doMain_packages xforms templates pkgs w)"
    by (simp add: Let_def Contains_def isTemplate_iff)
  have e: "\<forall>i < 100000. Contains (''template'' @ Sprintf_0d 8 i) ''template000''"
    using template000 by blast
  have f: "untestify_xforms_loop env fl iprog nTemplate 0 ([], []) = Inr (xforms', templates')
      \<longrightarrow> templates' = take nTemplate (Created iprog)"
  proof
    assume "untestify_xforms_loop env fl iprog nTemplate 0 ([], []) = Inr (xforms', templates')"
    from untestify_xforms_loop_templates [OF this]
    show "templates' = take nTemplate (Created iprog)" by simp
  qed
  from a b c d e f show ?thesis by blast
qed

theorem packages_skipped_by_marker_witness:
  "packages_loop [] [pkg_marker, pkg_p] world0 = packages_loop [] [pkg_p] world0
   \<and> doMain_packages [] [] [pkg_marker, pkg_p] world0 = doMain_packages [] [] [pkg_p] world0
   \<and> \<not> Contains (PkgPath pkg_p) ''template000''
   \<and> \<not> (Contains (PkgPath pkg_p) ''template0'' \<or> addr pkg_p \<in> set (map addr []))
   \<and> packages_loop [] [pkg_p] world0 =
       (Inr (), world0\<lparr>ast_written := [(''a_test.go'', reconciled file_ex)],
                       stderr := [line_p, line_a]\<rparr>)
   \<and> Contains (''template'' @ Sprintf_0d 8 263) ''template000''
   \<and> untestify_xforms_loop env_ok flags_none (projr (Load env_ok untestify_world1 [])) 144 0
         ([], []) =
       Inr (replicate 144 xform_none, created_from (CreatePkgs untestify_world1))
   \<and> created_from (CreatePkgs untestify_world1) =
       take 144 (Created (projr (Load env_ok untestify_world1 [])))"
proof -
  let ?iprog = "projr (Load env_ok untestify_world1 [])"
  note t = packages_skipped_by_marker [of "[]" "[pkg_marker, pkg_p]" world0 "[]" pkg_p env_ok
      flags_none ?iprog 144 "replicate 144 xform_none"
      "created_from (CreatePkgs untestify_world1)"]
  have fa: "filter (\<lambda>p. \<not> Contains (PkgPath p) ''template000'') [pkg_marker, pkg_p] = [pkg_p]"
    by (simp add: example_paths)
  have fb: "filter (\<lambda>p. \<not> (Contains (PkgPath p) ''template0'' \<or> addr p \<in> set (map addr [])))
      [pkg_marker, pkg_p] = [pkg_p]"
    by (simp add: example_paths Contains_def)
  from t have c1: "packages_loop [] [pkg_marker, pkg_p] world0 = packages_loop [] [pkg_p] world0"
    unfolding fa by blast
  from t have c2: "doMain_packages [] [] [pkg_marker, pkg_p] world0
      = doMain_packages [] [] [pkg_p] world0"
    unfolding fb by blast
  have c3: "\<not> Contains (PkgPath pkg_p) ''template000''"
    by (rule example_paths)
  have c4: "\<not> (Contains (PkgPath pkg_p) ''template0'' \<or> addr pkg_p \<in> set (map addr []))"
    by (simp add: example_paths Contains_def)
  have c5: "packages_loop [] [pkg_p] world0 =
       (Inr (), world0\<lparr>ast_written := [(''a_test.go'', reconciled file_ex)],
                       stderr := [line_p, line_a]\<rparr>)"
    using files_loop_p [of "Fprint_stderr line_p world0" 0]
    by (simp add: example_paths Let_def world0_simps Fprint_stderr_def)
       (simp add: pkg_p_def line_p_def Sprintf_d_2 world0_simps)
  from t have "\<forall>i < 100000. Contains (''template'' @ Sprintf_0d 8 i) ''template000''"
    by blast
  then have c6: "Contains (''template'' @ Sprintf_0d 8 263) ''template000''"
    by simp
  have c7: "untestify_xforms_loop env_ok flags_none ?iprog 144 0 ([], []) =
       Inr (replicate 144 xform_none, created_from (CreatePkgs untestify_world1))"
    by (simp add: env_ok_simps untestify_xforms_loop_env_ok untestify_world1_simps)
  with t have c8: "created_from (CreatePkgs untestify_world1) = take 144 (Created ?iprog)"
    by blast
  from c1 c2 c3 c4 c5 c6 c7 c8 show ?thesis by blast
qed

text \<open>
  C7. The loop over the transformers hands each transformer the file the one before it
  has left and adds up the counts they return. For one file the loop writes nothing and
  prints nothing when the sum of the transformers' counts and the reconciler's count is
  zero, and otherwise prints the report line with that sum and passes the mutated file
  to \<open>WriteAST\<close> under its file name. For a list of files, and for a list of packages,
  whatever the outcome of the loop, the files passed to \<open>WriteAST\<close> are an initial part
  of the list of the files with a non-zero sum (in order, each in its mutated form), and
  the whole of it when the loop returns; \<open>ioutil.WriteFile\<close> is not called. The same
  holds for the loops of untestify.go.
\<close>

theorem file_written_iff_count_nonzero:
  "apply_xforms xforms pkg file k =
     (transformed xforms pkg file, k + sum_list (match_counts xforms pkg file))
   \<and> files_loop xforms pkg [file] w =
     (let file1 = transformed xforms pkg file;
          n = sum_list (match_counts xforms pkg file) + removals file1
      in if \<not> well_typed file1 then (Inl TypeAssertionFailed, w)
         else if n = 0 then (Inr (), w)
         else WriteAST (FileName file1) (reconciled file1)
                (Fprint_stderr (''=== '' @ FileName file1 @ '' ('' @ Sprintf_d n
                   @ '' matches)\<newline>'') w))
   \<and> files_loop xforms pkg [file] w =
     (case mutated xforms pkg file of
        Inl err \<Rightarrow> (Inl err, w)
      | Inr (file', n) \<Rightarrow>
          if n = 0 then (Inr (), w)
          else WriteAST (FileName file') file'
                 (Fprint_stderr (''=== '' @ FileName file' @ '' ('' @ Sprintf_d n
                    @ '' matches)\<newline>'') w))
   \<and> doMain_files xforms pkg files w = files_loop xforms pkg files w
   \<and> (files_loop xforms pkg files w = (r, w') \<longrightarrow>
        (\<exists>ps. prefix ps (persisted xforms pkg files) \<and> ast_written w' = ast_written w @ ps
           \<and> (r = Inr () \<longrightarrow> ps = persisted xforms pkg files))
        \<and> written w' = written w)
   \<and> (packages_loop xforms pkgs w = (r, w') \<longrightarrow>
        (\<exists>ps. prefix ps (concat (map (\<lambda>p. persisted xforms p (Files p))
                                  (filter (\<lambda>p. \<not> skipped p) pkgs)))
           \<and> ast_written w' = ast_written w @ ps
           \<and> (r = Inr () \<longrightarrow> ps = concat (map (\<lambda>p. persisted xforms p (Files p))
                                             (filter (\<lambda>p. \<not> skipped p) pkgs))))
        \<and> written w' = written w)
   \<and> (doMain_packages xforms templates pkgs w = (r, w') \<longrightarrow>
        (\<exists>ps. prefix ps (concat (map (\<lambda>p. persisted xforms p (Files p))
                                  (filter (\<lambda>p. \<not> untestify_skipped templates p) pkgs)))
           \<and> ast_written w' = ast_written w @ ps
           \<and> (r = Inr () \<longrightarrow> ps = concat (map (\<lambda>p. persisted xforms p (Files p))
                                      (filter (\<lambda>p. \<not> untestify_skipped templates p) pkgs))))
        \<and> written w' = written w)"
proof -
  have one: "files_loop xforms pkg [file] w =
     (case mutated xforms pkg file of
        Inl err \<Rightarrow> (Inl err, w)
      | Inr (file', n) \<Rightarrow>
          if n = 0 then (Inr (), w)
          else WriteAST (FileName file') file'
                 (Fprint_stderr (''=== '' @ FileName file' @ '' ('' @ Sprintf_d n
                    @ '' matches)\<newline>'') w))"
    by (simp add: files_loop_Cons WriteAST_cases split: sum.splits prod.splits)
  have sum: "files_loop xforms pkg [file] w =
     (let file1 = transformed xforms pkg file;
          n = sum_list (match_counts xforms pkg file) + removals file1
      in if \<not> well_typed file1 then (Inl TypeAssertionFailed, w)
         else if n = 0 then (Inr (), w)
         else WriteAST (FileName file1) (reconciled file1)
                (Fprint_stderr (''=== '' @ FileName file1 @ '' ('' @ Sprintf_d n
                   @ '' matches)\<newline>'') w))"
    unfolding one by (simp add: mutated_def Let_def FileName_reconciled)
  have fl: "files_loop xforms pkg files w = (r, w') \<longrightarrow>
        (\<exists>ps. prefix ps (persisted xforms pkg files) \<and> ast_written w' = ast_written w @ ps
           \<and> (r = Inr () \<longrightarrow> ps = persisted xforms pkg files))
        \<and> written w' = written w"
    using files_loop_prefix [of xforms pkg files w r w'] by blast
  have pl: "packages_loop xforms pkgs w = (r, w') \<longrightarrow>
        (\<exists>ps. prefix ps (concat (map (\<lambda>p. persisted xforms p (Files p))
                                  (filter (\<lambda>p. \<not> skipped p) pkgs)))
           \<and> ast_written w' = ast_written w @ ps
           \<and> (r = Inr () \<longrightarrow> ps = concat (map (\<lambda>p. persisted xforms p (Files p))
                                             (filter (\<lambda>p. \<not> skipped p) pkgs))))
        \<and> written w' = written w"
    using packages_loop_prefix [of xforms pkgs w r w'] by blast
  have dl: "doMain_packages xforms templates pkgs w = (r, w') \<longrightarrow>
        (\<exists>ps. prefix ps (concat (map (\<lambda>p. persisted xforms p (Files p))
                                  (filter (\<lambda>p. \<not> untestify_skipped templates p) pkgs)))
           \<and> ast_written w' = ast_written w @ ps
           \<and> (r = Inr () \<longrightarrow> ps = concat (map (\<lambda>p. persisted xforms p (Files p))
                                      (filter (\<lambda>p. \<not> untestify_skipped templates p) pkgs))))
        \<and> written w' = written w"
    using doMain_packages_prefix [of xforms templates pkgs w r w'] by blast
  from apply_xforms_sum [of xforms pkg "file" k] sum one
    files_loop_doMain_files [of xforms pkg files w] fl pl dl
  show ?thesis
    by blast
qed

theorem file_written_iff_count_nonzero_witness:
  "match_counts [xform_noerror, xform_equal] pkg_q file_q = [2, 1]
   \<and> transformed [xform_noerror, xform_equal] pkg_q file_q = file_q_rewritten
   \<and> apply_xforms [xform_noerror, xform_equal] pkg_q file_q 0 = (file_q_rewritten, 3)
   \<and> removals file_q_rewritten = 2
   \<and> files_loop [xform_noerror, xform_equal] pkg_q [file_q] world0 =
       (Inr (), world0\<lparr>ast_written := [(''q_test.go'', reconciled file_q_rewritten)],
                       stderr := [line_q]\<rparr>)
   \<and> match_counts [xform_noerror, xform_equal] pkg_q file_call = [0, 1]
   \<and> removals (transformed [xform_noerror, xform_equal] pkg_q file_call) = 0
   \<and> files_loop [xform_noerror, xform_equal] pkg_q [file_call] world0 =
       (Inr (), world0\<lparr>ast_written :=
                         [(''e_test.go'',
                           reconciled (transformed [xform_noerror, xform_equal] pkg_q file_call))],
                       stderr := [line_e]\<rparr>)
   \<and> match_counts [xform_noerror, xform_equal] pkg_q file_alias = [0, 0]
   \<and> removals (transformed [xform_noerror, xform_equal] pkg_q file_alias) = 0
   \<and> files_loop [xform_noerror, xform_equal] pkg_q [file_alias] world0 = (Inr (), world0)
   \<and> mutated [] pkg_p file_ex = Inr (reconciled file_ex, 2)
   \<and> files_loop [] pkg_p [file_ex] world0 =
       (Inr (), world0\<lparr>ast_written := [(''a_test.go'', reconciled file_ex)],
                       stderr := [line_a]\<rparr>)
   \<and> persisted [xform_noerror, xform_equal] pkg_q [file_alias, file_q, file_call] =
       [(''q_test.go'', reconciled file_q_rewritten),
        (''e_test.go'', reconciled (transformed [xform_noerror, xform_equal] pkg_q file_call))]
   \<and> files_loop [xform_noerror, xform_equal] pkg_q [file_alias, file_q, file_call] world0 =
       (Inr (), world0\<lparr>ast_written :=
                         [(''q_test.go'', reconciled file_q_rewritten),
                          (''e_test.go'',
                           reconciled (transformed [xform_noerror, xform_equal] pkg_q file_call))],
                       stderr := [line_q, line_e]\<rparr>)"
proof -
  let ?xs = "[xform_noerror, xform_equal]"
  have q: "match_counts ?xs pkg_q file_q = [2, 1]" "transformed ?xs pkg_q file_q = file_q_rewritten"
    by (simp_all add: xform_file_q)
  have c: "match_counts ?xs pkg_q file_call = [0, 1]"
    "transformed ?xs pkg_q file_call = fst (xform_equal pkg_q file_call)"
    by (simp_all add: xform_noerror_idle xform_file_call)
  have a: "match_counts ?xs pkg_q file_alias = [0, 0]" "transformed ?xs pkg_q file_alias = file_alias"
    by (simp_all add: xform_noerror_idle xform_equal_idle)
  have e: "mutated [] pkg_p file_ex = Inr (reconciled file_ex, 2)"
    using mutated_ex(1) [of 0 pkg_p] by simp
  have ax: "apply_xforms ?xs pkg_q file_q 0 = (file_q_rewritten, 3)"
    using file_written_iff_count_nonzero [of ?xs pkg_q file_q 0] unfolding q by simp
  have fq: "files_loop ?xs pkg_q [file_q] world0 =
       (Inr (), world0\<lparr>ast_written := [(''q_test.go'', reconciled file_q_rewritten)],
                       stderr := [line_q]\<rparr>)"
    using file_written_iff_count_nonzero [of ?xs pkg_q file_q 0 world0] unfolding q
    by (simp add: file_q_rewritten_simps Sprintf_d_5 WriteAST_cases Fprint_stderr_def
        world0_simps line_q_def Let_def)
  have fc: "files_loop ?xs pkg_q [file_call] world0 =
       (Inr (), world0\<lparr>ast_written :=
                         [(''e_test.go'', reconciled (transformed ?xs pkg_q file_call))],
                       stderr := [line_e]\<rparr>)"
    using file_written_iff_count_nonzero [of ?xs pkg_q file_call 0 world0] unfolding c
    by (simp add: file_call_rewritten_simps xform_file_call Sprintf_d_2 WriteAST_cases
        Fprint_stderr_def world0_simps line_e_def Let_def)
  have fa: "files_loop ?xs pkg_q [file_alias] world0 = (Inr (), world0)"
    using file_written_iff_count_nonzero [of ?xs pkg_q file_alias 0 world0] unfolding a
    by (simp add: well_typed_ex removals_ex Let_def)
  have fe: "files_loop [] pkg_p [file_ex] world0 =
       (Inr (), world0\<lparr>ast_written := [(''a_test.go'', reconciled file_ex)],
                       stderr := [line_a]\<rparr>)"
    using file_written_iff_count_nonzero [of "[]" pkg_p file_ex 0 world0]
    by (simp add: e FileName_ex Sprintf_d_2 WriteAST_cases Fprint_stderr_def world0_simps
        line_a_def well_typed_ex removals_ex Let_def)
       (simp add: file_ex_def)
  have m: "mutated ?xs pkg_q file_alias = Inr (reconciled file_alias, 0)"
    "mutated ?xs pkg_q file_q = Inr (reconciled file_q_rewritten, 5)"
    "mutated ?xs pkg_q file_call = Inr (reconciled (transformed ?xs pkg_q file_call), 1)"
    unfolding mutated_def q c a
    by (simp_all add: well_typed_ex removals_ex file_q_rewritten_simps file_call_rewritten_simps)
  have run: "files_loop ?xs pkg_q [file_alias, file_q, file_call] world0 =
       (Inr (), world0\<lparr>ast_written :=
                         [(''q_test.go'', reconciled file_q_rewritten),
                          (''e_test.go'', reconciled (transformed ?xs pkg_q file_call))],
                       stderr := [line_q, line_e]\<rparr>)"
    unfolding files_loop_Cons m c
    by (simp add: FileName_reconciled file_q_rewritten_simps xform_file_call Sprintf_d_5
        Sprintf_d_2 WriteAST_cases Fprint_stderr_def world0_simps line_q_def line_e_def)
  have ra: "removals (transformed ?xs pkg_q file_call) = 0"
    "removals (transformed ?xs pkg_q file_alias) = 0"
    by (simp_all only: c a file_call_rewritten_simps removals_ex)
  from file_written_iff_count_nonzero [of ?xs pkg_q file_q 0 world0
      "[file_alias, file_q, file_call]" "Inr ()"
      "world0\<lparr>ast_written :=
                 [(''q_test.go'', reconciled file_q_rewritten),
                  (''e_test.go'', reconciled (transformed ?xs pkg_q file_call))],
               stderr := [line_q, line_e]\<rparr>"] run
  have "\<exists>ps. ast_written (world0\<lparr>ast_written :=
                 [(''q_test.go'', reconciled file_q_rewritten),
                  (''e_test.go'', reconciled (transformed ?xs pkg_q file_call))],
               stderr := [line_q, line_e]\<rparr>) = ast_written world0 @ ps
          \<and> ps = persisted ?xs pkg_q [file_alias, file_q, file_call]"
    by blast
  then have p': "persisted ?xs pkg_q [file_alias, file_q, file_call] =
       [(''q_test.go'', reconciled file_q_rewritten),
        (''e_test.go'', reconciled (transformed ?xs pkg_q file_call))]"
    by (simp add: world0_simps)
  from q ax file_q_rewritten_simps(2) fq c(1) ra fc a(1) fa e fe p' run show ?thesis
    by blast
qed

text \<open>
  C9, as stated, fails: with the help flag both revisions print the help text of the
  rewrite engine and nothing else; the local usage block is not printed.
\<close>

theorem help_prints_only_engine_help_counterexample:
  "main env_ex flags_help [''example.com/p''] world0 =
       (Exited 2, world0\<lparr>stderr := [eg_Help env_ex]\<rparr>)
   \<and> untestify_main env_ex flags_help [''example.com/p''] world0 =
       (Exited 2, world0\<lparr>stderr := [eg_Help env_ex]\<rparr>)
   \<and> usage env_ex \<notin> set [eg_Help env_ex]
   \<and> untestify_usage env_ex \<notin> set [eg_Help env_ex]"
  by (simp add: main_def untestify_main_def flags_help_def Fprint_stderr_def world0_simps
      usage_def untestify_usage_def env_ex_def)

text \<open>
  C9, amended. When the help flag is given, the program prints the help text of the
  rewrite engine (\<open>eg.Help\<close>) on standard error and exits with status 2, whatever the
  arguments. The local usage block, followed by the loader's usage text, is printed,
  with exit status 1, when the help flag is not given and there is no argument.
\<close>

theorem help_flag_prints_engine_help:
  "(helpFlag fl \<longrightarrow>
      main env fl args w = (Exited 2, w\<lparr>stderr := stderr w @ [eg_Help env]\<rparr>)
    \<and> untestify_main env fl args w = (Exited 2, w\<lparr>stderr := stderr w @ [eg_Help env]\<rparr>))
   \<and> (\<not> helpFlag fl \<and> args = [] \<longrightarrow>
      main env fl args w = (Exited 1, w\<lparr>stderr := stderr w @ [usage env]\<rparr>)
    \<and> untestify_main env fl args w =
        (Exited 1, w\<lparr>stderr := stderr w @ [untestify_usage env]\<rparr>))"
  by (simp add: main_def untestify_main_def Fprint_stderr_def)

theorem help_flag_prints_engine_help_witness:
  "helpFlag flags_help \<and> \<not> helpFlag flags_none
   \<and> main env_ex flags_help [] world0 = (Exited 2, world0\<lparr>stderr := [eg_Help env_ex]\<rparr>)
   \<and> untestify_main env_ex flags_help [] world0 =
       (Exited 2, world0\<lparr>stderr := [eg_Help env_ex]\<rparr>)
   \<and> main env_ex flags_none [] world0 = (Exited 1, world0\<lparr>stderr := [usage env_ex]\<rparr>)
   \<and> untestify_main env_ex flags_none [] world0 =
       (Exited 1, world0\<lparr>stderr := [untestify_usage env_ex]\<rparr>)"
proof -
  have h: "helpFlag flags_help" "\<not> helpFlag flags_none"
    by (simp_all add: flags_help_def flags_none_def)
  show ?thesis
    using h help_flag_prints_engine_help [of flags_help env_ex "[]" world0]
      help_flag_prints_engine_help [of flags_none env_ex "[]" world0]
    by (simp add: world0_simps)
qed

text \<open>
  C8. Let the help flag be absent and an argument be given. (1) If the write of the
  \<open>k\<close>-th template unit is the first that fails, \<open>main\<close> panics with that write error;
  exactly the \<open>k\<close> units before it have been written and registered, and nothing else has
  happened. (2) If the expansion succeeds and \<open>conf.FromArgs\<close> or \<open>conf.Load\<close> returns an
  error, \<open>main\<close> panics with that error in the world the expansion left: no transformer is
  built and no package is visited. (3) If writing a mutated file back fails, the loop
  over the files stops with that write error without looking at the files after it, the
  loop over the packages stops without looking at the packages after it, and \<open>main\<close>
  panics with the error. A panic ends the process with a non-zero exit status.
\<close>

theorem fatal_errors_abort_run:
  assumes "\<not> helpFlag fl" and "args \<noteq> []"
  shows "(k < length (units_from TemplateUnit (templateSeq w) (triples substitutions))
          \<and> unwritable w
               (fst (snd (units_from TemplateUnit (templateSeq w) (triples substitutions) ! k)))
          \<and> (\<forall>i < k. \<not> unwritable w
               (fst (snd (units_from TemplateUnit (templateSeq w) (triples substitutions) ! i))))
          \<longrightarrow>
          main env fl args w =
            (Panicked (WriteError
               (fst (snd (units_from TemplateUnit (templateSeq w) (triples substitutions) ! k)))),
             (registered
                (take k (units_from TemplateUnit (templateSeq w) (triples substitutions))) w)
               \<lparr>templateSeq := Suc (templateSeq w + k)\<rparr>))
       \<and> (addAllTemplates substitutions w = (Inr nTemplate, w1)
          \<and> FromArgs env args = Some err
          \<longrightarrow> main env fl args w = (Panicked err, w1))
       \<and> (addAllTemplates substitutions w = (Inr nTemplate, w1)
          \<and> FromArgs env args = None \<and> Load env w1 args = Inl err
          \<longrightarrow> main env fl args w = (Panicked err, w1))
       \<and> (addAllTemplates substitutions w = (Inr nTemplate, w1)
          \<and> FromArgs env args = None \<and> Load env w1 args = Inr iprog
          \<and> xforms_loop env fl iprog nTemplate 0 [] = Inr xforms
          \<and> packages_loop xforms (InitialPackages iprog) w1 = (Inl err, w2)
          \<longrightarrow> main env fl args w = (Panicked err, w2))
       \<and> (mutated xforms pkg file = Inr (file', n) \<and> n \<noteq> 0 \<and> unwritable w (FileName file')
          \<longrightarrow> files_loop xforms pkg (file # files) w =
                (Inl (WriteError (FileName file')),
                 Fprint_stderr (''=== '' @ FileName file' @ '' ('' @ Sprintf_d n
                    @ '' matches)\<newline>'') w))
       \<and> (\<not> Contains (PkgPath pkg) ''template000''
          \<and> files_loop xforms pkg (Files pkg)
               (Fprint_stderr (''=== Package '' @ PkgPath pkg @ '' (''
                  @ Sprintf_d (int (length (Files pkg))) @ '' files)\<newline>'') w) = (Inl err, w2)
          \<longrightarrow> packages_loop xforms (pkg # pkgs) w = (Inl err, w2))
       \<and> exit_status (Panicked err) \<noteq> 0"
proof -
  let ?us = "units_from TemplateUnit (templateSeq w) (triples substitutions)"
  have c1: "k < length ?us \<and> unwritable w (fst (snd (?us ! k)))
          \<and> (\<forall>i < k. \<not> unwritable w (fst (snd (?us ! i))))
          \<longrightarrow>
          main env fl args w =
            (Panicked (WriteError (fst (snd (?us ! k)))),
             (registered (take k ?us) w)\<lparr>templateSeq := Suc (templateSeq w + k)\<rparr>)"
  proof
    assume a: "k < length ?us \<and> unwritable w (fst (snd (?us ! k)))
          \<and> (\<forall>i < k. \<not> unwritable w (fst (snd (?us ! i))))"
    then have "emit ?us w = (Some (WriteError (fst (snd (?us ! k)))),
           (registered (take k ?us) w)\<lparr>templateSeq := Suc (templateSeq w + k)\<rparr>)"
      by (intro emit_first_failure) simp_all
    then show "main env fl args w =
            (Panicked (WriteError (fst (snd (?us ! k)))),
             (registered (take k ?us) w)\<lparr>templateSeq := Suc (templateSeq w + k)\<rparr>)"
      using assms by (simp add: main_def addAllTemplates_emit)
  qed
  have c2: "addAllTemplates substitutions w = (Inr nTemplate, w1)
          \<and> FromArgs env args = Some err
          \<longrightarrow> main env fl args w = (Panicked err, w1)"
    using assms by (simp add: main_def)
  have c3: "addAllTemplates substitutions w = (Inr nTemplate, w1)
          \<and> FromArgs env args = None \<and> Load env w1 args = Inl err
          \<longrightarrow> main env fl args w = (Panicked err, w1)"
    using assms by (simp add: main_def)
  have c4: "addAllTemplates substitutions w = (Inr nTemplate, w1)
          \<and> FromArgs env args = None \<and> Load env w1 args = Inr iprog
          \<and> xforms_loop env fl iprog nTemplate 0 [] = Inr xforms
          \<and> packages_loop xforms (InitialPackages iprog) w1 = (Inl err, w2)
          \<longrightarrow> main env fl args w = (Panicked err, w2)"
    using assms by (simp add: main_def)
  have c5: "mutated xforms pkg file = Inr (file', n) \<and> n \<noteq> 0 \<and> unwritable w (FileName file')
          \<longrightarrow> files_loop xforms pkg (file # files) w =
                (Inl (WriteError (FileName file')),
                 Fprint_stderr (''=== '' @ FileName file' @ '' ('' @ Sprintf_d n
                    @ '' matches)\<newline>'') w)"
    by (simp add: files_loop_Cons WriteAST_cases Fprint_stderr_def)
  have c6: "\<not> Contains (PkgPath pkg) ''template000''
          \<and> files_loop xforms pkg (Files pkg)
               (Fprint_stderr (''=== Package '' @ PkgPath pkg @ '' (''
                  @ Sprintf_d (int (length (Files pkg))) @ '' files)\<newline>'') w) = (Inl err, w2)
          \<longrightarrow> packages_loop xforms (pkg # pkgs) w = (Inl err, w2)"
    by (simp add: Let_def)
  have c7: "exit_status (Panicked err) \<noteq> 0"
    by simp
  from c1 c2 c3 c4 c5 c6 c7 show ?thesis by blast
qed

theorem fatal_errors_abort_run_witness:
  "\<not> helpFlag flags_none \<and> [''example.com/p''] \<noteq> []
   \<and> unwritable world_ro (dir @ ''/template00000000.go'')
   \<and> main env_ex flags_none [''example.com/p''] world_ro =
       (Panicked (WriteError (dir @ ''/template00000000.go'')), world_ro\<lparr>templateSeq := 1\<rparr>)
   \<and> addAllTemplates substitutions world0 = (Inr 264, world1)
   \<and> Load env_ex world1 [''example.com/p''] = Inl LoadError
   \<and> main env_ex flags_none [''example.com/p''] world0 = (Panicked LoadError, world1)
   \<and> ast_written world1 = [] \<and> stderr world1 = []
   \<and> unwritable world_a ''a_test.go''
   \<and> main env_ok flags_none [''example.com/p''] world_a =
       (Panicked (WriteError ''a_test.go''),
        (registered (units_from TemplateUnit 0 (triples substitutions)) world_a)
          \<lparr>stderr := [line_p, line_a]\<rparr>)
   \<and> exit_status (Panicked (WriteError ''a_test.go'')) = 2"
proof -
  have h: "\<not> helpFlag flags_none" "[''example.com/p''] \<noteq> []"
    by (simp_all add: flags_none_def)
  let ?us = "units_from TemplateUnit (templateSeq world_ro) (triples substitutions)"
  have seq: "templateSeq world_ro = 0"
    by (simp add: world_ro_def world0_simps)
  have len: "0 < length ?us"
    by (simp add: length_units_from length_triples length_substitutions)
  have "Sprintf_0d 8 0 = ''00000000''" by code_simp
  with len have p: "fst (snd (?us ! 0)) = dir @ ''/template00000000.go''"
    by (simp add: units_from_nth length_units_from path_TemplateUnit seq)
  have ro: "unwritable world_ro (dir @ ''/template00000000.go'')"
    by (simp add: world_ro_def HasPrefix_append)
  note t = fatal_errors_abort_run [OF h, of 0 world_ro env_ex]
  from t len ro have c1: "main env_ex flags_none [''example.com/p''] world_ro =
       (Panicked (WriteError (dir @ ''/template00000000.go'')), world_ro\<lparr>templateSeq := 1\<rparr>)"
    unfolding p by (simp add: registered_Nil seq)
  have l: "Load env_ex world1 [''example.com/p''] = Inl LoadError"
    by (simp add: env_ex_def)
  have fa: "FromArgs env_ex [''example.com/p''] = None"
    by (simp add: env_ex_def)
  from fatal_errors_abort_run [OF h, of _ world0 env_ex 264 world1 LoadError]
    addAllTemplates_world0 l fa
  have c2: "main env_ex flags_none [''example.com/p''] world0 = (Panicked LoadError, world1)"
    by blast
  have a: "unwritable world_a ''a_test.go''"
    by (simp add: world_a_def)
  from a addAllTemplates_world0 l c1 c2 ro h main_world_a show ?thesis
    by (simp add: world1_simps)
qed

end
